(* ===== verification/Prelude.thy ===== *)
theory Prelude
  imports Main "HOL-Library.Sublist"
begin

text \<open>
  Shared vocabulary of the development.

  \<^item> the error values that stand for the exceptions the program throws
    (\<open>src/err.h\<close>: \<open>err<E>\<close> and \<open>syserr\<close>);
  \<^item> the state-and-error steps in which mutating operations are written: an exception
    leaves the mutations made before it in place, as in the C++;
  \<^item> a few generic facts on lists and strings, and the collections of facts the
    component theories feed.
\<close>

named_theorems path_simps \<open>evaluation of path operations\<close>
named_theorems step_simps \<open>evaluation of state-and-error steps\<close>

section \<open>Errors\<close>

text \<open>
  One constructor per exception class the program throws: \<open>Options::Error\<close>,
  \<open>std::runtime_error\<close>, \<open>std::system_error\<close> (with its errno) and
  \<open>std::logic_error\<close>.
\<close>

datatype error =
    OptionError string
  | RuntimeError string
  | SysError nat string
  | LogicError string

text \<open>The error numbers the program tests for.\<close>

definition ENOENT :: nat where "ENOENT = 2"
definition EACCES :: nat where "EACCES = 13"

definition is_option_error :: "error \<Rightarrow> bool" where
  "is_option_error e = (case e of OptionError _ \<Rightarrow> True | _ \<Rightarrow> False)"

lemma is_option_error_simps [simp]:
  "is_option_error (OptionError m)"
  "\<not> is_option_error (RuntimeError m)"
  "\<not> is_option_error (SysError n m)"
  "\<not> is_option_error (LogicError m)"
  by (simp_all add: is_option_error_def)

section \<open>Steps: state passing with exceptions\<close>

text \<open>
  A step reads and writes a state and either returns a value (\<open>Inr\<close>) or throws
  (\<open>Inl\<close>).  The state is returned in both cases.  Steps of the main program throw an
  \<open>error\<close>, those of the overlay file system an errno.
\<close>

type_synonym ('s, 'e, 'a) estep = "'s \<Rightarrow> ('e + 'a) \<times> 's"
type_synonym ('s, 'a) step = "('s, error, 'a) estep"

definition return_s :: "'a \<Rightarrow> ('s, 'e, 'a) estep" where
  "return_s a s = (Inr a, s)"

definition throw_s :: "'e \<Rightarrow> ('s, 'e, 'a) estep" where
  "throw_s e s = (Inl e, s)"

definition update_s :: "('s \<Rightarrow> 's) \<Rightarrow> ('s, 'e, unit) estep" where
  "update_s f s = (Inr (), f s)"

definition bind_s ::
    "('s, 'e, 'a) estep \<Rightarrow> ('a \<Rightarrow> ('s, 'e, 'b) estep) \<Rightarrow> ('s, 'e, 'b) estep" where
  "bind_s m k s = (case m s of (Inl e, t) \<Rightarrow> (Inl e, t) | (Inr a, t) \<Rightarrow> k a t)"

text \<open>Lifting a pure fallible value into a step.\<close>

definition lift_s :: "'e + 'a \<Rightarrow> ('s, 'e, 'a) estep" where
  "lift_s r s = (r, s)"

text \<open>Reading the state, and turning a failure into a value (a call whose result is tested).\<close>

definition get_s :: "('s \<Rightarrow> 'a) \<Rightarrow> ('s, 'e, 'a) estep" where
  "get_s f s = (Inr (f s), s)"

definition attempt :: "('s, 'e, 'a) estep \<Rightarrow> ('s, 'f, 'e + 'a) estep" where
  "attempt m s = (case m s of (r, t) \<Rightarrow> (Inr r, t))"

lemmas step_defs = return_s_def throw_s_def update_s_def lift_s_def

declare step_defs [step_simps]

lemma bind_s_return [simp]: "bind_s (return_s a) k = k a"
  by (simp add: bind_s_def return_s_def fun_eq_iff)

lemma bind_s_throw [simp]: "bind_s (throw_s e) k = throw_s e"
  by (simp add: bind_s_def throw_s_def fun_eq_iff)

lemma bind_s_assoc: "bind_s (bind_s m f) g = bind_s m (\<lambda>a. bind_s (f a) g)"
  by (auto simp: bind_s_def fun_eq_iff split: prod.splits sum.splits)

lemma bind_s_Inr: "m s = (Inr a, t) \<Longrightarrow> bind_s m k s = k a t"
  by (simp add: bind_s_def)

lemma bind_s_Inl: "m s = (Inl e, t) \<Longrightarrow> bind_s m k s = (Inl e, t)"
  by (simp add: bind_s_def)

text \<open>
  \<open>keeps I m\<close>: the step \<open>m\<close> keeps the invariant \<open>I\<close>, whether it returns or throws.
\<close>

definition keeps :: "('s \<Rightarrow> bool) \<Rightarrow> ('s, 'e, 'a) estep \<Rightarrow> bool" where
  "keeps I m \<longleftrightarrow> (\<forall>s. I s \<longrightarrow> I (snd (m s)))"

lemma keepsI: "(\<And>s. I s \<Longrightarrow> I (snd (m s))) \<Longrightarrow> keeps I m"
  by (simp add: keeps_def)

lemma keepsD: "keeps I m \<Longrightarrow> I s \<Longrightarrow> I (snd (m s))"
  by (simp add: keeps_def)

lemma keeps_return [intro!, simp]: "keeps I (return_s a)"
  by (simp add: keeps_def return_s_def)

lemma keeps_throw [intro!, simp]: "keeps I (throw_s e)"
  by (simp add: keeps_def throw_s_def)

lemma keeps_lift [intro!, simp]: "keeps I (lift_s r)"
  by (simp add: keeps_def lift_s_def)

lemma keeps_update [intro]: "(\<And>s. I s \<Longrightarrow> I (f s)) \<Longrightarrow> keeps I (update_s f)"
  by (simp add: keeps_def update_s_def)

lemma keeps_bind [intro]:
  assumes "keeps I m" and "\<And>a. keeps I (k a)"
  shows "keeps I (bind_s m k)"
proof (rule keepsI)
  fix s assume "I s"
  with assms(1) have "I (snd (m s))" by (rule keepsD)
  then show "I (snd (bind_s m k s))"
    using assms(2) by (auto simp: bind_s_def keeps_def split: prod.splits sum.splits)
qed

lemma keeps_get [intro!, simp]: "keeps I (get_s f)"
  by (simp add: keeps_def get_s_def)

lemma keeps_attempt [intro!]: "keeps I m \<Longrightarrow> keeps I (attempt m)"
  by (simp add: keeps_def attempt_def case_prod_beta)

lemma bind_get [simp]: "bind_s (get_s f) k = (\<lambda>s. k (f s) s)"
  by (simp add: bind_s_def get_s_def fun_eq_iff)

lemma keeps_pointwise: "(\<And>x. keeps I (k x)) \<Longrightarrow> keeps I (\<lambda>s. k (f s) s)"
  by (simp add: keeps_def)

text \<open>
  Triples: from a state with \<open>P\<close>, a return of \<open>a\<close> leads to \<open>Q a\<close> and a failure to \<open>R\<close>.
\<close>

definition triple ::
    "('s \<Rightarrow> bool) \<Rightarrow> ('s, 'e, 'a) estep \<Rightarrow> ('a \<Rightarrow> 's \<Rightarrow> bool) \<Rightarrow> ('s \<Rightarrow> bool) \<Rightarrow> bool" where
  "triple P m Q R \<longleftrightarrow>
     (\<forall>s. P s \<longrightarrow> (case m s of (Inr a, t) \<Rightarrow> Q a t | (Inl e, t) \<Rightarrow> R t))"

lemma tripleI:
  "(\<And>s a t. P s \<Longrightarrow> m s = (Inr a, t) \<Longrightarrow> Q a t) \<Longrightarrow>
   (\<And>s e t. P s \<Longrightarrow> m s = (Inl e, t) \<Longrightarrow> R t) \<Longrightarrow> triple P m Q R"
  by (auto simp: triple_def split: prod.split sum.split)

lemma triple_Inr: "triple P m Q R \<Longrightarrow> P s \<Longrightarrow> m s = (Inr a, t) \<Longrightarrow> Q a t"
  by (fastforce simp: triple_def)

lemma triple_Inl: "triple P m Q R \<Longrightarrow> P s \<Longrightarrow> m s = (Inl e, t) \<Longrightarrow> R t"
  by (fastforce simp: triple_def)

lemma keeps_iff_triple: "keeps I m \<longleftrightarrow> triple I m (\<lambda>a. I) I"
  by (simp add: keeps_def triple_def split: prod.split sum.split) (metis surj_pair sum.exhaust snd_conv)

lemma triple_weaken:
  "triple P m Q R \<Longrightarrow> (\<And>s. P' s \<Longrightarrow> P s) \<Longrightarrow> (\<And>a s. Q a s \<Longrightarrow> Q' a s) \<Longrightarrow> (\<And>s. R s \<Longrightarrow> R' s) \<Longrightarrow>
   triple P' m Q' R'"
  unfolding triple_def by (simp split: prod.splits sum.splits) blast

lemma triple_return: "(\<And>s. P s \<Longrightarrow> Q a s) \<Longrightarrow> triple P (return_s a) Q R"
  by (simp add: triple_def return_s_def)

lemma triple_throw: "(\<And>s. P s \<Longrightarrow> R s) \<Longrightarrow> triple P (throw_s e) Q R"
  by (simp add: triple_def throw_s_def)

lemma triple_bind:
  assumes "triple P m Q R" and "\<And>a. triple (Q a) (k a) S R"
  shows "triple P (bind_s m k) S R"
  using assms unfolding triple_def bind_s_def by (fastforce split: prod.splits sum.splits)

lemma triple_attempt:
  "triple P m Q R \<Longrightarrow> triple P (attempt m) (\<lambda>r s. case r of Inl e \<Rightarrow> R s | Inr a \<Rightarrow> Q a s) E"
  by (simp add: triple_def attempt_def split: prod.splits sum.splits)

lemma triple_absurd: "(\<And>s. \<not> P s) \<Longrightarrow> triple P m Q R"
  by (simp add: triple_def)

lemma option_eqI: "(\<And>v. x = Some v \<longleftrightarrow> y = Some v) \<Longrightarrow> x = y"
  by (cases x; cases y) auto

section \<open>Characters and strings\<close>

abbreviation NL :: char where "NL \<equiv> CHR 0x0A"
abbreviation TAB :: char where "TAB \<equiv> CHR 0x09"
abbreviation CR :: char where "CR \<equiv> CHR 0x0D"
abbreviation BS :: char where "BS \<equiv> CHR 0x5C"
abbreviation DQ :: char where "DQ \<equiv> CHR 0x22"
abbreviation SLASH :: char where "SLASH \<equiv> CHR 0x2F"
abbreviation DOT :: char where "DOT \<equiv> CHR 0x2E"
abbreviation DASH :: char where "DASH \<equiv> CHR 0x2D"
abbreviation EQUALS :: char where "EQUALS \<equiv> CHR 0x3D"

text \<open>Splitting at the first occurrence of a character, as \<open>find\<close> and \<open>substr\<close> do.\<close>

definition before_char :: "char \<Rightarrow> string \<Rightarrow> string" where
  "before_char c s = takeWhile (\<lambda>x. x \<noteq> c) s"

definition after_char :: "char \<Rightarrow> string \<Rightarrow> string" where
  "after_char c s = tl (dropWhile (\<lambda>x. x \<noteq> c) s)"

lemma before_after_char:
  "c \<in> set s \<Longrightarrow> s = before_char c s @ c # after_char c s"
  unfolding before_char_def after_char_def by (induction s) auto

lemma before_char_absent [simp]: "c \<notin> set s \<Longrightarrow> before_char c s = s"
  unfolding before_char_def by (induction s) auto

lemma not_in_before_char [simp]: "c \<notin> set (before_char c s)"
  unfolding before_char_def using set_takeWhileD by fastforce

lemma before_char_append [simp]: "c \<notin> set s \<Longrightarrow> before_char c (s @ c # t) = s"
  unfolding before_char_def by (induction s) auto

lemma after_char_append [simp]: "c \<notin> set s \<Longrightarrow> after_char c (s @ c # t) = t"
  unfolding after_char_def by (induction s) auto

lemma length_after_char [simp]: "c \<in> set s \<Longrightarrow> length (after_char c s) < length s"
  using before_after_char [of c s] by (metis add_Suc_right length_Cons length_append less_add_Suc2)

text \<open>Decimal rendering of numbers, as \<open>std::format\<close> and \<open>std::to_string\<close> print them.\<close>

fun show_nat :: "nat \<Rightarrow> string" where
  "show_nat n =
     (if n < 10 then [char_of (48 + n)]
      else show_nat (n div 10) @ [char_of (48 + n mod 10)])"

declare show_nat.simps [simp del]

lemma show_nat_2: "show_nat (Suc (Suc 0)) = ''2''"
  by code_simp

text \<open>Filesystem paths start with the prefix of another one followed by a slash.\<close>

lemma prefix_snocE:
  assumes "prefix (a @ [c]) s" and "prefix (b @ [c]) s" and "\<not> prefix (a @ [c]) (b @ [c])"
    and "\<not> prefix (b @ [c]) (a @ [c])"
  shows False
  using assms prefix_same_cases by blast

end
