(* ===== verification/Globbing.thy ===== *)
theory Globbing
  imports Prelude
begin

text \<open>
  The wildcard matcher \<open>glob\<close> of \<open>src/fs.cc\<close>, which decides which environment variables
  are filtered, and its specification: the language of a pattern.
\<close>

section \<open>The matcher\<close>

function glob :: "string \<Rightarrow> string \<Rightarrow> bool" where
  "glob [] target = (target = [])"
| "glob (p # ps) target =
     (if p = BS then
        (case ps of
           [] \<Rightarrow> False
         | q # qs \<Rightarrow> (case target of [] \<Rightarrow> False | c # cs \<Rightarrow> if q = c then glob qs cs else False))
      else if p = CHR ''*'' then
        (if glob ps target then True
         else (case target of [] \<Rightarrow> False | c # cs \<Rightarrow> glob (p # ps) cs))
      else
        (case target of [] \<Rightarrow> False | c # cs \<Rightarrow> if p = c then glob ps cs else False))"
  by pat_completeness auto
termination
  by (relation "measure (\<lambda>(p, t). length p + length t)") auto

section \<open>Specification\<close>

text \<open>A pattern is a sequence of wildcards and literal characters; a trailing backslash is none.\<close>

datatype glob_token = AnyRun | Lit char

fun glob_tokens :: "string \<Rightarrow> glob_token list option" where
  "glob_tokens [] = Some []"
| "glob_tokens (p # ps) =
     (if p = BS then
        (case ps of [] \<Rightarrow> None | q # qs \<Rightarrow> map_option ((#) (Lit q)) (glob_tokens qs))
      else if p = CHR ''*'' then map_option ((#) AnyRun) (glob_tokens ps)
      else map_option ((#) (Lit p)) (glob_tokens ps))"

inductive glob_lang :: "glob_token list \<Rightarrow> string \<Rightarrow> bool" where
  Nil: "glob_lang [] []"
| Lit: "glob_lang ts s \<Longrightarrow> glob_lang (Lit c # ts) (c # s)"
| Any: "glob_lang ts s \<Longrightarrow> glob_lang (AnyRun # ts) (r @ s)"

inductive_cases glob_lang_NilE [elim!]: "glob_lang [] s"
inductive_cases glob_lang_LitE [elim!]: "glob_lang (Lit c # ts) s"
inductive_cases glob_lang_AnyE [elim!]: "glob_lang (AnyRun # ts) s"

lemma glob_lang_Nil_iff [simp]: "glob_lang [] s \<longleftrightarrow> s = []"
  by (auto intro: glob_lang.Nil)

lemma glob_lang_Lit_iff [simp]: "glob_lang (Lit c # ts) s \<longleftrightarrow> (\<exists>u. s = c # u \<and> glob_lang ts u)"
  by (auto intro: glob_lang.Lit)

lemma glob_lang_Any_iff: "glob_lang (AnyRun # ts) s \<longleftrightarrow> (\<exists>r u. s = r @ u \<and> glob_lang ts u)"
  by (auto intro: glob_lang.Any)

text \<open>A wildcard matches nothing or swallows one more character.\<close>

lemma glob_lang_Any_unfold:
  "glob_lang (AnyRun # ts) s \<longleftrightarrow>
     glob_lang ts s \<or> (\<exists>c u. s = c # u \<and> glob_lang (AnyRun # ts) u)"
proof
  assume "glob_lang (AnyRun # ts) s"
  then obtain r u where s: "s = r @ u" "glob_lang ts u" by auto
  then show "glob_lang ts s \<or> (\<exists>c u. s = c # u \<and> glob_lang (AnyRun # ts) u)"
    by (cases r) (auto simp: glob_lang_Any_iff)
next
  assume "glob_lang ts s \<or> (\<exists>c u. s = c # u \<and> glob_lang (AnyRun # ts) u)"
  then show "glob_lang (AnyRun # ts) s"
    by (metis append_Cons append_Nil glob_lang_Any_iff)
qed

lemma ex_map_option: "(\<exists>y. map_option f x = Some y \<and> P y) \<longleftrightarrow> (\<exists>y. x = Some y \<and> P (f y))"
  by auto

lemma glob_correct: "glob p t \<longleftrightarrow> (\<exists>ts. glob_tokens p = Some ts \<and> glob_lang ts t)"
proof (induction p t rule: glob.induct)
  case (2 p ps t)
  consider (esc) "p = BS" | (star) "p = CHR ''*''" | (lit) "p \<noteq> BS" "p \<noteq> CHR ''*''"
    by blast
  then show ?case
  proof cases
    case esc
    then show ?thesis using 2 by (cases ps; cases t) auto
  next
    case star
    then have toks: "glob_tokens (p # ps) = map_option ((#) AnyRun) (glob_tokens ps)"
      by simp
    show ?thesis
    proof (cases "glob ps t")
      case True
      with 2(2) star obtain ts where "glob_tokens ps = Some ts" "glob_lang ts t" by auto
      then have "glob_tokens (p # ps) = Some (AnyRun # ts) \<and> glob_lang (AnyRun # ts) t"
        using glob_lang_Any_unfold [of ts t] toks by simp
      with True star show ?thesis by auto
    next
      case False
      with 2(2) star have no: "glob_tokens ps = Some ts \<Longrightarrow> \<not> glob_lang ts t" for ts by auto
      show ?thesis
      proof (cases t)
        case Nil
        with star False toks no show ?thesis by (auto simp: glob_lang_Any_unfold)
      next
        case (Cons c cs)
        have step: "glob_lang (AnyRun # ts) cs \<longleftrightarrow> glob_lang (AnyRun # ts) t"
          if "glob_tokens ps = Some ts" for ts
          using no [OF that] glob_lang_Any_unfold [of ts t] Cons by simp
        have "glob (p # ps) t \<longleftrightarrow> glob (p # ps) cs"
          using star False Cons by (subst glob.simps) (simp del: glob.simps)
        also have "\<dots> \<longleftrightarrow> (\<exists>ts. glob_tokens (p # ps) = Some ts \<and> glob_lang ts cs)"
          using star False Cons by (intro 2(3)) simp_all
        also have "\<dots> \<longleftrightarrow> (\<exists>ts. glob_tokens ps = Some ts \<and> glob_lang (AnyRun # ts) cs)"
          unfolding toks by (rule ex_map_option)
        also have "\<dots> \<longleftrightarrow> (\<exists>ts. glob_tokens ps = Some ts \<and> glob_lang (AnyRun # ts) t)"
          by (intro ex_cong1 conj_cong refl) (simp add: step)
        also have "\<dots> \<longleftrightarrow> (\<exists>ts. glob_tokens (p # ps) = Some ts \<and> glob_lang ts t)"
          unfolding toks by (rule ex_map_option [symmetric])
        finally show ?thesis .
      qed
    qed
  next
    case lit
    then show ?thesis using 2
      by (cases t) (auto simp: ex_map_option simp del: map_option_eq_Some)
  qed
qed auto

section \<open>The patterns the defaults use\<close>

text \<open>Plain strings contain neither a wildcard nor a backslash.\<close>

definition plain :: "string \<Rightarrow> bool" where
  "plain s = (CHR ''*'' \<notin> set s \<and> BS \<notin> set s)"

lemma plain_tokens: "plain s \<Longrightarrow> glob_tokens s = Some (map Lit s)"
  unfolding plain_def by (induction s) auto

lemma glob_lang_lits: "glob_lang (map Lit s) t \<longleftrightarrow> s = t"
  by (induction s arbitrary: t) auto

lemma glob_plain: "plain s \<Longrightarrow> glob s t \<longleftrightarrow> s = t"
  by (simp add: glob_correct plain_tokens glob_lang_lits)

lemma glob_star_suffix: "plain s \<Longrightarrow> glob (CHR ''*'' # s) t \<longleftrightarrow> suffix s t"
  unfolding glob_correct by (simp add: plain_tokens glob_lang_lits glob_lang_Any_iff suffix_def)

end
