(* ===== verification/Ordered_Maps.thy ===== *)
theory Ordered_Maps
  imports Prelude
begin

text \<open>
  \<open>std::map\<close> and \<open>std::set\<close> with a comparison function, as the program uses them
  (\<open>PathMap\<close>, \<open>PathSet\<close>, \<open>setenv_\<close>, \<open>env_filter_\<close>, \<open>actions_\<close>): an association
  list kept in key order.  Keys are compared with the given \<open>lt\<close> only, so two keys are
  the same key when neither is less than the other, whatever their spelling.

  The locale \<open>weak_order\<close> states what the containers require of a comparison function
  (C++'s \<^emph>\<open>strict weak ordering\<close>); the laws of the operations are proved in it once and
  interpreted for every comparison the program uses.
\<close>

section \<open>Operations\<close>

fun om_lookup :: "('k \<Rightarrow> 'k \<Rightarrow> bool) \<Rightarrow> 'k \<Rightarrow> ('k \<times> 'v) list \<Rightarrow> 'v option" where
  "om_lookup lt k [] = None"
| "om_lookup lt k ((a, v) # m) =
     (if lt a k then om_lookup lt k m else if lt k a then None else Some v)"

text \<open>\<open>emplace\<close>/\<open>try_emplace\<close>/\<open>insert\<close>: an existing entry is left alone.\<close>

fun om_emplace :: "('k \<Rightarrow> 'k \<Rightarrow> bool) \<Rightarrow> 'k \<Rightarrow> 'v \<Rightarrow> ('k \<times> 'v) list \<Rightarrow> ('k \<times> 'v) list" where
  "om_emplace lt k v [] = [(k, v)]"
| "om_emplace lt k v ((a, w) # m) =
     (if lt a k then (a, w) # om_emplace lt k v m
      else if lt k a then (k, v) # (a, w) # m
      else (a, w) # m)"

text \<open>\<open>insert_or_assign\<close>: an existing entry keeps its key and gets the new value.\<close>

fun om_assign :: "('k \<Rightarrow> 'k \<Rightarrow> bool) \<Rightarrow> 'k \<Rightarrow> 'v \<Rightarrow> ('k \<times> 'v) list \<Rightarrow> ('k \<times> 'v) list" where
  "om_assign lt k v [] = [(k, v)]"
| "om_assign lt k v ((a, w) # m) =
     (if lt a k then (a, w) # om_assign lt k v m
      else if lt k a then (k, v) # (a, w) # m
      else (a, v) # m)"

fun om_erase :: "('k \<Rightarrow> 'k \<Rightarrow> bool) \<Rightarrow> 'k \<Rightarrow> ('k \<times> 'v) list \<Rightarrow> ('k \<times> 'v) list" where
  "om_erase lt k [] = []"
| "om_erase lt k ((a, w) # m) =
     (if lt a k then (a, w) # om_erase lt k m
      else if lt k a then (a, w) # m
      else m)"

definition om_erase_if :: "('k \<Rightarrow> bool) \<Rightarrow> ('k \<times> 'v) list \<Rightarrow> ('k \<times> 'v) list" where
  "om_erase_if P m = filter (\<lambda>(k, v). \<not> P k) m"

definition om_sorted :: "('k \<Rightarrow> 'k \<Rightarrow> bool) \<Rightarrow> ('k \<times> 'v) list \<Rightarrow> bool" where
  "om_sorted lt m = sorted_wrt lt (map fst m)"

text \<open>Sets are maps to \<open>unit\<close>.\<close>

type_synonym 'k oset = "('k \<times> unit) list"

abbreviation os_insert :: "('k \<Rightarrow> 'k \<Rightarrow> bool) \<Rightarrow> 'k \<Rightarrow> 'k oset \<Rightarrow> 'k oset" where
  "os_insert lt k m \<equiv> om_emplace lt k () m"

abbreviation os_mem :: "('k \<Rightarrow> 'k \<Rightarrow> bool) \<Rightarrow> 'k \<Rightarrow> 'k oset \<Rightarrow> bool" where
  "os_mem lt k m \<equiv> om_lookup lt k m \<noteq> None"

abbreviation os_elems :: "'k oset \<Rightarrow> 'k list" where
  "os_elems m \<equiv> map fst m"

text \<open>\<open>std::lexicographical_compare\<close>, which orders strings and paths.\<close>

fun lex_less :: "('a \<Rightarrow> 'a \<Rightarrow> bool) \<Rightarrow> 'a list \<Rightarrow> 'a list \<Rightarrow> bool" where
  "lex_less lt xs [] = False"
| "lex_less lt [] (y # ys) = True"
| "lex_less lt (x # xs) (y # ys) = (lt x y \<or> (\<not> lt y x \<and> lex_less lt xs ys))"

section \<open>Strict weak orders\<close>

locale weak_order =
  fixes lt :: "'k \<Rightarrow> 'k \<Rightarrow> bool"
  assumes irrefl: "\<not> lt a a"
    and trans: "lt a b \<Longrightarrow> lt b c \<Longrightarrow> lt a c"
    and neg_trans: "lt a c \<Longrightarrow> lt a b \<or> lt b c"
begin

definition eqv :: "'k \<Rightarrow> 'k \<Rightarrow> bool" where
  "eqv a b \<longleftrightarrow> \<not> lt a b \<and> \<not> lt b a"

lemma asym: "lt a b \<Longrightarrow> \<not> lt b a"
  using irrefl trans by blast

lemma eqv_refl: "eqv a a"
  by (simp add: eqv_def irrefl)

lemma eqv_sym: "eqv a b \<Longrightarrow> eqv b a"
  by (simp add: eqv_def)

lemma eqv_lt: "eqv a b \<Longrightarrow> lt a c = lt b c"
  unfolding eqv_def using neg_trans by blast

lemma eqv_gt: "eqv a b \<Longrightarrow> lt c a = lt c b"
  unfolding eqv_def using neg_trans by blast

lemma eqv_trans: "eqv a b \<Longrightarrow> eqv b c \<Longrightarrow> eqv a c"
  unfolding eqv_def using neg_trans by blast

lemma lookup_below: "\<forall>(a, v) \<in> set m. lt k a \<Longrightarrow> om_lookup lt k m = None"
  by (cases m) (auto simp: asym)

lemma sorted_Cons: "om_sorted lt ((a, v) # m) \<longleftrightarrow> (\<forall>(b, w) \<in> set m. lt a b) \<and> om_sorted lt m"
  by (auto simp: om_sorted_def)

lemma emplace_set: "set (om_emplace lt k v m) \<subseteq> insert (k, v) (set m)"
  by (induction m) (auto split: if_splits)

lemma assign_keys: "fst ` set (om_assign lt k v m) \<subseteq> insert k (fst ` set m)"
proof (induction m)
  case (Cons p m)
  then show ?case by (cases p) auto
qed simp

lemma erase_set: "set (om_erase lt k m) \<subseteq> set m"
  by (induction m) (auto split: if_splits)

lemma emplace_sorted: "om_sorted lt m \<Longrightarrow> om_sorted lt (om_emplace lt k v m)"
proof (induction m)
  case Nil
  then show ?case by (simp add: om_sorted_def)
next
  case (Cons p m)
  obtain a w where p: "p = (a, w)" by (cases p)
  show ?case
  proof (cases "lt a k")
    case True
    with Cons p show ?thesis using emplace_set [of k v m] by (auto simp: sorted_Cons)
  next
    case False
    with Cons p show ?thesis by (auto simp: sorted_Cons intro: trans)
  qed
qed

lemma assign_sorted: "om_sorted lt m \<Longrightarrow> om_sorted lt (om_assign lt k v m)"
proof (induction m)
  case Nil
  then show ?case by (simp add: om_sorted_def)
next
  case (Cons p m)
  obtain a w where p: "p = (a, w)" by (cases p)
  show ?case
  proof (cases "lt a k")
    case True
    have "\<forall>x \<in> fst ` set m. lt a x" using Cons.prems p by (auto simp: sorted_Cons)
    with True have "\<forall>x \<in> fst ` set (om_assign lt k v m). lt a x"
      using assign_keys [of k v m] by blast
    then have "\<forall>(x, y) \<in> set (om_assign lt k v m). lt a x" by force
    with True Cons p show ?thesis by (simp add: sorted_Cons)
  next
    case False
    with Cons p show ?thesis by (auto simp: sorted_Cons intro: trans)
  qed
qed

lemma erase_sorted: "om_sorted lt m \<Longrightarrow> om_sorted lt (om_erase lt k m)"
proof (induction m)
  case (Cons p m)
  then show ?case using erase_set [of k m] by (cases p) (auto simp: sorted_Cons)
qed simp

lemma erase_if_sorted: "om_sorted lt m \<Longrightarrow> om_sorted lt (om_erase_if P m)"
  by (induction m) (auto simp: om_erase_if_def sorted_Cons)

lemma lookup_iff:
  "om_sorted lt m \<Longrightarrow> om_lookup lt k m = Some v \<longleftrightarrow> (\<exists>a. (a, v) \<in> set m \<and> eqv a k)"
proof (induction m)
  case (Cons p m)
  obtain a w where p: "p = (a, w)" by (cases p)
  have below: "\<forall>(b, u) \<in> set m. lt a b" and srt: "om_sorted lt m"
    using Cons.prems p by (auto simp: sorted_Cons)
  consider "lt a k" | "lt k a" | "eqv a k" by (auto simp: eqv_def)
  then show ?case
  proof cases
    case 1
    with Cons.IH [OF srt] p show ?thesis by (auto simp: eqv_def)
  next
    case 2
    with below have "\<forall>(b, u) \<in> set m. lt k b" by (auto intro: trans)
    with 2 p show ?thesis by (auto simp: eqv_def asym)
  next
    case 3
    with below have "\<forall>(b, u) \<in> set m. lt k b" by (auto simp: eqv_lt)
    with 3 p show ?thesis by (auto simp: eqv_def)
  qed
qed simp

lemma lookup_None_iff:
  "om_sorted lt m \<Longrightarrow> om_lookup lt k m = None \<longleftrightarrow> (\<forall>(a, v) \<in> set m. \<not> eqv a k)"
  using lookup_iff [of m k] by (cases "om_lookup lt k m") fastforce+

lemma lookup_eqv: "eqv j k \<Longrightarrow> om_lookup lt j m = om_lookup lt k m"
  by (induction m) (auto simp: eqv_lt eqv_gt)

lemma lookup_emplace_same: 
  "om_lookup lt k (om_emplace lt k v m) =
     Some (case om_lookup lt k m of None \<Rightarrow> v | Some w \<Rightarrow> w)"
  by (induction m) (auto simp: irrefl)

lemma lookup_assign_same: "om_lookup lt k (om_assign lt k v m) = Some v"
  by (induction m) (auto simp: irrefl)

lemma lookup_emplace_other:
  "\<not> eqv j k \<Longrightarrow> om_lookup lt j (om_emplace lt k v m) = om_lookup lt j m"
  by (induction m) (auto simp: eqv_def dest: trans)

lemma lookup_assign_other:
  "\<not> eqv j k \<Longrightarrow> om_lookup lt j (om_assign lt k v m) = om_lookup lt j m"
proof (induction m)
  case (Cons p m)
  obtain a w where p: "p = (a, w)" by (cases p)
  show ?case
  proof (cases "eqv a k")
    case True
    with Cons.prems have "lt j a \<or> lt a j"
      unfolding eqv_def using neg_trans by blast
    with True p show ?thesis by (auto simp: eqv_def)
  next
    case False
    with Cons p show ?thesis by (auto simp: eqv_def dest: trans)
  qed
qed (auto simp: eqv_def)

lemma lookup_erase_same: "om_sorted lt m \<Longrightarrow> om_lookup lt k (om_erase lt k m) = None"
proof (induction m)
  case (Cons p m)
  obtain a w where p: "p = (a, w)" by (cases p)
  show ?case
  proof (cases "lt a k \<or> lt k a")
    case True
    with Cons p show ?thesis by (auto simp: sorted_Cons asym)
  next
    case False
    then have "eqv a k" by (simp add: eqv_def)
    with Cons.prems p have "\<forall>(b, u) \<in> set m. lt k b" by (auto simp: sorted_Cons eqv_lt)
    with False p show ?thesis by (simp add: lookup_below)
  qed
qed simp

lemma lookup_erase_other:
  "om_sorted lt m \<Longrightarrow> \<not> eqv j k \<Longrightarrow> om_lookup lt j (om_erase lt k m) = om_lookup lt j m"
proof (induction m)
  case (Cons p m)
  obtain a w where p: "p = (a, w)" by (cases p)
  show ?case
  proof (cases "lt a k \<or> lt k a")
    case True
    with Cons p show ?thesis by (auto simp: sorted_Cons)
  next
    case False
    then have e: "eqv a k" by (simp add: eqv_def)
    then have "lt a j \<or> lt j a"
      using Cons.prems(2) eqv_def eqv_gt eqv_lt by blast
    moreover have "\<forall>(b, u) \<in> set m. lt j b" if "lt j a"
      using that Cons.prems(1) p by (auto simp: sorted_Cons intro: trans)
    ultimately show ?thesis
      using e False p Cons.prems by (auto simp: sorted_Cons asym lookup_below)
  qed
qed simp

lemma erase_emplace:
  "om_sorted lt m \<Longrightarrow> om_lookup lt k m = None \<Longrightarrow> om_erase lt k (om_emplace lt k v m) = m"
proof (induction m)
  case Nil
  then show ?case by (simp add: irrefl)
next
  case (Cons p m)
  obtain a w where p: "p = (a, w)" by (cases p)
  show ?case
  proof (cases "lt a k")
    case True
    with Cons p show ?thesis by (simp add: sorted_Cons)
  next
    case False
    with Cons.prems p show ?thesis by (simp add: irrefl split: if_splits)
  qed
qed

lemma erase_if_mem: "(a, v) \<in> set (om_erase_if P m) \<longleftrightarrow> (a, v) \<in> set m \<and> \<not> P a"
  by (auto simp: om_erase_if_def)

text \<open>A comparison through a key function, and the lexicographic order on lists.\<close>

lemma weak_order_inv_image: "weak_order (\<lambda>a b. lt (f a) (f b))"
  by unfold_locales (use irrefl trans neg_trans in blast)+

lemma lex_less_irrefl: "\<not> lex_less lt xs xs"
  by (induction xs) (auto simp: irrefl)

lemma lex_less_trans: "lex_less lt xs ys \<Longrightarrow> lex_less lt ys zs \<Longrightarrow> lex_less lt xs zs"
proof (induction xs arbitrary: ys zs)
  case Nil
  then show ?case by (cases ys; cases zs) auto
next
  case (Cons x xs)
  then obtain y ys' z zs' where yz: "ys = y # ys'" "zs = z # zs'"
    by (cases ys; cases zs) auto
  with Cons.prems Cons.IH [of ys' zs'] trans neg_trans show ?case
    by (auto; metis)
qed

lemma lex_less_neg_trans: "lex_less lt xs zs \<Longrightarrow> lex_less lt xs ys \<or> lex_less lt ys zs"
proof (induction xs arbitrary: ys zs)
  case Nil
  then show ?case by (cases ys; cases zs) auto
next
  case (Cons x xs)
  then obtain z zs' where z: "zs = z # zs'" by (cases zs) auto
  show ?case
  proof (cases ys)
    case Nil
    with z show ?thesis by simp
  next
    case (Cons y ys')
    with Cons.prems z Cons.IH [of zs' ys'] trans neg_trans show ?thesis
      by (auto; metis)
  qed
qed

lemma weak_order_lex: "weak_order (lex_less lt)"
  by unfold_locales (blast intro: lex_less_trans | simp add: lex_less_irrefl | blast dest: lex_less_neg_trans)+

end

text \<open>Keys that are equal as soon as neither is less: characters and strings.\<close>

locale total_keys = weak_order +
  assumes total: "\<not> lt a b \<Longrightarrow> \<not> lt b a \<Longrightarrow> a = b"
begin

lemma eqv_eq: "eqv a b \<longleftrightarrow> a = b"
  using total by (auto simp: eqv_def irrefl)

lemma emplace_elems: "set (map fst (om_emplace lt k v m)) = insert k (set (map fst m))"
proof (induction m)
  case (Cons p m)
  then show ?case using total by (cases p) auto
qed simp

lemma lookup_emplace:
  "om_lookup lt j (om_emplace lt k v m) =
     (if j = k then Some (case om_lookup lt k m of None \<Rightarrow> v | Some w \<Rightarrow> w)
      else om_lookup lt j m)"
  by (simp add: lookup_emplace_same lookup_emplace_other eqv_eq)

lemma lookup_assign:
  "om_lookup lt j (om_assign lt k v m) = (if j = k then Some v else om_lookup lt j m)"
  by (simp add: lookup_assign_same lookup_assign_other eqv_eq)

lemma lookup_erase:
  "om_sorted lt m \<Longrightarrow>
   om_lookup lt j (om_erase lt k m) = (if j = k then None else om_lookup lt j m)"
  by (simp add: lookup_erase_same lookup_erase_other eqv_eq)

lemma lookup_mem:
  "om_sorted lt m \<Longrightarrow> om_lookup lt k m = Some v \<longleftrightarrow> (k, v) \<in> set m"
  by (simp add: lookup_iff eqv_eq)

lemma lookup_erase_if:
  "om_sorted lt m \<Longrightarrow>
   om_lookup lt k (om_erase_if P m) = (if P k then None else om_lookup lt k m)"
  by (rule option_eqI) (auto simp: lookup_mem erase_if_mem erase_if_sorted)

lemma lex_total: "\<not> lex_less lt xs ys \<Longrightarrow> \<not> lex_less lt ys xs \<Longrightarrow> xs = ys"
proof (induction xs arbitrary: ys)
  case Nil
  then show ?case by (cases ys) auto
next
  case (Cons x xs)
  then show ?case using total by (cases ys) auto
qed

lemma total_keys_lex: "total_keys (lex_less lt)"
  by (intro total_keys.intro weak_order_lex total_keys_axioms.intro) (rule lex_total)

end

section \<open>Characters and strings\<close>

text \<open>\<open>std::string\<close> compares its characters as unsigned bytes.\<close>

definition char_less :: "char \<Rightarrow> char \<Rightarrow> bool" where
  "char_less c d = ((of_char c :: nat) < of_char d)"

definition str_less :: "string \<Rightarrow> string \<Rightarrow> bool" where
  "str_less = lex_less char_less"

interpretation char_order: total_keys char_less
  by unfold_locales (auto simp: char_less_def)

interpretation str_order: total_keys str_less
  unfolding str_less_def by (rule char_order.total_keys_lex)

end
