(* ===== verification/Paths.thy ===== *)
theory Paths
  imports Ordered_Maps
begin

text \<open>
  \<open>std::filesystem::path\<close> as the program uses it, and the path helpers of
  \<open>src/fs.h\<close>.  A path is its string; iterating over it yields the root directory, the
  file names and an empty last element for a trailing slash, as on a POSIX system.
\<close>

type_synonym path = string

section \<open>Iterating over a path\<close>

fun split_on :: "char \<Rightarrow> string \<Rightarrow> string list" where
  "split_on c [] = [[]]"
| "split_on c (x # xs) =
     (if x = c then [] # split_on c xs
      else case split_on c xs of [] \<Rightarrow> [[x]] | y # ys \<Rightarrow> (x # y) # ys)"

text \<open>The file names of a path: its non-empty runs between slashes.\<close>

definition path_names :: "path \<Rightarrow> string list" where
  "path_names p = filter (\<lambda>n. n \<noteq> []) (split_on SLASH p)"

definition is_absolute :: "path \<Rightarrow> bool" where
  "is_absolute p = (p \<noteq> [] \<and> hd p = SLASH)"

definition ends_with_slash :: "path \<Rightarrow> bool" where
  "ends_with_slash p = (p \<noteq> [] \<and> last p = SLASH)"

text \<open>The elements between \<open>begin()\<close> and \<open>end()\<close>.\<close>

definition path_iter :: "path \<Rightarrow> string list" where
  "path_iter p =
     (if is_absolute p then [''/''] else []) @ path_names p @
     (if ends_with_slash p \<and> path_names p \<noteq> [] then [[]] else [])"

section \<open>Helpers of fs.h\<close>

definition components :: "path \<Rightarrow> nat" where
  "components p = length (path_iter p)"

text \<open>\<open>std::ranges::mismatch(dir, sub).in1 == dir.end()\<close>: the whole first range was matched.\<close>

fun mismatch_at_end :: "'a list \<Rightarrow> 'a list \<Rightarrow> bool" where
  "mismatch_at_end [] ys = True"
| "mismatch_at_end (x # xs) [] = False"
| "mismatch_at_end (x # xs) (y # ys) = (if x = y then mismatch_at_end xs ys else False)"

definition path_contains :: "path \<Rightarrow> path \<Rightarrow> bool" where
  "path_contains dir sub = mismatch_at_end (path_iter dir) (path_iter sub)"

definition path_less :: "path \<Rightarrow> path \<Rightarrow> bool" where
  "path_less a b = lex_less str_less (path_iter a) (path_iter b)"

definition cat :: "path \<Rightarrow> path \<Rightarrow> path" where
  "cat l r = l @ r"

text \<open>\<open>operator/\<close>: an absolute right side replaces the left one.\<close>

definition path_append :: "path \<Rightarrow> path \<Rightarrow> path" where
  "path_append a b =
     (if is_absolute b then b
      else if a = [] \<or> ends_with_slash a then a @ b
      else a @ [SLASH] @ b)"

definition filename :: "path \<Rightarrow> path" where
  "filename p = rev (takeWhile (\<lambda>c. c \<noteq> SLASH) (rev p))"

definition parent_path :: "path \<Rightarrow> path" where
  "parent_path p =
     (let r = dropWhile (\<lambda>c. c \<noteq> SLASH) (rev p);
          t = dropWhile (\<lambda>c. c = SLASH) r
      in if t = [] then (if is_absolute p then ''/'' else []) else rev t)"

text \<open>\<open>extension()\<close>: from the last dot of the file name, none for dot files.\<close>

definition extension :: "path \<Rightarrow> string" where
  "extension p =
     (let f = filename p;
          tail = takeWhile (\<lambda>c. c \<noteq> DOT) (rev f)
      in if f = ''.'' \<or> f = ''..'' \<or> DOT \<notin> set f \<or> length tail + 1 = length f then []
         else DOT # rev tail)"

section \<open>Facts\<close>

lemma mismatch_prefix: "mismatch_at_end xs ys = prefix xs ys"
  by (induction xs ys rule: mismatch_at_end.induct) auto

lemma path_contains_prefix: "path_contains d s \<longleftrightarrow> prefix (path_iter d) (path_iter s)"
  by (simp add: path_contains_def mismatch_prefix)

lemma split_on_nonempty [simp]: "split_on c s \<noteq> []"
  by (induction s) (auto split: list.splits)

lemma split_on_append: "split_on c (s @ c # t) = split_on c s @ split_on c t"
  by (induction s) (auto split: list.splits)

lemma split_on_absent: "c \<notin> set s \<Longrightarrow> split_on c s = [s]"
  by (induction s) auto

lemma split_on_no_sep: "n \<in> set (split_on c s) \<Longrightarrow> c \<notin> set n"
  by (induction s arbitrary: n) (auto split: list.splits if_splits)

lemma path_names_Nil [simp]: "path_names [] = []"
  by (simp add: path_names_def)

lemma path_names_append: "path_names (a @ SLASH # b) = path_names a @ path_names b"
  by (simp add: path_names_def split_on_append)

lemma path_names_slash [simp]: "path_names [SLASH] = []"
  by (simp add: path_names_def)

lemma path_names_Cons_slash: "path_names (SLASH # b) = path_names b"
  using path_names_append [of "[]" b] by simp

lemma path_names_snoc_slash: "path_names (a @ [SLASH]) = path_names a"
  using path_names_append [of a "[]"] by simp

lemma path_names_single: "s \<noteq> [] \<Longrightarrow> SLASH \<notin> set s \<Longrightarrow> path_names s = [s]"
  by (simp add: path_names_def split_on_absent)

lemma path_names_elem: "n \<in> set (path_names p) \<Longrightarrow> n \<noteq> [] \<and> SLASH \<notin> set n"
  by (auto simp: path_names_def dest: split_on_no_sep)

lemma ends_with_slash_append [simp]:
  "ends_with_slash (a @ b) = (if b = [] then ends_with_slash a else ends_with_slash b)"
  by (auto simp: ends_with_slash_def)

lemma ends_with_slash_Cons [simp]:
  "ends_with_slash (c # b) = (if b = [] then c = SLASH else ends_with_slash b)"
  by (simp add: ends_with_slash_def)

lemma ends_with_slash_Nil [simp]: "\<not> ends_with_slash []"
  by (simp add: ends_with_slash_def)

lemma is_absolute_append [simp]: "a \<noteq> [] \<Longrightarrow> is_absolute (a @ b) = is_absolute a"
  by (simp add: is_absolute_def)

lemma is_absolute_Nil [simp]: "\<not> is_absolute []"
  by (simp add: is_absolute_def)

text \<open>Joining a directory and a relative path joins their names.\<close>

lemma path_names_path_append:
  assumes "\<not> is_absolute b"
  shows "path_names (path_append a b) = path_names a @ path_names b"
proof (cases "ends_with_slash a")
  case True
  define d where "d = butlast a"
  from True have a: "a = d @ [SLASH]"
    unfolding d_def ends_with_slash_def by (metis append_butlast_last_id)
  from assms True have "path_append a b = d @ SLASH # b" by (simp add: path_append_def a)
  then show ?thesis by (simp add: a path_names_append path_names_snoc_slash)
next
  case False
  with assms show ?thesis
    by (cases "a = []") (simp_all add: path_append_def path_names_append)
qed

lemma path_iter_Nil [simp]: "path_iter [] = []"
  by (simp add: path_iter_def ends_with_slash_def)

lemma path_names_eq_Nil: "path_names p = [] \<longleftrightarrow> set p \<subseteq> {SLASH}"
proof (induction p)
  case (Cons c p)
  show ?case
  proof (cases "c = SLASH")
    case True
    with Cons show ?thesis by (simp add: path_names_Cons_slash)
  next
    case False
    then show ?thesis by (auto simp: path_names_def split: list.splits)
  qed
qed simp

lemma path_names_relative: "\<not> is_absolute p \<Longrightarrow> p \<noteq> [] \<Longrightarrow> path_names p \<noteq> []"
  by (cases p) (auto simp: path_names_eq_Nil is_absolute_def)

lemma path_iter_dir:
  "\<not> ends_with_slash p \<Longrightarrow> path_iter p = (if is_absolute p then [''/''] else []) @ path_names p"
  by (simp add: path_iter_def)

lemma path_iter_append:
  assumes "a \<noteq> []" and "\<not> ends_with_slash a" and "\<not> is_absolute b" and "b \<noteq> []"
  shows "path_iter (path_append a b) = path_iter a @ path_iter b"
  using assms path_names_relative [of b]
  by (simp add: path_iter_def path_names_path_append) (simp add: path_append_def)

lemma path_iter_name:
  "n \<noteq> [] \<Longrightarrow> SLASH \<notin> set n \<Longrightarrow> path_iter n = [n]"
  by (cases n) (auto simp: path_iter_def path_names_single is_absolute_def ends_with_slash_def
      dest: last_in_set)

lemma path_iter_Nil_iff [simp]: "path_iter p = [] \<longleftrightarrow> p = []"
  using path_names_relative [of p] by (auto simp: path_iter_def)

interpretation path_order: weak_order path_less
  unfolding path_less_def
  by (rule weak_order.weak_order_inv_image [OF str_order.weak_order_lex])

lemma path_eqv_iff: "path_order.eqv a b \<longleftrightarrow> path_iter a = path_iter b"
  using str_order.lex_total [of "path_iter a" "path_iter b"]
  by (auto simp: path_order.eqv_def path_less_def str_order.lex_less_irrefl)

text \<open>Membership in a path set compares components.\<close>

lemma path_mem_iff:
  "om_sorted path_less m \<Longrightarrow>
   os_mem path_less p m \<longleftrightarrow> (\<exists>q \<in> set (os_elems m). path_iter q = path_iter p)"
  using path_order.lookup_iff [of m p "()"]
  by (force simp: path_eqv_iff)

section \<open>Jail names\<close>

text \<open>\<open>Config::name_ok\<close>.\<close>

definition name_ok :: "path \<Rightarrow> bool" where
  "name_ok p = (\<not> is_absolute p \<and> components p = 1 \<and> hd p \<noteq> DOT)"

lemma name_ok_no_slash:
  assumes "name_ok p"
  shows "p \<noteq> [] \<and> SLASH \<notin> set p"
proof -
  have ne: "p \<noteq> []"
  proof
    assume "p = []"
    with assms show False by (simp add: name_ok_def components_def)
  qed
  moreover have "SLASH \<notin> set p"
  proof
    assume "SLASH \<in> set p"
    then obtain a b where ab: "p = a @ SLASH # b" "SLASH \<notin> set a"
      by (meson split_list_first)
    with assms ne have a: "a \<noteq> []"
      by (auto simp: name_ok_def is_absolute_def)
    with ab have pa: "path_names p = a # path_names b"
      by (simp add: path_names_append path_names_single)
    with assms have b: "path_names b = []" and e: "\<not> ends_with_slash p"
      by (auto simp: name_ok_def components_def path_iter_def split: if_splits)
    from b have "last (SLASH # b) = SLASH"
      using last_in_set [of b] by (cases "b = []") (auto simp: path_names_eq_Nil simp del: last_in_set)
    with e ab show False by (simp add: ends_with_slash_def)
  qed
  ultimately show ?thesis ..
qed

end
