(* ===== verification/Expansion.thy ===== *)
theory Expansion
  imports Prelude
begin

text \<open>
  \<open>var_expand\<close> of \<open>src/jaim.h\<close>: substitution of \<open>${VAR}\<close> in option arguments, with
  backslash quoting.
\<close>

function var_expand :: "(string \<Rightarrow> string) \<Rightarrow> string \<Rightarrow> string" where
  "var_expand exp [] = []"
| "var_expand exp (c # cs) =
     (if c = BS then
        (case cs of [] \<Rightarrow> [BS] | d # ds \<Rightarrow> d # var_expand exp ds)
      else if c = CHR ''$'' \<and> cs \<noteq> [] \<and> hd cs = CHR ''{'' \<and> CHR ''}'' \<in> set (tl cs) then
        exp (before_char CHR ''}'' (tl cs)) @ var_expand exp (after_char CHR ''}'' (tl cs))
      else c # var_expand exp cs)"
  by pat_completeness auto
termination
proof (relation "measure (\<lambda>(e, s). length s)", goal_cases)
  case (3 exp c cs)
  then have "length (after_char CHR ''}'' (tl cs)) < length (tl cs)"
    by (intro length_after_char) simp
  then show ?case by simp
qed auto

text \<open>Text without a backslash or a dollar sign is left alone.\<close>

lemma var_expand_plain:
  "BS \<notin> set s \<Longrightarrow> CHR ''$'' \<notin> set s \<Longrightarrow> var_expand exp s = s"
  by (induction s) auto

text \<open>Quoting every special character gives back the text, whatever the environment.\<close>

fun expand_quote :: "string \<Rightarrow> string" where
  "expand_quote [] = []"
| "expand_quote (c # cs) =
     (if c = BS \<or> c = CHR ''$'' then BS # c # expand_quote cs else c # expand_quote cs)"

lemma var_expand_quote: "var_expand exp (expand_quote s) = s"
  by (induction s) auto

text \<open>A reference is replaced by its value; the value itself is not expanded again.\<close>

lemma var_expand_ref:
  "CHR ''}'' \<notin> set v \<Longrightarrow>
   var_expand exp (''${'' @ v @ ''}'' @ s) = exp v @ var_expand exp s"
  by simp

lemma var_expand_append_quoted: "var_expand exp (expand_quote s @ t) = s @ var_expand exp t"
  by (induction s) auto

end
