(* ===== verification/Options.thy ===== *)
theory Options
  imports Ordered_Maps
begin

text \<open>
  The option parser of \<open>src/options.h\<close> and \<open>src/options.cc\<close>: registration, scanning of a
  command line, execution of the scanned items, the configuration-file lexer and the
  completion of a partial command line.

  An \<open>Action\<close> is a callback with an arity.  The table \<open>actions_\<close> keeps the arity of every
  registered name; the callback is a parameter \<open>run\<close>, a step on the client's state that
  is given the option's name and its argument, if any.
\<close>

section \<open>The table of options\<close>

datatype has_arg = kNoArg | kArg | kOptArg

type_synonym actions = "(string \<times> has_arg) list"

record options =
  opt_actions :: actions
  help_text :: string

abbreviation action_of :: "actions \<Rightarrow> string \<Rightarrow> has_arg option" where
  "action_of acts name \<equiv> om_lookup str_less name acts"

text \<open>The column at which help texts start.\<close>

definition kIndent :: nat where "kIndent = 16"

fun indent_lines :: "string \<Rightarrow> string" where
  "indent_lines [] = []"
| "indent_lines (c # cs) =
     (if c = NL then c # replicate kIndent (CHR '' '') @ indent_lines cs else c # indent_lines cs)"

definition opt_synopsis :: "has_arg \<Rightarrow> string \<Rightarrow> string \<Rightarrow> string" where
  "opt_synopsis ha valname opt =
     opt @
     (if ha = kNoArg then []
      else (if ha = kOptArg then ''['' else if length opt = 2 then '' '' else []) @
           (if length opt > 2 then ''='' else []) @ valname @
           (if ha = kOptArg then '']'' else []))"

fun join_comma :: "string list \<Rightarrow> string" where
  "join_comma [] = []"
| "join_comma [x] = x"
| "join_comma (x # y # ys) = x @ '', '' @ join_comma (y # ys)"

definition help_entry :: "string list \<Rightarrow> has_arg \<Rightarrow> string \<Rightarrow> string \<Rightarrow> string" where
  "help_entry opts ha helpstr valname =
     (if helpstr = [] then []
      else
        let optstr = join_comma (map (opt_synopsis ha valname) opts);
            text = indent_lines helpstr
        in if length optstr \<le> kIndent - 3 then
             ''  '' @ optstr @ replicate (kIndent - 2 - length optstr) (CHR '' '') @ text @ [NL]
           else ''  '' @ optstr @ [NL] @ replicate kIndent (CHR '' '') @ text @ [NL])"

text \<open>\<open>Options::operator()\<close>: every name gets the same action; a later registration wins.\<close>

definition register_opts :: "string list \<Rightarrow> has_arg \<Rightarrow> string \<Rightarrow> string \<Rightarrow> options \<Rightarrow> options" where
  "register_opts opts ha helpstr valname tbl =
     tbl\<lparr>opt_actions := foldl (\<lambda>acts name. om_assign str_less name ha acts) (opt_actions tbl) opts,
       help_text := help_text tbl @ help_entry opts ha helpstr
                  (if valname = [] then ''VAL'' else valname)\<rparr>"

section \<open>Scanning\<close>

datatype scan_kind =
    kOption | kOptionArg | kNeedNextArg | kPositionalHere | kPositionalNext
  | kUnknownOption | kUnexpectedArg

record scan_item =
  si_kind :: scan_kind
  si_opt :: string
  si_arg :: string

definition item :: "scan_kind \<Rightarrow> string \<Rightarrow> string \<Rightarrow> scan_item" where
  "item k name a = \<lparr>si_kind = k, si_opt = name, si_arg = a\<rparr>"

lemma item_simps [simp]:
  "si_kind (item k name a) = k" "si_opt (item k name a) = name" "si_arg (item k name a) = a"
  by (simp_all add: item_def)

text \<open>A cluster of short options: \<open>-abc\<close>, \<open>-dVALUE\<close>.\<close>

fun scan_short :: "actions \<Rightarrow> string \<Rightarrow> scan_item list" where
  "scan_short acts [] = []"
| "scan_short acts (c # cs) =
     (let opt = [DASH, c] in
      case action_of acts opt of
        None \<Rightarrow> [item kUnknownOption opt []]
      | Some ha \<Rightarrow>
          if ha = kNoArg then item kOption opt [] # scan_short acts cs
          else if cs \<noteq> [] then [item kOptionArg opt cs]
          else if ha = kOptArg then [item kOption opt []]
          else [item kNeedNextArg opt []])"

definition scan_long :: "actions \<Rightarrow> string \<Rightarrow> scan_item list" where
  "scan_long acts optarg =
     (let opt = before_char EQUALS optarg in
      case action_of acts opt of
        None \<Rightarrow> [item kUnknownOption opt []]
      | Some ha \<Rightarrow>
          if EQUALS \<notin> set optarg then
            (if ha = kArg then [item kNeedNextArg opt []] else [item kOption opt []])
          else if ha = kNoArg then [item kUnexpectedArg opt []]
          else [item kOptionArg opt (after_char EQUALS optarg)])"

definition scan_arg :: "actions \<Rightarrow> string \<Rightarrow> scan_item list" where
  "scan_arg acts optarg =
     (if optarg = ''--'' then [item kPositionalNext [] []]
      else if length optarg < 2 \<or> hd optarg \<noteq> DASH then [item kPositionalHere [] []]
      else if optarg ! 1 = DASH then scan_long acts optarg
      else scan_short acts (tl optarg))"

text \<open>
  \<open>scan_args\<close>: the outer loop over the arguments and the inner loop over the items of one
  argument.  \<open>n\<close> is \<open>args.size()\<close> and \<open>i\<close> the index of the current argument; \<open>rest\<close> are the
  arguments after it.
\<close>

function (sequential) scan_loop :: "actions \<Rightarrow> nat \<Rightarrow> nat \<Rightarrow> string list \<Rightarrow> scan_item list \<times> nat"
  and scan_items :: "actions \<Rightarrow> nat \<Rightarrow> nat \<Rightarrow> string list \<Rightarrow> scan_item list \<Rightarrow> scan_item list \<times> nat"
where
  "scan_loop acts n i [] = ([], n)"
| "scan_loop acts n i (a # rest) = scan_items acts n i rest (scan_arg acts a)"
| "scan_items acts n i rest [] = scan_loop acts n (i + 1) rest"
| "scan_items acts n i rest (it # its) =
     (case si_kind it of
        kPositionalHere \<Rightarrow> ([], i)
      | kPositionalNext \<Rightarrow> ([], i + 1)
      | kNeedNextArg \<Rightarrow>
          (case rest of
             [] \<Rightarrow> ([it], n)
           | b # rest' \<Rightarrow>
               (let (s, p) = scan_items acts n (i + 1) rest' its
                in (it\<lparr>si_kind := kOptionArg, si_arg := b\<rparr> # s, p)))
      | kOption \<Rightarrow> (let (s, p) = scan_items acts n i rest its in (it # s, p))
      | kOptionArg \<Rightarrow> (let (s, p) = scan_items acts n i rest its in (it # s, p))
      | kUnknownOption \<Rightarrow> ([it], n)
      | kUnexpectedArg \<Rightarrow> ([it], n))"
  by pat_completeness auto
termination
  by (relation "measures
        [\<lambda>x. case x of Inl (acts, n, i, args) \<Rightarrow> length args
                    | Inr (acts, n, i, rest, its) \<Rightarrow> length rest,
         \<lambda>x. case x of Inl _ \<Rightarrow> 0 | Inr (acts, n, i, rest, its) \<Rightarrow> Suc (length its)]")
     auto

definition scan_args :: "actions \<Rightarrow> string list \<Rightarrow> scan_item list \<times> nat" where
  "scan_args acts args = scan_loop acts (length args) 0 args"

section \<open>Executing a command line\<close>

text \<open>The body of \<open>parse_argspan\<close>'s loop for one scanned item.\<close>

definition exec_item :: "(string \<Rightarrow> string option \<Rightarrow> ('s, unit) step) \<Rightarrow> scan_item \<Rightarrow> ('s, unit) step" where
  "exec_item run it =
     (case si_kind it of
        kOption \<Rightarrow> run (si_opt it) None
      | kOptionArg \<Rightarrow> run (si_opt it) (Some (si_arg it))
      | kNeedNextArg \<Rightarrow> throw_s (OptionError (''option '' @ si_opt it @ '' requires an argument''))
      | kUnknownOption \<Rightarrow> throw_s (OptionError (''unknown option '' @ si_opt it))
      | kUnexpectedArg \<Rightarrow> throw_s (OptionError (''option '' @ si_opt it @ '' takes no argument''))
      | kPositionalHere \<Rightarrow> throw_s (LogicError ''unreachable'')
      | kPositionalNext \<Rightarrow> throw_s (LogicError ''unreachable''))"

fun exec_items :: "(string \<Rightarrow> string option \<Rightarrow> ('s, unit) step) \<Rightarrow> scan_item list \<Rightarrow> ('s, unit) step" where
  "exec_items run [] = return_s ()"
| "exec_items run (it # its) = bind_s (exec_item run it) (\<lambda>_. exec_items run its)"

text \<open>\<open>parse_argspan\<close> returns the positional arguments.\<close>

definition parse_argspan ::
    "(string \<Rightarrow> string option \<Rightarrow> ('s, unit) step) \<Rightarrow> actions \<Rightarrow> string list \<Rightarrow> ('s, string list) step" where
  "parse_argspan run acts args =
     (let (scan, positional) = scan_args acts args
      in bind_s (exec_items run scan) (\<lambda>_. return_s (drop positional args)))"

definition parse_argv ::
    "(string \<Rightarrow> string option \<Rightarrow> ('s, unit) step) \<Rightarrow> actions \<Rightarrow> string list \<Rightarrow> ('s, string list) step" where
  "parse_argv run acts argv = parse_argspan run acts (tl argv)"

section \<open>Configuration files\<close>

definition is_ws :: "char \<Rightarrow> bool" where
  "is_ws c = (c = CHR '' '' \<or> c = TAB \<or> c = CR)"

definition is_wsnl :: "char \<Rightarrow> bool" where
  "is_wsnl c = (is_ws c \<or> c = NL)"

definition is_wsnleq :: "char \<Rightarrow> bool" where
  "is_wsnleq c = (is_wsnl c \<or> c = EQUALS)"

text \<open>
  The loop that reads a value up to the end of the line: backslash escapes, continuation
  lines, carriage returns dropped.  The arguments are \<open>escape\<close>, \<open>last_escaped\<close>, the text
  collected so far and the text not read yet.
\<close>

lemma length_dropWhile_less_Suc [simp]: "length (dropWhile P xs) < Suc (length xs)"
  using length_dropWhile_le [of P xs] by simp

function lex_value :: "bool \<Rightarrow> bool \<Rightarrow> string \<Rightarrow> string \<Rightarrow> string \<times> bool \<times> string" where
  "lex_value esc le acc [] = (acc, le, [])"
| "lex_value esc le acc (c # cs) =
     (if \<not> esc \<and> c = NL then (acc, le, c # cs)
      else if c = CR then lex_value esc le acc cs
      else if \<not> esc then
        (if c = BS then lex_value True False acc cs
         else lex_value False False (acc @ [c]) cs)
      else if c = CHR ''t'' then lex_value False True (acc @ [TAB]) cs
      else if c = CHR ''r'' then lex_value False True (acc @ [CR]) cs
      else if c = CHR ''n'' then lex_value False True (acc @ [NL]) cs
      else if c = NL then lex_value False True acc (dropWhile is_ws cs)
      else lex_value False True (acc @ [c]) cs)"
  by pat_completeness auto
termination
  by (relation "measure (\<lambda>(e, l, a, s). length s)") auto

definition trim_end :: "string \<Rightarrow> string" where
  "trim_end s = rev (dropWhile is_wsnl (rev s))"

text \<open>
  One turn of the loop of \<open>parse_file\<close> up to its call of \<open>parse_argspan\<close>: the option string
  to run, if any, and the text after it.
\<close>

definition lex_directive :: "string \<Rightarrow> string option \<times> string" where
  "lex_directive text =
     (let s = dropWhile is_wsnl text in
      if s = [] then (None, [])
      else if hd s = CHR ''#'' then (None, dropWhile (\<lambda>c. c \<noteq> NL) s)
      else
        let name = takeWhile (\<lambda>c. \<not> is_wsnleq c) s;
            optarg = ''--'' @ name;
            r = dropWhile is_ws (dropWhile (\<lambda>c. \<not> is_wsnleq c) s)
        in if r = [] \<or> hd r = NL then (Some optarg, r)
           else
             let (v, last_escaped, r') =
               lex_value False False (if hd r \<noteq> EQUALS then optarg @ [EQUALS] else optarg) r
             in (Some (if last_escaped then v else trim_end v), r'))"

text \<open>The handler of the loop's \<open>catch\<close>: option errors get the file and the line.\<close>

definition locate_error :: "string \<Rightarrow> string \<Rightarrow> string \<Rightarrow> error \<Rightarrow> error" where
  "locate_error errpath text rest e =
     (case e of
        OptionError m \<Rightarrow>
          if errpath = [] then e
          else OptionError (errpath @ '':'' @
                 show_nat (count_list (take (length text - length rest) text) NL + 1) @ '': '' @ m)
      | _ \<Rightarrow> e)"

definition catch_s :: "(error \<Rightarrow> error) \<Rightarrow> ('s, 'a) step \<Rightarrow> ('s, 'a) step" where
  "catch_s h m s = (case m s of (Inl e, t) \<Rightarrow> (Inl (h e), t) | (Inr a, t) \<Rightarrow> (Inr a, t))"


lemma lex_value_rest: "lex_value esc le acc s = (v, l, r) \<Longrightarrow> length r \<le> length s"
proof (induction esc le acc s rule: lex_value.induct)
  case (2 esc le acc c cs)
  then show ?case
    using length_dropWhile_le [of is_ws cs] by (auto split: if_splits)
qed simp

lemma lex_value_equals:
  "lex_value False False acc (EQUALS # s) = lex_value False False (acc @ [EQUALS]) s"
  by simp

text \<open>Every turn of the loop consumes text, so the loop of \<open>parse_file\<close> ends.\<close>

lemma lex_directive_name_shorter:
  assumes "\<not> is_wsnl c"
    and "r = dropWhile is_ws (dropWhile (\<lambda>c. \<not> is_wsnleq c) (c # s))"
  shows "length r \<le> length s \<or> (c = EQUALS \<and> r = c # s)"
proof (cases "c = EQUALS")
  case True
  with assms show ?thesis by (simp add: is_wsnleq_def is_wsnl_def)
next
  case False
  with assms have "r = dropWhile is_ws (dropWhile (\<lambda>c. \<not> is_wsnleq c) s)"
    by (simp add: is_wsnleq_def)
  then show ?thesis by (metis length_dropWhile_le le_trans)
qed

lemma lex_directive_shorter:
  assumes d: "lex_directive text = (d, r)" and ne: "text \<noteq> []"
  shows "length r < length text"
proof (cases "dropWhile is_wsnl text")
  case Nil
  with d ne show ?thesis by (simp add: lex_directive_def)
next
  case (Cons c s)
  have le: "Suc (length s) \<le> length text"
    using length_dropWhile_le [of is_wsnl "text"] by (simp add: Cons)
  have c: "\<not> is_wsnl c"
    using Cons hd_dropWhile [of is_wsnl "text"] by simp
  define t where "t = dropWhile is_ws (dropWhile (\<lambda>c. \<not> is_wsnleq c) (c # s))"
  have t: "length t \<le> length s \<or> (c = EQUALS \<and> t = c # s)"
    using c t_def by (rule lex_directive_name_shorter)
  show ?thesis
  proof (cases "c = CHR ''#''")
    case True
    with d Cons le show ?thesis
      using length_dropWhile_le [of "\<lambda>c. c \<noteq> NL" s] by (auto simp: lex_directive_def)
  next
    case False
    define acc where "acc = ''--'' @ takeWhile (\<lambda>c. \<not> is_wsnleq c) (c # s)"
    have eq: "lex_directive text =
        (if t = [] \<or> hd t = NL then (Some acc, t)
         else let (v, le, r') =
                lex_value False False (if hd t \<noteq> EQUALS then acc @ [EQUALS] else acc) t
              in (Some (if le then v else trim_end v), r'))"
      unfolding lex_directive_def Cons t_def acc_def using False by (simp add: Let_def)
    show ?thesis
    proof (cases "t = [] \<or> hd t = NL")
      case True
      with d eq have "r = t" by simp
      with t le True show ?thesis by auto
    next
      case no_nl: False
      obtain v l r' where lv:
        "lex_value False False (if hd t \<noteq> EQUALS then acc @ [EQUALS] else acc) t = (v, l, r')"
        by (meson prod_cases3)
      with d eq no_nl have r: "r = r'" by simp
      have "length r' \<le> length s"
      proof (cases "length t \<le> length s")
        case True
        with lex_value_rest [OF lv] show ?thesis by simp
      next
        case False
        with t have "t = EQUALS # s" by auto
        with lv show ?thesis using lex_value_rest by (auto simp: lex_value_equals)
      qed
      with r le show ?thesis by simp
    qed
  qed
qed

text \<open>The loop of \<open>parse_file\<close>.\<close>

function parse_loop ::
    "(string \<Rightarrow> string option \<Rightarrow> ('s, unit) step) \<Rightarrow> actions \<Rightarrow> string \<Rightarrow> string \<Rightarrow> string \<Rightarrow> ('s, unit) step"
where
  "parse_loop run acts errpath text rest =
     (if rest = [] then return_s ()
      else
        case lex_directive rest of
          (None, r) \<Rightarrow> parse_loop run acts errpath text r
        | (Some optarg, r) \<Rightarrow>
            bind_s (catch_s (locate_error errpath text r) (parse_argspan run acts [optarg]))
              (\<lambda>_. parse_loop run acts errpath text r))"
  by pat_completeness auto
termination
  by (relation "measure (\<lambda>(run, acts, errpath, text, rest). length rest)")
     (auto dest: lex_directive_shorter [OF sym])

declare parse_loop.simps [simp del]

definition parse_file ::
    "(string \<Rightarrow> string option \<Rightarrow> ('s, unit) step) \<Rightarrow> actions \<Rightarrow> string \<Rightarrow> string \<Rightarrow> ('s, unit) step" where
  "parse_file run acts text errpath = parse_loop run acts errpath text text"

section \<open>What a client's actions guarantee\<close>

text \<open>
  The contract between the parser and its client: every action keeps an invariant of the
  client's state.  Then parsing a command line or a file keeps it too, error or not.
\<close>

lemma keeps_catch [intro]: "keeps I m \<Longrightarrow> keeps I (catch_s h m)"
  by (auto simp: keeps_def catch_s_def split: prod.splits sum.splits)

locale option_actions =
  fixes run :: "string \<Rightarrow> string option \<Rightarrow> ('s, unit) step"
    and inv :: "'s \<Rightarrow> bool"
  assumes action_keeps: "keeps inv (run name a)"
begin

lemma exec_item_keeps: "keeps inv (exec_item run it)"
  by (simp add: exec_item_def action_keeps split: scan_kind.split)

lemma exec_items_keeps: "keeps inv (exec_items run its)"
  by (induction its) (auto intro: exec_item_keeps)

lemma argspan_keeps: "keeps inv (parse_argspan run acts args)"
  by (auto simp: parse_argspan_def intro: exec_items_keeps split: prod.split)

lemma argv_keeps: "keeps inv (parse_argv run acts argv)"
  by (simp add: parse_argv_def argspan_keeps)

lemma loop_keeps: "keeps inv (parse_loop run acts errpath t rest)"
proof (induction "length rest" arbitrary: rest rule: less_induct)
  case less
  obtain d r where d: "lex_directive rest = (d, r)" by fastforce
  show ?case
  proof (cases "rest = []")
    case True
    then show ?thesis by (simp add: parse_loop.simps)
  next
    case False
    have ih: "keeps inv (parse_loop run acts errpath t r)"
      using lex_directive_shorter [OF d False] by (rule less)
    show ?thesis
      unfolding parse_loop.simps [of run acts errpath t rest]
      using False by (auto simp: d ih intro!: keeps_bind keeps_catch argspan_keeps split: option.split)
  qed
qed

lemma file_keeps: "keeps inv (parse_file run acts t errpath)"
  by (simp add: parse_file_def loop_keeps)

text \<open>Two sets of actions that agree on the states of the invariant parse alike.\<close>

lemma bind_same:
  assumes "keeps inv m" and "inv s" and "m s = m' s" and "\<And>a t. inv t \<Longrightarrow> k a t = k' a t"
  shows "bind_s m k s = bind_s m' k' s"
proof -
  obtain r t where m: "m s = (r, t)" by fastforce
  have "inv t" using keepsD [OF assms(1,2)] by (simp add: m)
  moreover have "m' s = (r, t)" using assms(3) m by simp
  ultimately show ?thesis using assms(4) m by (cases r) (simp_all add: bind_s_def)
qed

lemma exec_item_same:
  "(\<And>name a s. inv s \<Longrightarrow> run name a s = run' name a s) \<Longrightarrow> inv s \<Longrightarrow>
   exec_item run it s = exec_item run' it s"
  by (simp add: exec_item_def throw_s_def split: scan_kind.split)

lemma exec_items_same:
  assumes "\<And>name a s. inv s \<Longrightarrow> run name a s = run' name a s" and "inv s"
  shows "exec_items run its s = exec_items run' its s"
  using assms(2)
proof (induction its arbitrary: s)
  case (Cons it its)
  then show ?case
    using exec_item_same [of run', OF assms(1)] by (auto intro!: bind_same exec_item_keeps)
qed simp

lemma argspan_same:
  assumes "\<And>name a s. inv s \<Longrightarrow> run name a s = run' name a s" and "inv s"
  shows "parse_argspan run acts args s = parse_argspan run' acts args s"
  using assms(2) exec_items_same [of run', OF assms(1)]
  by (auto simp: parse_argspan_def intro!: bind_same exec_items_keeps split: prod.split)

lemma loop_same:
  assumes "\<And>name a s. inv s \<Longrightarrow> run name a s = run' name a s" and "inv s"
  shows "parse_loop run acts errpath t rest s = parse_loop run' acts errpath t rest s"
  using assms(2)
proof (induction "length rest" arbitrary: rest s rule: less_induct)
  case less
  obtain d r where d: "lex_directive rest = (d, r)" by fastforce
  show ?case
  proof (cases "rest = []")
    case True
    then show ?thesis by (simp add: parse_loop.simps)
  next
    case False
    have ih: "inv s \<Longrightarrow> parse_loop run acts errpath t r s = parse_loop run' acts errpath t r s" for s
      using lex_directive_shorter [OF d False] by (rule less.hyps)
    have arg: "catch_s h (parse_argspan run acts args) s = catch_s h (parse_argspan run' acts args) s"
      for h args
      using argspan_same [of run', OF assms(1) less.prems] by (simp add: catch_s_def)
    show ?thesis
      unfolding parse_loop.simps [of _ acts errpath t rest]
      using False less.prems
      by (auto simp: d ih arg intro!: bind_same keeps_catch argspan_keeps split: option.split)
  qed
qed

lemma file_same:
  "(\<And>name a s. inv s \<Longrightarrow> run name a s = run' name a s) \<Longrightarrow> inv s \<Longrightarrow>
   parse_file run acts t errpath s = parse_file run' acts t errpath s"
  by (simp add: parse_file_def loop_same [of run'])

end

section \<open>Completion\<close>

text \<open>
  \<open>Options::Completions\<close>: \<open>PositionalAt k\<close> stands for \<open>kind = k\<close> \<open>\<ge> 0\<close>, the other
  constructors for the three dispositions with their \<open>vals\<close>.
\<close>

datatype completions =
    PositionalAt nat
  | NoCompletions
  | RawCompletions "string list"
  | ArgCompletions string string string

definition completion_text :: "string \<times> has_arg \<Rightarrow> string" where
  "completion_text a =
     fst a @ (if snd a \<noteq> kOptArg then '' '' else if length (fst a) > 2 then ''='' else [])"

text \<open>The options from \<open>lower_bound(prefix)\<close> on, as long as they start with the prefix.\<close>

definition complete_opts :: "actions \<Rightarrow> string \<Rightarrow> completions" where
  "complete_opts acts pre =
     RawCompletions (map completion_text
       (takeWhile (\<lambda>(name, _). prefix pre name) (dropWhile (\<lambda>(name, _). str_less name pre) acts)))"

text \<open>The last loop: \<open>done\<close> is the part of the argument already read.\<close>

fun complete_short :: "actions \<Rightarrow> string \<Rightarrow> string \<Rightarrow> string \<Rightarrow> completions" where
  "complete_short acts optarg done [] = RawCompletions [optarg @ '' '']"
| "complete_short acts optarg done (c # cs) =
     (let opt = [DASH, c] in
      case action_of acts opt of
        None \<Rightarrow> NoCompletions
      | Some ha \<Rightarrow>
          if ha = kOptArg \<or> (ha = kArg \<and> cs \<noteq> []) then ArgCompletions opt cs (done @ [c])
          else complete_short acts optarg (done @ [c]) cs)"

definition complete_last :: "actions \<Rightarrow> nat \<Rightarrow> string \<Rightarrow> completions" where
  "complete_last acts argc optarg =
     (if optarg = ''-'' \<or> optarg = ''--'' then complete_opts acts optarg
      else if length optarg < 2 \<or> hd optarg \<noteq> DASH then PositionalAt (argc - 1)
      else if optarg ! 1 = DASH then
        (if EQUALS \<in> set optarg then
           (let opt = before_char EQUALS optarg in
            case action_of acts opt of
              None \<Rightarrow> NoCompletions
            | Some ha \<Rightarrow>
                if ha = kNoArg then NoCompletions
                else ArgCompletions opt (after_char EQUALS optarg) (opt @ [EQUALS]))
         else complete_opts acts optarg)
      else complete_short acts optarg [DASH] (tl optarg))"

definition complete_args :: "actions \<Rightarrow> nat \<Rightarrow> string list \<Rightarrow> completions" where
  "complete_args acts optind argv =
     (if optind \<ge> length argv then PositionalAt (length argv)
      else
        let pre = butlast (drop optind argv);
            (scan, positional) = scan_args acts pre
        in if positional \<noteq> length pre then PositionalAt (optind + positional)
           else if scan \<noteq> [] \<and> si_kind (last scan) = kNeedNextArg then
             ArgCompletions (si_opt (last scan)) (last argv) []
           else if scan \<noteq> [] \<and> si_kind (last scan) \<notin> {kOption, kOptionArg} then NoCompletions
           else complete_last acts (length argv) (last argv))"

section \<open>Scanned items are executable\<close>

text \<open>
  What a scanned item promises about the table: the callback is called with an argument
  only if it takes one, and without one only if it can do without.
\<close>

definition item_ok :: "actions \<Rightarrow> scan_item \<Rightarrow> bool" where
  "item_ok acts it =
     (case si_kind it of
        kOption \<Rightarrow> action_of acts (si_opt it) \<in> {Some kNoArg, Some kOptArg}
      | kOptionArg \<Rightarrow> action_of acts (si_opt it) \<in> {Some kArg, Some kOptArg}
      | kNeedNextArg \<Rightarrow> action_of acts (si_opt it) = Some kArg
      | kUnknownOption \<Rightarrow> action_of acts (si_opt it) = None
      | kUnexpectedArg \<Rightarrow> action_of acts (si_opt it) = Some kNoArg
      | _ \<Rightarrow> True)"

lemma has_arg_cases: "ha \<noteq> kNoArg \<Longrightarrow> ha \<noteq> kOptArg \<Longrightarrow> ha = kArg"
  by (cases ha) auto

lemma scan_short_ok: "it \<in> set (scan_short acts s) \<Longrightarrow> item_ok acts it"
  by (induction acts s rule: scan_short.induct)
     (auto simp: item_ok_def Let_def split: option.splits if_splits has_arg.splits
           intro: has_arg_cases dest: has_arg_cases)

lemma scan_long_ok: "it \<in> set (scan_long acts s) \<Longrightarrow> item_ok acts it"
  using has_arg.exhaust
  by (auto simp: scan_long_def item_ok_def Let_def split: option.splits if_splits; metis has_arg.exhaust)

lemma scan_arg_ok: "it \<in> set (scan_arg acts s) \<Longrightarrow> item_ok acts it"
  by (auto simp: scan_arg_def item_ok_def [of _ "item _ _ _"]
           dest: scan_short_ok scan_long_ok split: if_splits)

end
