(* ===== verification/Config.thy ===== *)
theory Config
  imports Globbing Paths Expansion Options "HOL-Library.Word"
begin

unbundle bit_operations_syntax

text \<open>
  The configuration of a run (\<open>struct Config\<close> of \<open>src/jaim.h\<close>) and everything that fills it
  in: the option handlers of \<open>Config::opt_parser\<close>, configuration files and their inclusion
  (\<open>parse_config_fd\<close>, \<open>parse_config_file\<close>), the account and directory lookups
  (\<open>init_credentials\<close>, \<open>home\<close>, \<open>home_jaim\<close>, \<open>check_user\<close>, \<open>cwd\<close>).

  What the operating system answers is the record \<open>world\<close>, an argument of the operations
  that ask; nothing is assumed of it.
\<close>

section \<open>State\<close>

datatype mode = kCasual | kBare | kStrict

text \<open>The formatter of \<open>Config::Mode\<close>.\<close>

definition show_mode :: "mode \<Rightarrow> string" where
  "show_mode m = (case m of kStrict \<Rightarrow> ''strict'' | kBare \<Rightarrow> ''bare'' | kCasual \<Rightarrow> ''casual'')"

type_synonym cint = "32 word"

definition kGrantRO :: cint where "kGrantRO = push_bit 0 1"
definition kGrantMkdir :: cint where "kGrantMkdir = push_bit 1 1"

type_synonym grants = "(path \<times> cint) list"

text \<open>
  The fields of \<open>Config\<close> that parsing reads or writes, the open directory descriptors as
  flags, the process environment (\<open>environ\<close>) and the warnings printed so far.
\<close>

record config =
  jail_mode :: mode
  grant_directories :: grants
  grant_files :: grants
  grant_cwd :: bool
  env_filter :: "string oset"
  setenv_map :: "(string \<times> string) list"
  cwd_path :: path
  script_inputs :: "path list"
  shellcmd :: string
  mask_files :: "path oset"
  parsing_config_file :: bool
  user_name :: string
  homepath :: path
  homejaimpath :: path
  storagedir :: path
  sandbox_name :: path
  jaiminit :: path
  user_uid :: nat
  shell_path :: path
  home_fd :: bool
  home_jaim_fd :: bool
  private_tmp :: path
  private_home :: path
  overlay_upper :: path
  overlay_mount :: path
  config_loop_detect :: "path oset"
  environ :: "string list"
  warnings :: "string list"

text \<open>The initializers of the members of \<open>Config\<close>, and the environment of the process.\<close>

definition initial_config :: "string list \<Rightarrow> config" where
  "initial_config env =
     \<lparr>jail_mode = kStrict, grant_directories = [], grant_files = [], grant_cwd = True,
      env_filter = [], setenv_map = [], cwd_path = [], script_inputs = [], shellcmd = [],
      mask_files = [], parsing_config_file = False, user_name = [], homepath = [],
      homejaimpath = [], storagedir = [], sandbox_name = [], jaiminit = [], user_uid = 0,
      shell_path = [], home_fd = False, home_jaim_fd = False, private_tmp = [], private_home = [],
      overlay_upper = [], overlay_mount = [], config_loop_detect = [],
      environ = env, warnings = []\<rparr>"

section \<open>The operating system\<close>

text \<open>
  A configuration file that could be opened: what \<open>fdpath(fd, true)\<close> and \<open>read_file(fd)\<close> give.
\<close>

record conf_file =
  cf_path :: "error + path"
  cf_text :: "error + string"

record passwd =
  pw_name :: string
  pw_uid :: nat
  pw_gid :: nat
  pw_dir :: string
  pw_shell :: string

text \<open>
  The answers of the system: errors of the filesystem library are values of type
  \<open>error\<close>, failed system calls give their errno.  \<open>w_open_conf fromcwd file\<close> opens a file
  relative to the working directory or to the configuration directory, \<open>w_stat_conf\<close> asks
  whether a file of the configuration directory is a regular one, \<open>w_open_dir\<close> opens a
  directory and gives its owner and the path of the descriptor, \<open>w_ensure_udir\<close> creates it when missing.
\<close>

record world =
  w_canonical :: "path \<Rightarrow> error + path"
  w_weakly_canonical :: "path \<Rightarrow> error + path"
  w_current_path :: path
  w_access_x :: "path \<Rightarrow> nat option"
  w_strerror :: "nat \<Rightarrow> string"
  w_stat_conf :: "path \<Rightarrow> nat + bool"
  w_open_conf :: "bool \<Rightarrow> path \<Rightarrow> nat + conf_file"
  w_open_dir :: "path \<Rightarrow> nat + nat \<times> path"
  w_ensure_udir :: "path \<Rightarrow> error option"
  w_getuid :: nat
  w_getpwnam :: "string \<Rightarrow> passwd option"
  w_getpwuid :: "nat \<Rightarrow> passwd option"
  w_prog :: path


text \<open>\<open>getenv\<close> and \<open>setenv(name, value, 1)\<close> on a list of \<open>NAME=VALUE\<close> strings.\<close>

definition getenv :: "string list \<Rightarrow> string \<Rightarrow> string option" where
  "getenv env name =
     map_option (drop (length name + 1)) (find (\<lambda>e. prefix (name @ [EQUALS]) e) env)"

fun putenv :: "string \<Rightarrow> string \<Rightarrow> string list \<Rightarrow> string list" where
  "putenv name v [] = [name @ [EQUALS] @ v]"
| "putenv name v (e # es) =
     (if prefix (name @ [EQUALS]) e then (name @ [EQUALS] @ v) # es else e # putenv name v es)"

definition env_or_empty :: "string list \<Rightarrow> string \<Rightarrow> string" where
  "env_or_empty env name = (case getenv env name of None \<Rightarrow> [] | Some p \<Rightarrow> p)"

section \<open>Steps on the configuration\<close>

type_synonym 'a cstep = "(config, 'a) step"

text \<open>A \<open>catch (const std::exception \&)\<close> with an empty handler.\<close>

definition ignore_errors :: "('s, unit) step \<Rightarrow> ('s, unit) step" where
  "ignore_errors m s = (case m s of (Inl e, t) \<Rightarrow> (Inr (), t) | (Inr a, t) \<Rightarrow> (Inr a, t))"

definition warn :: "string \<Rightarrow> unit cstep" where
  "warn msg = update_s (\<lambda>s. s\<lparr>warnings := warnings s @ [msg]\<rparr>)"

lemma keeps_ignore [intro]: "keeps I m \<Longrightarrow> keeps I (ignore_errors m)"
  by (auto simp: keeps_def ignore_errors_def split: prod.splits sum.splits)

subsection \<open>Variables in option arguments\<close>

definition env_lookup :: "config \<Rightarrow> string \<Rightarrow> string" where
  "env_lookup s var =
     (case om_lookup str_less var (setenv_map s) of
        Some v \<Rightarrow> if EQUALS \<in> set v then after_char EQUALS v else env_or_empty (environ s) var
      | None \<Rightarrow> env_or_empty (environ s) var)"

definition expand :: "config \<Rightarrow> string \<Rightarrow> string" where
  "expand s arg = (if parsing_config_file s then var_expand (env_lookup s) arg else arg)"

text \<open>\<open>Config::cwd\<close>: computed once.\<close>

definition cwd :: "world \<Rightarrow> path cstep" where
  "cwd w s =
     (if cwd_path s = [] then
        (case w_canonical w (w_current_path w) of
           Inl e \<Rightarrow> (Inl e, s)
         | Inr c \<Rightarrow> (Inr c, s\<lparr>cwd_path := c\<rparr>))
      else (Inr (cwd_path s), s))"

section \<open>Option handlers\<close>

definition modemap :: "(string \<times> mode) list" where
  "modemap = [(''casual'', kCasual), (''bare'', kBare), (''strict'', kStrict)]"

definition opt_mode :: "string \<Rightarrow> unit cstep" where
  "opt_mode m =
     (case map_of modemap m of
        Some k \<Rightarrow> update_s (\<lambda>s. s\<lparr>jail_mode := k\<rparr>)
      | None \<Rightarrow> throw_s (OptionError (''invalid mode '' @ m)))"

text \<open>Arguments that name files: relative to the home directory inside a configuration file.\<close>

definition home_arg :: "config \<Rightarrow> string \<Rightarrow> path" where
  "home_arg s arg =
     (let d = expand s arg in if parsing_config_file s then path_append (homepath s) d else d)"

definition jaim_arg :: "config \<Rightarrow> path \<Rightarrow> path" where
  "jaim_arg s arg =
     (if parsing_config_file s then path_append (homejaimpath s) arg else arg)"

definition resolve_arg :: "(path \<Rightarrow> error + path) \<Rightarrow> (config \<Rightarrow> path) \<Rightarrow> path cstep" where
  "resolve_arg canon f s = (canon (f s), s)"

definition opt_dir :: "world \<Rightarrow> string \<Rightarrow> unit cstep" where
  "opt_dir w arg =
     bind_s (resolve_arg (w_canonical w) (\<lambda>s. home_arg s arg)) (\<lambda>d.
       update_s (\<lambda>s. s\<lparr>grant_directories := om_emplace path_less d 0 (grant_directories s)\<rparr>))"

definition opt_dir_mkdir :: "world \<Rightarrow> string \<Rightarrow> unit cstep" where
  "opt_dir_mkdir w arg =
     bind_s (resolve_arg (w_weakly_canonical w) (\<lambda>s. home_arg s arg)) (\<lambda>d.
       update_s (\<lambda>s.
         s\<lparr>grant_directories := om_emplace path_less d kGrantMkdir (grant_directories s)\<rparr>))"

definition opt_rdir :: "world \<Rightarrow> string \<Rightarrow> unit cstep" where
  "opt_rdir w arg =
     bind_s (resolve_arg (w_canonical w) (\<lambda>s. home_arg s arg)) (\<lambda>d.
       update_s (\<lambda>s.
         s\<lparr>grant_directories := om_emplace path_less d kGrantRO (grant_directories s)\<rparr>))"

definition opt_rdir_maybe :: "world \<Rightarrow> string \<Rightarrow> unit cstep" where
  "opt_rdir_maybe w arg =
     ignore_errors
       (bind_s (resolve_arg (w_canonical w) (\<lambda>s. home_arg s arg)) (\<lambda>d.
          update_s (\<lambda>s.
            s\<lparr>grant_directories := om_emplace path_less d kGrantRO (grant_directories s)\<rparr>)))"

definition opt_xdir :: "world \<Rightarrow> string \<Rightarrow> unit cstep" where
  "opt_xdir w arg =
     bind_s (resolve_arg (w_canonical w) (\<lambda>s. home_arg s arg)) (\<lambda>d.
       update_s (\<lambda>s. s\<lparr>grant_directories := om_erase path_less d (grant_directories s)\<rparr>))"

definition opt_file :: "world \<Rightarrow> string \<Rightarrow> unit cstep" where
  "opt_file w arg =
     bind_s (resolve_arg (w_weakly_canonical w) (\<lambda>s. home_arg s arg)) (\<lambda>f.
       update_s (\<lambda>s. s\<lparr>grant_files := om_emplace path_less f 0 (grant_files s)\<rparr>))"

definition opt_xfile :: "world \<Rightarrow> string \<Rightarrow> unit cstep" where
  "opt_xfile w arg =
     bind_s (resolve_arg (w_weakly_canonical w) (\<lambda>s. home_arg s arg)) (\<lambda>f.
       update_s (\<lambda>s. s\<lparr>grant_files := om_erase path_less f (grant_files s)\<rparr>))"

definition opt_nocwd :: "unit cstep" where
  "opt_nocwd = update_s (\<lambda>s. s\<lparr>grant_cwd := False\<rparr>)"

definition opt_jail :: "bool \<Rightarrow> path \<Rightarrow> unit cstep" where
  "opt_jail dotjail sb =
     (if \<not> dotjail then
        (if \<not> name_ok sb then throw_s (OptionError (sb @ '': invalid sandbox name''))
         else update_s (\<lambda>s. s\<lparr>sandbox_name := sb\<rparr>))
      else throw_s (OptionError ''cannot set name from a .jail file or include''))"

definition push_script :: "path \<Rightarrow> config \<Rightarrow> config" where
  "push_script p s =
     (if list_ex (\<lambda>q. path_iter q = path_iter p) (script_inputs s) then s
      else s\<lparr>script_inputs := script_inputs s @ [p]\<rparr>)"

definition opt_script :: "world \<Rightarrow> path \<Rightarrow> unit cstep" where
  "opt_script w arg =
     bind_s (resolve_arg (w_canonical w) (\<lambda>s. jaim_arg s arg)) (\<lambda>p. update_s (push_script p))"

definition opt_script_maybe :: "world \<Rightarrow> path \<Rightarrow> unit cstep" where
  "opt_script_maybe w arg =
     ignore_errors
       (bind_s (resolve_arg (w_canonical w) (\<lambda>s. jaim_arg s arg)) (\<lambda>p. update_s (push_script p)))"

definition access_error :: "world \<Rightarrow> path \<Rightarrow> nat \<Rightarrow> error" where
  "access_error w p errno =
     OptionError (p @ '': '' @
       (if errno = EACCES then ''no execute permission'' else w_strerror w errno))"

definition opt_initjail :: "world \<Rightarrow> path \<Rightarrow> unit cstep" where
  "opt_initjail w arg =
     bind_s (resolve_arg (w_canonical w) (\<lambda>s. jaim_arg s arg)) (\<lambda>p.
     bind_s (update_s (\<lambda>s. s\<lparr>jaiminit := p\<rparr>)) (\<lambda>_.
       case w_access_x w p of
         None \<Rightarrow> return_s ()
       | Some errno \<Rightarrow> throw_s (access_error w p errno)))"

definition opt_initjail_maybe :: "world \<Rightarrow> path \<Rightarrow> unit cstep" where
  "opt_initjail_maybe w arg =
     bind_s (resolve_arg (w_weakly_canonical w) (\<lambda>s. jaim_arg s arg)) (\<lambda>p.
       case w_access_x w p of
         Some errno \<Rightarrow> if errno = ENOENT then return_s () else throw_s (access_error w p errno)
       | None \<Rightarrow> update_s (\<lambda>s. s\<lparr>jaiminit := p\<rparr>))"

definition opt_mask :: "string \<Rightarrow> unit cstep" where
  "opt_mask arg =
     bind_s (get_s (\<lambda>s. expand s arg)) (\<lambda>p.
       if is_absolute p then throw_s (OptionError (p @ '': cannot mask an absolute path''))
       else update_s (\<lambda>s. s\<lparr>mask_files := os_insert path_less p (mask_files s)\<rparr>))"

definition opt_unmask :: "string \<Rightarrow> unit cstep" where
  "opt_unmask arg =
     bind_s (get_s (\<lambda>s. expand s arg)) (\<lambda>p.
       update_s (\<lambda>s. s\<lparr>mask_files := om_erase path_less p (mask_files s)\<rparr>))"

definition opt_unsetenv :: "string \<Rightarrow> unit cstep" where
  "opt_unsetenv var =
     update_s (\<lambda>s. s\<lparr>setenv_map := om_erase_if (\<lambda>name. glob var name) (setenv_map s),
                    env_filter := os_insert str_less var (env_filter s)\<rparr>)"

definition EM_DASH :: string where "EM_DASH = [CHR 0xE2, CHR 0x80, CHR 0x94]"

definition overrides_warning :: "string \<Rightarrow> string \<Rightarrow> string" where
  "overrides_warning name pat =
     ''warning: setenv '' @ name @ '' overrides unsetenv '' @ pat @ '' '' @ EM_DASH @
     '' variable will be passed into the sandbox''"

definition warn_override :: "string \<Rightarrow> unit cstep" where
  "warn_override name s =
     (if parsing_config_file s then
        (case find (\<lambda>pat. glob pat name) (os_elems (env_filter s)) of
           Some pat \<Rightarrow> warn (overrides_warning name pat) s
         | None \<Rightarrow> (Inr (), s))
      else (Inr (), s))"

definition opt_setenv_assign :: "string \<Rightarrow> unit cstep" where
  "opt_setenv_assign var =
     (let name = before_char EQUALS var in
      bind_s (get_s (\<lambda>s. name @ [EQUALS] @ expand s (after_char EQUALS var))) (\<lambda>var_eq_val.
      bind_s (warn_override name) (\<lambda>_.
        update_s (\<lambda>s. s\<lparr>setenv_map := om_assign str_less name var_eq_val (setenv_map s)\<rparr>))))"

definition space_error :: "string \<Rightarrow> error" where
  "space_error var =
     OptionError (''Environment variable '' @ [DQ] @ var @ [DQ] @
                  '' contains space, did you mean '' @ [CHR 0x27] @ ''='' @ [CHR 0x27] @ ''?'')"

definition opt_setenv_keep :: "string \<Rightarrow> unit cstep" where
  "opt_setenv_keep var s =
     (if os_mem str_less var (env_filter s) then
        (Inr (), s\<lparr>env_filter := om_erase str_less var (env_filter s)\<rparr>)
      else if CHR '' '' \<in> set var then (Inl (space_error var), s)
      else case getenv (environ s) var of
             None \<Rightarrow> (Inr (), s)
           | Some p \<Rightarrow>
               if list_ex (\<lambda>pat. glob pat var) (os_elems (env_filter s)) then
                 (Inr (), s\<lparr>setenv_map :=
                              om_assign str_less var (var @ [EQUALS] @ p) (setenv_map s)\<rparr>)
               else (Inr (), s))"

definition opt_setenv :: "string \<Rightarrow> unit cstep" where
  "opt_setenv var =
     (if EQUALS \<in> set var then opt_setenv_assign var else opt_setenv_keep var)"

definition opt_command :: "string \<Rightarrow> unit cstep" where
  "opt_command cmd = update_s (\<lambda>s. s\<lparr>shellcmd := cmd\<rparr>)"

definition opt_storage :: "world \<Rightarrow> string \<Rightarrow> unit cstep" where
  "opt_storage w arg =
     bind_s (get_s (\<lambda>s. (expand s arg, parsing_config_file s))) (\<lambda>(sd, pcf).
       if sd = [] then update_s (\<lambda>s. s\<lparr>storagedir := []\<rparr>)
       else if pcf then update_s (\<lambda>s. s\<lparr>storagedir := path_append (homepath s) sd\<rparr>)
       else bind_s (cwd w) (\<lambda>c. update_s (\<lambda>s. s\<lparr>storagedir := path_append c sd\<rparr>)))"

end
