(* ===== verification/Config_Parser.thy ===== *)
theory Config_Parser
  imports Config
begin

text \<open>
  Accounts and directories (\<open>init_credentials\<close>, \<open>check_user\<close>, \<open>home\<close>, \<open>home_jaim\<close>),
  configuration files and the table of options of \<open>Config::opt_parser\<close>.

  A configuration file may include_conf others (\<open>conf\<close>, \<open>conf?\<close>).  Inclusion is bounded by
  fuel; \<open>Config_Facts\<close> shows that the loop detection of \<open>parse_config_fd\<close> makes the number
  of existing configuration files enough fuel.
\<close>

section \<open>Accounts and directories\<close>

text \<open>\<open>init_credentials\<close>: \<open>SUDO_USER\<close> and \<open>USER\<close> count only for root.\<close>

definition env_user :: "config \<Rightarrow> string option" where
  "env_user s =
     (if user_name s \<noteq> [] then Some (user_name s)
      else case getenv (environ s) ''SUDO_USER'' of
             Some u \<Rightarrow> Some u
           | None \<Rightarrow> getenv (environ s) ''USER'')"

definition find_account :: "world \<Rightarrow> config \<Rightarrow> error + passwd" where
  "find_account w s =
     (case (w_getuid w = 0, env_user s) of
        (True, Some u) \<Rightarrow>
          (case w_getpwnam w u of
             None \<Rightarrow> Inl (RuntimeError (''cannot find password entry for user '' @ u))
           | Some pw \<Rightarrow> Inr pw)
      | _ \<Rightarrow>
          (case w_getpwuid w (w_getuid w) of
             None \<Rightarrow> Inl (RuntimeError (''cannot find password entry for uid '' @
                                        show_nat (w_getuid w)))
           | Some pw \<Rightarrow> Inr pw))"

definition init_credentials :: "world \<Rightarrow> unit cstep" where
  "init_credentials w s =
     (case find_account w s of
        Inl e \<Rightarrow> (Inl e, s)
      | Inr pw \<Rightarrow>
          let home = path_append ''/'' (pw_dir pw);
              env = putenv ''JAIM_USER'' (pw_name pw) (environ s);
              jaim = path_append home
                       (case getenv env ''JAIM_CONFIG_DIR'' of None \<Rightarrow> ''.jaim'' | Some d \<Rightarrow> d)
          in (Inr (), s\<lparr>user_name := pw_name pw, homepath := home, shell_path := pw_shell pw,
                        user_uid := pw_uid pw, homejaimpath := jaim,
                        environ := putenv ''JAIM_CONFIG_DIR'' jaim env\<rparr>))"

definition check_user :: "nat \<Rightarrow> path \<Rightarrow> unit cstep" where
  "check_user owner p s =
     (if owner \<noteq> user_uid s then
        (Inl (RuntimeError (p @ '': owned by '' @ show_nat owner @ '' should be owned by '' @
                            show_nat (user_uid s))), s)
      else (Inr (), s))"

text \<open>The home directory and the configuration directory are opened once.\<close>

definition home :: "world \<Rightarrow> unit cstep" where
  "home w s =
     (if home_fd s then (Inr (), s)
      else case w_open_dir w (homepath s) of
             Inl errno \<Rightarrow> (Inl (SysError errno (homepath s)), s)
           | Inr (owner, p) \<Rightarrow>
               bind_s (check_user owner p) (\<lambda>_.
                 update_s (\<lambda>s. s\<lparr>home_fd := True\<rparr>)) s)"

definition missing_config_dir :: "world \<Rightarrow> config \<Rightarrow> error" where
  "missing_config_dir w s =
     RuntimeError (homejaimpath s @ '' does not exist; run '' @ filename (w_prog w) @
                   '' --init to create it'')"

definition home_jaim :: "world \<Rightarrow> bool \<Rightarrow> unit cstep" where
  "home_jaim w create s =
     (if home_jaim_fd s then (Inr (), s)
      else
        bind_s (home w) (\<lambda>_ s.
          if create then
            (case w_ensure_udir w (homejaimpath s) of
               Some e \<Rightarrow> (Inl e, s)
             | None \<Rightarrow> (Inr (), s\<lparr>home_jaim_fd := True\<rparr>))
          else
            case w_open_dir w (homejaimpath s) of
              Inr (owner, p) \<Rightarrow>
                bind_s (check_user owner p) (\<lambda>_.
                  update_s (\<lambda>s. s\<lparr>home_jaim_fd := True\<rparr>)) s
            | Inl errno \<Rightarrow>
                (Inl (if errno = ENOENT then missing_config_dir w s
                      else SysError errno (homejaimpath s)), s)) s)"

section \<open>Configuration files\<close>

text \<open>
  \<open>go\<close> is \<open>o->parse_file(text, ld)\<close> on the parser to use.  The \<open>Defer\<close> restores the flag
  and the loop set whether the file was parsed or an exception left it.
\<close>

definition parse_config_fd :: "(string \<Rightarrow> path \<Rightarrow> unit cstep) \<Rightarrow> conf_file \<Rightarrow> unit cstep" where
  "parse_config_fd go cf s =
     (case cf_path cf of
        Inl e \<Rightarrow> (Inl e, s)
      | Inr ld \<Rightarrow>
          if os_mem path_less ld (config_loop_detect s) then
            (Inl (OptionError ''configuration loop''), s)
          else
            let pcf = parsing_config_file s;
                s1 = s\<lparr>config_loop_detect := os_insert path_less ld (config_loop_detect s),
                       parsing_config_file := True\<rparr>;
                (r, t) = bind_s (lift_s (cf_text cf)) (\<lambda>txt. go txt ld) s1
            in (r, t\<lparr>config_loop_detect := om_erase path_less ld (config_loop_detect t),
                     parsing_config_file := pcf\<rparr>))"

text \<open>
  The name actually opened: a bare name without the suffix gets one when only the file
  with the suffix exists.
\<close>

definition conf_name :: "world \<Rightarrow> path \<Rightarrow> path cstep" where
  "conf_name w file =
     (if \<not> components file > 1 \<and> extension file \<noteq> ''.conf'' then
        bind_s (home_jaim w False) (\<lambda>_.
          return_s (if w_stat_conf w file = Inl ENOENT \<and>
                       w_stat_conf w (cat file ''.conf'') = Inr True
                    then file @ ''.conf'' else file))
      else return_s file)"

definition parse_config_file ::
    "world \<Rightarrow> (string \<Rightarrow> path \<Rightarrow> unit cstep) \<Rightarrow> path \<Rightarrow> bool cstep" where
  "parse_config_file w go file s =
     (let slash = components file > 1;
          fromcwd = slash \<and> \<not> parsing_config_file s
      in bind_s (conf_name w file) (\<lambda>name.
         bind_s (if fromcwd then return_s () else home_jaim w False) (\<lambda>_.
           case w_open_conf w fromcwd name of
             Inl errno \<Rightarrow>
               if errno = ENOENT then return_s False else throw_s (SysError errno name)
           | Inr cf \<Rightarrow> bind_s (parse_config_fd go cf) (\<lambda>_. return_s True))) s)"

section \<open>The options of a configuration file\<close>

definition mode_help :: string where
  "mode_help =
     ''Set execution mode to one of the following:'' @ [NL] @
     ''    casual - sandbox with read-only access to real home directory'' @ [NL] @
     ''    bare - sandbox with empty private home; real home denied'' @ [NL] @
     ''    strict - sandbox with no home directory access''"

definition command_help :: string where
  "command_help =
     ''Bash command line to execute program, e.g:'' @ [NL] @
     ''source '' @ [DQ] @ ''${JAIM_SCRIPT:-/dev/null}'' @ [DQ] @ ''; '' @
     [DQ] @ ''$0'' @ [DQ] @ '' '' @ [DQ] @ ''$@'' @ [DQ]"

definition storage_help :: string where
  "storage_help =
     ''Store sandbox state in DIR'' @ [NL] @
     ''(default: $JAIM_CONFIG_DIR or $HOME/.jaim)''"

text \<open>The registrations of \<open>opt_parser\<close>, in its order.\<close>

definition file_registrations :: "(string list \<times> has_arg \<times> string \<times> string) list" where
  "file_registrations =
     [([''-m'', ''--mode''], kArg, mode_help, ''casual|bare|strict''),
      ([''-d'', ''--dir''], kArg, ''Grant full access to DIR'', ''DIR''),
      ([''--dir!''], kArg, ''Like --dir, but create DIR if it doesn'' @ [CHR 0x27] @ ''t exist'',
       ''DIR''),
      ([''-r'', ''--rdir''], kArg, ''Grant read-only access to DIR'', ''DIR''),
      ([''--rdir?''], kArg, ''Like --rdir but ignore the option if DIR does not exist'', ''DIR''),
      ([''-x'', ''--xdir''], kArg, ''Undo the effects of a previous --dir option'', ''DIR''),
      ([''-F'', ''--file''], kArg,
       ''Grant write access to FILE (and atomic-write .<suffix> siblings)'', ''FILE''),
      ([''--xfile''], kArg, ''Undo the effects of a previous --file option'', ''FILE''),
      ([''-D'', ''--nocwd''], kNoArg,
       ''Do not grant access to the current working directory'', [])]"

definition jail_registration :: "bool \<Rightarrow> string list \<times> has_arg \<times> string \<times> string" where
  "jail_registration dotjail =
     (if \<not> dotjail then ([''-j'', ''--jail''], kArg, ''Use sandbox named NAME'', ''NAME'')
      else ([''-j'', ''--jail''], kArg, [], []))"

definition other_registrations :: "(string list \<times> has_arg \<times> string \<times> string) list" where
  "other_registrations =
     [([''--conf''], kArg, [], []),
      ([''--conf?''], kArg, [], []),
      ([''--script''], kArg, ''Source SCRIPT in bash shell used to launch jail'', ''SCRIPT''),
      ([''--script?''], kArg,
       ''Like --script but don'' @ [CHR 0x27] @ ''t fail if SCRIPT does not exist'', ''SCRIPT''),
      ([''--initjail''], kArg, ''Run PROGRAM to initialize new home directories'', ''PROGRAM''),
      ([''--initjail?''], kArg,
       ''Like --initjail, but silently ignore non-existent PROGRAM'', ''PROGRAM''),
      ([''--mask''], kArg, ''Deny sandbox access to $HOME/FILE'', ''FILE''),
      ([''--unmask''], kArg, ''Undo the effects of a previous --mask option'', ''FILE''),
      ([''--unsetenv''], kArg,
       ''Remove VAR (which may contain wildcard '' @ [CHR 0x27] @ ''*'' @ [CHR 0x27] @
       '') from the environment'', ''VAR''),
      ([''--setenv''], kArg,
       ''Undo the effects of --unsetenv=VAR, or set VAR=VALUE'', ''VAR[=VALUE]''),
      ([''--command''], kArg, command_help, ''CMD''),
      ([''--storage''], kArg, storage_help, ''DIR'')]"

definition add_registration ::
    "string list \<times> has_arg \<times> string \<times> string \<Rightarrow> options \<Rightarrow> options" where
  "add_registration reg tbl =
     (case reg of (names, ha, helpstr, valname) \<Rightarrow> register_opts names ha helpstr valname tbl)"

definition opt_parser :: "bool \<Rightarrow> options" where
  "opt_parser dotjail =
     fold add_registration
       (file_registrations @ [jail_registration dotjail] @ other_registrations)
       \<lparr>opt_actions = [], help_text = []\<rparr>"

text \<open>
  The callbacks of the table.  \<open>conf\<close> is \<open>parse_config_file(file, opts)\<close> on the same parser.
  Calling a callback with the wrong arity is \<open>ActionImpl\<close>'s logic error.
\<close>

definition with_arg :: "string option \<Rightarrow> (string \<Rightarrow> 'a cstep) \<Rightarrow> 'a cstep" where
  "with_arg a f =
     (case a of Some x \<Rightarrow> f x | None \<Rightarrow> throw_s (LogicError ''option requires argument''))"

definition without_arg :: "string option \<Rightarrow> 'a cstep \<Rightarrow> 'a cstep" where
  "without_arg a m =
     (case a of None \<Rightarrow> m | Some _ \<Rightarrow> throw_s (LogicError ''option should not have argument''))"

definition opt_conf :: "(path \<Rightarrow> bool cstep) \<Rightarrow> string \<Rightarrow> unit cstep" where
  "opt_conf conf arg =
     bind_s (get_s (\<lambda>s. expand s arg)) (\<lambda>file.
     bind_s (conf file) (\<lambda>found.
       if \<not> found then throw_s (OptionError (file @ '': configuration file not found''))
       else return_s ()))"

definition opt_conf_maybe :: "(path \<Rightarrow> bool cstep) \<Rightarrow> string \<Rightarrow> unit cstep" where
  "opt_conf_maybe conf arg =
     bind_s (get_s (\<lambda>s. expand s arg)) (\<lambda>file. bind_s (conf file) (\<lambda>_. return_s ()))"

definition run_option ::
    "world \<Rightarrow> bool \<Rightarrow> (path \<Rightarrow> bool cstep) \<Rightarrow> string \<Rightarrow> string option \<Rightarrow> unit cstep" where
  "run_option w dotjail conf name a =
     (if name \<in> {''-m'', ''--mode''} then with_arg a opt_mode
      else if name \<in> {''-d'', ''--dir''} then with_arg a (opt_dir w)
      else if name = ''--dir!'' then with_arg a (opt_dir_mkdir w)
      else if name \<in> {''-r'', ''--rdir''} then with_arg a (opt_rdir w)
      else if name = ''--rdir?'' then with_arg a (opt_rdir_maybe w)
      else if name \<in> {''-x'', ''--xdir''} then with_arg a (opt_xdir w)
      else if name \<in> {''-F'', ''--file''} then with_arg a (opt_file w)
      else if name = ''--xfile'' then with_arg a (opt_xfile w)
      else if name \<in> {''-D'', ''--nocwd''} then without_arg a opt_nocwd
      else if name \<in> {''-j'', ''--jail''} then with_arg a (opt_jail dotjail)
      else if name = ''--conf'' then with_arg a (opt_conf conf)
      else if name = ''--conf?'' then with_arg a (opt_conf_maybe conf)
      else if name = ''--script'' then with_arg a (opt_script w)
      else if name = ''--script?'' then with_arg a (opt_script_maybe w)
      else if name = ''--initjail'' then with_arg a (opt_initjail w)
      else if name = ''--initjail?'' then with_arg a (opt_initjail_maybe w)
      else if name = ''--mask'' then with_arg a opt_mask
      else if name = ''--unmask'' then with_arg a opt_unmask
      else if name = ''--unsetenv'' then with_arg a opt_unsetenv
      else if name = ''--setenv'' then with_arg a opt_setenv
      else if name = ''--command'' then with_arg a opt_command
      else if name = ''--storage'' then with_arg a (opt_storage w)
      else throw_s (LogicError ''no such action''))"

text \<open>
  Inclusion.  \<open>include_conf n\<close> parses a configuration file with \<open>n\<close> levels of inclusion to
  spare; running out is an error value that the program itself never throws.
\<close>

definition out_of_fuel :: error where "out_of_fuel = LogicError ''out of fuel''"

primrec include_conf :: "nat \<Rightarrow> world \<Rightarrow> bool \<Rightarrow> path \<Rightarrow> bool cstep" where
  "include_conf 0 w dotjail file = throw_s out_of_fuel"
| "include_conf (Suc n) w dotjail file =
     parse_config_file w
       (parse_file (run_option w dotjail (include_conf n w dotjail)) (opt_actions (opt_parser dotjail)))
       file"

text \<open>The text of one file on a given parser, and the actions of that parser.\<close>

definition conf_action :: "nat \<Rightarrow> world \<Rightarrow> bool \<Rightarrow> string \<Rightarrow> string option \<Rightarrow> unit cstep" where
  "conf_action n w dotjail = run_option w dotjail (include_conf n w dotjail)"

definition parse_conf_text :: "nat \<Rightarrow> world \<Rightarrow> bool \<Rightarrow> string \<Rightarrow> path \<Rightarrow> unit cstep" where
  "parse_conf_text n w dotjail =
     parse_file (conf_action n w dotjail) (opt_actions (opt_parser dotjail))"

end
