(* ===== verification/Config_Facts.thy ===== *)
theory Config_Facts
  imports Config_Parser
begin

text \<open>
  What holds of the configuration whatever the options, files and answers of the system:
  its well-formedness, the restoration of the parsing state after a file, the protection
  of the jail's name from \<open>.jail\<close> files, and the end of every chain of inclusions.
\<close>

section \<open>Invariants of every option\<close>

lemmas handler_defs =
  opt_mode_def opt_dir_def opt_dir_mkdir_def opt_rdir_def opt_rdir_maybe_def opt_xdir_def
  opt_file_def opt_xfile_def opt_nocwd_def opt_jail_def opt_script_def opt_script_maybe_def
  opt_initjail_def opt_initjail_maybe_def opt_mask_def opt_unmask_def opt_unsetenv_def
  opt_setenv_def opt_setenv_assign_def opt_command_def opt_storage_def opt_conf_def
  opt_conf_maybe_def with_arg_def without_arg_def

lemma keeps_resolve [intro!, simp]: "keeps I (resolve_arg canon f)"
  by (simp add: keeps_def resolve_arg_def)

text \<open>What a step leaves alone: \<open>keeps\<close> for every value of a part of the state.\<close>

definition frames :: "('s \<Rightarrow> 'a) \<Rightarrow> ('s, 'b) step \<Rightarrow> bool" where
  "frames f m \<longleftrightarrow> (\<forall>s. f (snd (m s)) = f s)"

lemma frames_keeps: "(\<And>v. keeps (\<lambda>s. f s = v) m) \<Longrightarrow> frames f m"
  by (auto simp: frames_def keeps_def)

lemma frames_snd: "frames f m \<Longrightarrow> m s = (r, t) \<Longrightarrow> f t = f s"
  by (metis frames_def snd_conv)

abbreviation parsing_state :: "config \<Rightarrow> path oset \<times> bool" where
  "parsing_state s \<equiv> (config_loop_detect s, parsing_config_file s)"

subsection \<open>Well-formed configurations\<close>

definition env_entry_ok :: "string \<times> string \<Rightarrow> bool" where
  "env_entry_ok kv = (case kv of (k, v) \<Rightarrow> EQUALS \<notin> set k \<and> prefix (k @ [EQUALS]) v)"

definition config_wf :: "config \<Rightarrow> bool" where
  "config_wf s \<longleftrightarrow>
     om_sorted path_less (grant_directories s) \<and> om_sorted path_less (grant_files s) \<and>
     om_sorted path_less (mask_files s) \<and> om_sorted path_less (config_loop_detect s) \<and>
     om_sorted str_less (env_filter s) \<and> om_sorted str_less (setenv_map s) \<and>
     (\<forall>m \<in> set (os_elems (mask_files s)). \<not> is_absolute m) \<and>
     (sandbox_name s = [] \<or> name_ok (sandbox_name s)) \<and>
     (\<forall>kv \<in> set (setenv_map s). env_entry_ok kv)"

lemma om_emplace_keys: "set (os_elems (om_emplace lt k v m)) \<subseteq> insert k (set (os_elems m))"
proof (induction m)
  case (Cons p m)
  then show ?case by (cases p) auto
qed simp

lemma om_erase_keys: "set (os_elems (om_erase lt k m)) \<subseteq> set (os_elems m)"
proof (induction m)
  case (Cons p m)
  then show ?case by (cases p) auto
qed simp

lemma om_assign_entries:
  "kv \<in> set (om_assign str_less k v m) \<Longrightarrow> kv = (k, v) \<or> kv \<in> set m"
proof (induction m)
  case (Cons p m)
  obtain a u where p: "p = (a, u)" by (cases p)
  consider "str_less a k" | "\<not> str_less a k" "str_less k a" | "a = k"
    using str_order.total by blast
  then show ?case
    by cases (use Cons p in \<open>auto simp: str_order.irrefl\<close>)
qed simp

lemma env_entry_assign: "EQUALS \<notin> set k \<Longrightarrow> env_entry_ok (k, k @ EQUALS # x)"
  by (simp add: env_entry_ok_def)

lemmas sorted_intros =
  path_order.emplace_sorted path_order.erase_sorted str_order.emplace_sorted
  str_order.erase_sorted str_order.assign_sorted str_order.erase_if_sorted

lemma wf_grant_directories:
  "config_wf s \<Longrightarrow> config_wf (s\<lparr>grant_directories := om_emplace path_less d v (grant_directories s)\<rparr>)"
  "config_wf s \<Longrightarrow> config_wf (s\<lparr>grant_directories := om_erase path_less d (grant_directories s)\<rparr>)"
  by (simp_all add: config_wf_def sorted_intros)

lemma wf_grant_files:
  "config_wf s \<Longrightarrow> config_wf (s\<lparr>grant_files := om_emplace path_less d v (grant_files s)\<rparr>)"
  "config_wf s \<Longrightarrow> config_wf (s\<lparr>grant_files := om_erase path_less d (grant_files s)\<rparr>)"
  by (simp_all add: config_wf_def sorted_intros)

lemma wf_mask:
  assumes "config_wf s"
  shows "\<not> is_absolute p \<Longrightarrow> config_wf (s\<lparr>mask_files := os_insert path_less p (mask_files s)\<rparr>)"
    and "config_wf (s\<lparr>mask_files := om_erase path_less p (mask_files s)\<rparr>)"
proof -
  have srt: "om_sorted path_less (mask_files s)"
    and rel: "\<forall>m \<in> set (os_elems (mask_files s)). \<not> is_absolute m"
    using assms by (simp_all add: config_wf_def)
  have "\<forall>m \<in> set (os_elems (os_insert path_less p (mask_files s))). \<not> is_absolute m"
    if "\<not> is_absolute p"
    using om_emplace_keys [of path_less p "()" "mask_files s"] rel that by blast
  with assms path_order.emplace_sorted [OF srt]
  show "config_wf (s\<lparr>mask_files := os_insert path_less p (mask_files s)\<rparr>)"
    if "\<not> is_absolute p"
    using that by (simp add: config_wf_def del: set_map)
  have "\<forall>m \<in> set (os_elems (om_erase path_less p (mask_files s))). \<not> is_absolute m"
    using om_erase_keys [of path_less p "mask_files s"] rel by blast
  with assms path_order.erase_sorted [OF srt]
  show "config_wf (s\<lparr>mask_files := om_erase path_less p (mask_files s)\<rparr>)"
    by (simp add: config_wf_def del: set_map)
qed

lemma wf_setenv:
  "config_wf s \<Longrightarrow> EQUALS \<notin> set k \<Longrightarrow>
   config_wf (s\<lparr>setenv_map := om_assign str_less k (k @ EQUALS # x) (setenv_map s)\<rparr>)"
  by (auto simp: config_wf_def sorted_intros env_entry_assign dest!: om_assign_entries)

lemma wf_unsetenv:
  "config_wf s \<Longrightarrow>
   config_wf (s\<lparr>setenv_map := om_erase_if P (setenv_map s),
               env_filter := os_insert str_less v (env_filter s)\<rparr>)"
  by (simp add: config_wf_def sorted_intros) (auto simp: om_erase_if_def)

lemma wf_keepenv:
  "config_wf s \<Longrightarrow> config_wf (s\<lparr>env_filter := om_erase str_less v (env_filter s)\<rparr>)"
  by (simp add: config_wf_def sorted_intros)

lemma wf_files:
  "config_wf s \<Longrightarrow>
   config_wf (s\<lparr>config_loop_detect := os_insert path_less p (config_loop_detect s)\<rparr>)"
  "config_wf s \<Longrightarrow>
   config_wf (s\<lparr>config_loop_detect := om_erase path_less p (config_loop_detect s)\<rparr>)"
  by (simp_all add: config_wf_def sorted_intros)

lemma wf_jail: "config_wf s \<Longrightarrow> name_ok sb \<Longrightarrow> config_wf (s\<lparr>sandbox_name := sb\<rparr>)"
  by (simp add: config_wf_def)

lemma wf_other [simp]:
  "config_wf (s\<lparr>jail_mode := a\<rparr>) = config_wf s"
  "config_wf (s\<lparr>grant_cwd := b\<rparr>) = config_wf s"
  "config_wf (s\<lparr>cwd_path := p\<rparr>) = config_wf s"
  "config_wf (s\<lparr>script_inputs := ps\<rparr>) = config_wf s"
  "config_wf (s\<lparr>shellcmd := p\<rparr>) = config_wf s"
  "config_wf (s\<lparr>storagedir := p\<rparr>) = config_wf s"
  "config_wf (s\<lparr>jaiminit := p\<rparr>) = config_wf s"
  "config_wf (s\<lparr>home_fd := b\<rparr>) = config_wf s"
  "config_wf (s\<lparr>home_jaim_fd := b\<rparr>) = config_wf s"
  "config_wf (s\<lparr>warnings := ps\<rparr>) = config_wf s"
  "config_wf (s\<lparr>parsing_config_file := b\<rparr>) = config_wf s"
  by (simp_all add: config_wf_def)

lemma wf_push_script: "config_wf s \<Longrightarrow> config_wf (push_script p s)"
  by (simp add: push_script_def)

section \<open>Invariants of every option\<close>

text \<open>
  A property of the configuration that survives the assignments the option handlers make
  survives every option, and one that survives all assignments but that of the mode every option
  but \<open>--mode\<close>.  \<open>dotjail\<close> tells the two parsers apart.
\<close>

locale other_options =
  fixes inv :: "config \<Rightarrow> bool"
    and dotjail :: bool
  assumes inv_dirs: "inv s \<Longrightarrow>
          inv (s\<lparr>grant_directories := om_emplace path_less d v (grant_directories s)\<rparr>)"
    and inv_xdir: "inv s \<Longrightarrow>
          inv (s\<lparr>grant_directories := om_erase path_less d (grant_directories s)\<rparr>)"
    and inv_files: "inv s \<Longrightarrow>
          inv (s\<lparr>grant_files := om_emplace path_less d v (grant_files s)\<rparr>)"
    and inv_xfile: "inv s \<Longrightarrow> inv (s\<lparr>grant_files := om_erase path_less d (grant_files s)\<rparr>)"
    and inv_nocwd: "inv s \<Longrightarrow> inv (s\<lparr>grant_cwd := False\<rparr>)"
    and inv_jail: "inv s \<Longrightarrow> \<not> dotjail \<Longrightarrow> name_ok sb \<Longrightarrow> inv (s\<lparr>sandbox_name := sb\<rparr>)"
    and inv_script: "inv s \<Longrightarrow> inv (s\<lparr>script_inputs := ps\<rparr>)"
    and inv_initjail: "inv s \<Longrightarrow> inv (s\<lparr>jaiminit := p\<rparr>)"
    and inv_mask: "inv s \<Longrightarrow> \<not> is_absolute p \<Longrightarrow>
          inv (s\<lparr>mask_files := os_insert path_less p (mask_files s)\<rparr>)"
    and inv_unmask: "inv s \<Longrightarrow> inv (s\<lparr>mask_files := om_erase path_less p (mask_files s)\<rparr>)"
    and inv_unsetenv: "inv s \<Longrightarrow>
          inv (s\<lparr>setenv_map := om_erase_if P (setenv_map s),
                 env_filter := os_insert str_less var (env_filter s)\<rparr>)"
    and inv_setenv: "inv s \<Longrightarrow> EQUALS \<notin> set k \<Longrightarrow>
          inv (s\<lparr>setenv_map := om_assign str_less k (k @ EQUALS # x) (setenv_map s)\<rparr>)"
    and inv_keepenv: "inv s \<Longrightarrow> inv (s\<lparr>env_filter := om_erase str_less var (env_filter s)\<rparr>)"
    and inv_command: "inv s \<Longrightarrow> inv (s\<lparr>shellcmd := c\<rparr>)"
    and inv_storage: "inv s \<Longrightarrow> inv (s\<lparr>storagedir := p\<rparr>)"
    and inv_cwd: "inv s \<Longrightarrow> inv (s\<lparr>cwd_path := p\<rparr>)"
    and inv_warn: "inv s \<Longrightarrow> inv (s\<lparr>warnings := ps\<rparr>)"
begin

lemma dir_keeps:
  "keeps inv (opt_dir w x)" "keeps inv (opt_dir_mkdir w x)" "keeps inv (opt_rdir w x)"
  "keeps inv (opt_rdir_maybe w x)" "keeps inv (opt_xdir w x)"
  by (auto simp: opt_dir_def opt_dir_mkdir_def opt_rdir_def opt_rdir_maybe_def opt_xdir_def
      inv_dirs inv_xdir intro!: keeps_bind keeps_update keeps_ignore)

lemma file_keeps: "keeps inv (opt_file w x)" "keeps inv (opt_xfile w x)"
  by (auto simp: opt_file_def opt_xfile_def inv_files inv_xfile intro!: keeps_bind keeps_update)

lemma nocwd_keeps: "keeps inv opt_nocwd"
  by (auto simp: opt_nocwd_def inv_nocwd intro!: keeps_update)

lemma jail_keeps: "keeps inv (opt_jail dotjail sb)"
  by (auto simp: opt_jail_def inv_jail intro!: keeps_update)

lemma push_script_inv: "inv s \<Longrightarrow> inv (push_script p s)"
  by (simp add: push_script_def inv_script)

lemma script_keeps: "keeps inv (opt_script w x)" "keeps inv (opt_script_maybe w x)"
  by (auto simp: opt_script_def opt_script_maybe_def push_script_inv
      intro!: keeps_bind keeps_update keeps_ignore)

lemma initjail_keeps: "keeps inv (opt_initjail w x)" "keeps inv (opt_initjail_maybe w x)"
  by (auto simp: opt_initjail_def opt_initjail_maybe_def inv_initjail
      intro!: keeps_bind keeps_update split: option.split)

lemma mask_keeps: "keeps inv (opt_mask x)" "keeps inv (opt_unmask x)"
  by (simp_all add: opt_mask_def opt_unmask_def keeps_def inv_mask inv_unmask update_s_def
      throw_s_def)

lemma unsetenv_keeps: "keeps inv (opt_unsetenv x)"
  by (auto simp: opt_unsetenv_def inv_unsetenv intro!: keeps_update)

lemma warn_keeps: "keeps inv (warn msg)"
  by (auto simp: warn_def inv_warn intro!: keeps_update)

lemma warn_override_keeps: "keeps inv (warn_override name)"
  using warn_keeps by (simp add: keeps_def warn_override_def split: option.split)

lemma setenv_assign_keeps: "keeps inv (opt_setenv_assign var)"
  unfolding opt_setenv_assign_def Let_def bind_get
  by (rule keeps_pointwise [where k = "\<lambda>x. bind_s (warn_override (before_char EQUALS var))
        (\<lambda>_. update_s (\<lambda>s. s\<lparr>setenv_map :=
          om_assign str_less (before_char EQUALS var) (before_char EQUALS var @ [EQUALS] @ x)
            (setenv_map s)\<rparr>))" and f = "\<lambda>s. expand s (after_char EQUALS var)"])
     (intro keeps_bind warn_override_keeps keeps_update, simp add: inv_setenv)

lemma setenv_keep_keeps: "EQUALS \<notin> set var \<Longrightarrow> keeps inv (opt_setenv_keep var)"
  by (auto simp: keeps_def opt_setenv_keep_def inv_keepenv inv_setenv split: option.split)

lemma setenv_keeps: "keeps inv (opt_setenv var)"
  by (simp add: opt_setenv_def setenv_assign_keeps setenv_keep_keeps)

lemma command_keeps: "keeps inv (opt_command x)"
  by (auto simp: opt_command_def inv_command intro!: keeps_update)

lemma cwd_keeps: "keeps inv (cwd w)"
  by (simp add: keeps_def cwd_def inv_cwd split: sum.split)

lemma storage_keeps: "keeps inv (opt_storage w x)"
proof -
  have "keeps inv (bind_s (cwd w) (\<lambda>c. update_s (\<lambda>s. s\<lparr>storagedir := path_append c sd\<rparr>)))" for sd
    by (intro keeps_bind cwd_keeps keeps_update inv_storage)
  then show ?thesis by (simp add: opt_storage_def keeps_def update_s_def inv_storage)
qed

lemma conf_keeps:
  assumes "\<And>f. keeps inv (conf f)"
  shows "keeps inv (opt_conf conf x)" and "keeps inv (opt_conf_maybe conf x)"
proof -
  have "keeps inv (bind_s (conf f) (\<lambda>found. if \<not> found then throw_s e else return_s ()))"
    and "keeps inv (bind_s (conf f) (\<lambda>_. return_s ()))" for f e
    using assms by (auto intro!: keeps_bind)
  then show "keeps inv (opt_conf conf x)" and "keeps inv (opt_conf_maybe conf x)"
    by (simp_all add: opt_conf_def opt_conf_maybe_def keeps_def)
qed

lemma with_arg_keeps: "(\<And>x. keeps inv (f x)) \<Longrightarrow> keeps inv (with_arg a f)"
  by (simp add: with_arg_def split: option.split)

lemma without_arg_keeps: "keeps inv m \<Longrightarrow> keeps inv (without_arg a m)"
  by (simp add: without_arg_def split: option.split)

lemmas handler_keeps =
  dir_keeps file_keeps nocwd_keeps jail_keeps script_keeps initjail_keeps mask_keeps
  unsetenv_keeps setenv_keeps command_keeps storage_keeps conf_keeps

lemma other_option_keeps:
  assumes "\<And>f. keeps inv (conf f)" and "name \<notin> {''-m'', ''--mode''}"
  shows "keeps inv (run_option w dotjail conf name a)"
  unfolding run_option_def
  using assms(2) by (simp add: with_arg_keeps without_arg_keeps handler_keeps assms(1) del: insert_iff)

end

locale config_invariant = other_options +
  assumes inv_mode: "inv s \<Longrightarrow> inv (s\<lparr>jail_mode := m\<rparr>)"
begin

lemma mode_keeps: "keeps inv (opt_mode m)"
  by (auto simp: opt_mode_def inv_mode split: option.split)

lemma option_keeps:
  assumes "\<And>f. keeps inv (conf f)"
  shows "keeps inv (run_option w dotjail conf name a)"
proof (cases "name \<in> {''-m'', ''--mode''}")
  case True
  then show ?thesis unfolding run_option_def by (simp add: with_arg_keeps mode_keeps)
next
  case False
  with assms show ?thesis by (rule other_option_keeps)
qed

end

text \<open>With the cached directory descriptors.\<close>

locale config_dir_invariant = config_invariant +
  assumes inv_home_fd: "inv s \<Longrightarrow> inv (s\<lparr>home_fd := b\<rparr>)"
    and inv_home_jaim_fd: "inv s \<Longrightarrow> inv (s\<lparr>home_jaim_fd := b\<rparr>)"
begin

lemma check_user_keeps: "keeps inv (check_user u p)"
  by (simp add: keeps_def check_user_def)

lemma home_keeps: "keeps inv (home w)"
proof -
  have "keeps inv (bind_s (check_user u p) (\<lambda>_. update_s (\<lambda>s. s\<lparr>home_fd := True\<rparr>)))" for u p
    by (intro keeps_bind keeps_update check_user_keeps inv_home_fd)
  then show ?thesis by (simp add: keeps_def home_def split: sum.split prod.split)
qed

lemma home_jaim_keeps: "keeps inv (home_jaim w create)"
proof -
  have upd: "keeps inv (bind_s (check_user u p) (\<lambda>_. update_s (\<lambda>s. s\<lparr>home_jaim_fd := True\<rparr>)))"
    for u p by (intro keeps_bind keeps_update check_user_keeps inv_home_jaim_fd)
  have "keeps inv (bind_s (home w) (\<lambda>_ s.
          if create then
            (case w_ensure_udir w (homejaimpath s) of
               Some e \<Rightarrow> (Inl e, s) | None \<Rightarrow> (Inr (), s\<lparr>home_jaim_fd := True\<rparr>))
          else
            case w_open_dir w (homejaimpath s) of
              Inr (owner, p) \<Rightarrow>
                bind_s (check_user owner p) (\<lambda>_. update_s (\<lambda>s. s\<lparr>home_jaim_fd := True\<rparr>)) s
            | Inl errno \<Rightarrow>
                (Inl (if errno = ENOENT then missing_config_dir w s
                      else SysError errno (homejaimpath s)), s)))"
    by (intro keeps_bind home_keeps)
       (use upd in \<open>simp add: keeps_def inv_home_jaim_fd split: option.split sum.split prod.split\<close>)
  then show ?thesis by (simp add: keeps_def home_jaim_def)
qed

lemma conf_name_keeps: "keeps inv (conf_name w f)"
  by (auto simp: conf_name_def intro!: keeps_bind home_jaim_keeps)

end

text \<open>With the state that parsing a file changes and restores: an invariant of every file.\<close>

locale config_file_invariant = config_dir_invariant +
  assumes inv_enter: "inv s \<Longrightarrow>
          inv (s\<lparr>config_loop_detect := os_insert path_less p (config_loop_detect s),
                 parsing_config_file := b\<rparr>)"
    and inv_leave: "inv s \<Longrightarrow>
          inv (s\<lparr>config_loop_detect := om_erase path_less p (config_loop_detect s),
                 parsing_config_file := b\<rparr>)"
begin

lemma parse_config_fd_keeps:
  assumes "\<And>txt ld. keeps inv (go txt ld)"
  shows "keeps inv (parse_config_fd go cf)"
proof -
  have "keeps inv (bind_s (lift_s r) (\<lambda>txt. go txt ld))" for r ld
    using assms by (intro keeps_bind) auto
  then show ?thesis
    by (simp add: keeps_def parse_config_fd_def Let_def inv_enter inv_leave case_prod_beta
        split: sum.split)
qed

lemma parse_config_file_keeps:
  assumes "\<And>txt ld. keeps inv (go txt ld)"
  shows "keeps inv (parse_config_file w go f)"
proof -
  have "keeps inv (bind_s (conf_name w f) (\<lambda>name.
         bind_s (if fromcwd then return_s () else home_jaim w False) (\<lambda>_.
           case w_open_conf w fromcwd name of
             Inl errno \<Rightarrow>
               if errno = ENOENT then return_s False else throw_s (SysError errno name)
           | Inr cf \<Rightarrow> bind_s (parse_config_fd go cf) (\<lambda>_. return_s True))))" for fromcwd
    using assms
    by (auto intro!: keeps_bind conf_name_keeps home_jaim_keeps parse_config_fd_keeps
        split: sum.split)
  then show ?thesis by (simp add: keeps_def parse_config_file_def Let_def)
qed

lemma include_keeps: "keeps inv (include_conf n w dotjail f)"
proof (induction n arbitrary: f)
  case (Suc n)
  have "option_actions (run_option w dotjail (include_conf n w dotjail)) inv"
    by unfold_locales (rule option_keeps [OF Suc])
  then show ?case by (simp add: parse_config_file_keeps option_actions.file_keeps)
qed simp

lemma action_keeps: "keeps inv (conf_action n w dotjail name a)"
  by (simp add: conf_action_def option_keeps include_keeps)

end

interpretation wf: config_file_invariant config_wf dotjail for dotjail
  by unfold_locales
     (simp_all add: wf_grant_directories wf_grant_files wf_jail wf_mask wf_unsetenv wf_setenv
        wf_keepenv wf_files)

interpretation wf_actions: option_actions "conf_action n w dotjail" config_wf for n w dotjail
  by unfold_locales (rule wf.action_keeps)

text \<open>A \<open>.jail\<close> file cannot rename the jail.\<close>

interpretation jail_name: config_file_invariant "\<lambda>s. sandbox_name s = x" True for x
  by unfold_locales simp_all

interpretation jail_name_actions: option_actions "conf_action n w True" "\<lambda>s. sandbox_name s = x"
  for n w x
  by unfold_locales (rule jail_name.action_keeps)

text \<open>Options that are not files leave the parsing state alone.\<close>

interpretation parsing: config_dir_invariant "\<lambda>s. parsing_state s = v" dotjail for v dotjail
  by unfold_locales simp_all

text \<open>Only one option changes the mode.\<close>

interpretation mode_choice: other_options "\<lambda>s. jail_mode s = v" dotjail for v dotjail
  by unfold_locales simp_all

end
