(* ===== verification/Options_Facts.thy ===== *)
theory Options_Facts
  imports Options
begin

text \<open>
  What the option parser guarantees: scanning calls every callback with a legal arity and
  stops at the first positional argument, completion enumerates the options with a given
  prefix, and a configuration-file line is the long command-line option it abbreviates.
\<close>

section \<open>Scanning a command line\<close>

definition positional_kind :: "scan_kind \<Rightarrow> bool" where
  "positional_kind k = (k = kPositionalHere \<or> k = kPositionalNext)"

definition runnable_kind :: "scan_kind \<Rightarrow> bool" where
  "runnable_kind k = (k = kOption \<or> k = kOptionArg)"

text \<open>The items before the last one are runnable; none is a positional marker.\<close>

fun scan_ok :: "actions \<Rightarrow> scan_item list \<Rightarrow> bool" where
  "scan_ok acts [] = True"
| "scan_ok acts (it # its) =
     (item_ok acts it \<and> \<not> positional_kind (si_kind it) \<and>
      (its \<noteq> [] \<longrightarrow> runnable_kind (si_kind it)) \<and> scan_ok acts its)"

lemma scan_ok_mem: "scan_ok acts s \<Longrightarrow> it \<in> set s \<Longrightarrow> item_ok acts it \<and> \<not> positional_kind (si_kind it)"
  by (induction s) auto

lemma scan_ok_butlast: "scan_ok acts s \<Longrightarrow> it \<in> set (butlast s) \<Longrightarrow> runnable_kind (si_kind it)"
  by (induction s) (auto split: if_splits)

lemma scan_loop_ok:
  "scan_loop acts n i args = (s, p) \<Longrightarrow> i + length args = n \<Longrightarrow> scan_ok acts s \<and> p \<le> n"
  and scan_items_ok:
  "scan_items acts n i rest its = (s, p) \<Longrightarrow> i + 1 + length rest = n \<Longrightarrow>
     \<forall>it \<in> set its. item_ok acts it \<Longrightarrow> scan_ok acts s \<and> p \<le> n"
proof (induction acts n i args and acts n i rest its arbitrary: s p and s p
    rule: scan_loop_scan_items.induct)
  case (2 acts n i a rest)
  then show ?case by (auto dest: scan_arg_ok)
next
  case (4 acts n i rest it its)
  show ?case
  proof (cases "si_kind it")
    case kNeedNextArg
    show ?thesis
    proof (cases rest)
      case Nil
      with 4 kNeedNextArg show ?thesis by (auto simp: positional_kind_def)
    next
      case (Cons b rest')
      obtain s' p' where r: "scan_items acts n (i + 1) rest' its = (s', p')" by fastforce
      with 4(3) [OF kNeedNextArg Cons r] 4(4,5,6) kNeedNextArg Cons show ?thesis
        by (auto simp: positional_kind_def runnable_kind_def item_ok_def)
    qed
  next
    case kOption
    obtain s' p' where r: "scan_items acts n i rest its = (s', p')" by fastforce
    with 4(1) [OF kOption r] 4(4,5,6) kOption show ?thesis
      by (auto simp: positional_kind_def runnable_kind_def)
  next
    case kOptionArg
    obtain s' p' where r: "scan_items acts n i rest its = (s', p')" by fastforce
    with 4(2) [OF kOptionArg r] 4(4,5,6) kOptionArg show ?thesis
      by (auto simp: positional_kind_def runnable_kind_def)
  qed (use 4 in \<open>auto simp: positional_kind_def\<close>)
qed auto

lemma scan_args_ok: "scan_args acts args = (s, p) \<Longrightarrow> scan_ok acts s \<and> p \<le> length args"
  unfolding scan_args_def using scan_loop_ok [of acts "length args" 0 args s p] by simp

text \<open>C33: Scanning never yields a positional marker, calls a callback without an argument only
  if its option may stand alone and with an argument only if it takes one, reports errors in the
  last item only, and returns an index inside the argument vector; so the \<open>unreachable\<close> of
  \<open>parse_argspan\<close> and the arity exceptions of \<open>ActionImpl\<close> cannot occur.\<close>

theorem scan_args_arity_sound:
  "case scan_args acts args of (s, p) \<Rightarrow>
     p \<le> length args \<and>
     list_all (\<lambda>it. item_ok acts it \<and> si_kind it \<noteq> kPositionalHere \<and> si_kind it \<noteq> kPositionalNext) s \<and>
     list_all (\<lambda>it. si_kind it = kOption \<or> si_kind it = kOptionArg) (butlast s)"
  using scan_args_ok [of acts args] scan_ok_mem scan_ok_butlast
  by (fastforce simp: list_all_iff positional_kind_def runnable_kind_def)

section \<open>Completing an option name\<close>

text \<open>In a sorted table the names with a given prefix are adjacent, from the lower bound on.\<close>

lemma str_less_prefix: "prefix pre name \<Longrightarrow> \<not> str_less name pre"
proof (induction pre arbitrary: name)
  case Nil
  then show ?case by (cases name) (auto simp: str_less_def)
next
  case (Cons c pre)
  then show ?case by (cases name) (auto simp: str_less_def char_order.irrefl)
qed

lemma str_less_not_prefix:
  "\<not> str_less name pre \<Longrightarrow> \<not> prefix pre name \<Longrightarrow> str_less name name' \<Longrightarrow> \<not> prefix pre name'"
proof (induction pre arbitrary: name name')
  case (Cons c pre)
  show ?case
  proof (cases name')
    case Nil
    then show ?thesis by simp
  next
    case name': (Cons d ds)
    show ?thesis
    proof (cases name)
      case Nil
      with Cons.prems show ?thesis by (simp add: str_less_def)
    next
      case name: (Cons e es)
      have ih: "\<not> str_less es pre \<Longrightarrow> \<not> prefix pre es \<Longrightarrow> str_less es ds \<Longrightarrow> \<not> prefix pre ds"
        by (rule Cons.IH)
      show ?thesis
      proof
        assume p: "prefix (c # pre) name'"
        then have d: "d = c" "prefix pre ds" using name' by auto
        with Cons.prems(3) name name' have "char_less e c \<or> \<not> char_less c e \<and> str_less es ds"
          by (simp add: str_less_def)
        moreover have "\<not> char_less e c" and "\<not> char_less c e \<longrightarrow> \<not> str_less es pre"
          using Cons.prems(1) name by (auto simp: str_less_def)
        ultimately have "e = c" "str_less es ds" "\<not> str_less es pre"
          using char_order.total by auto
        with ih Cons.prems(2) name d show False by auto
      qed
    qed
  qed
qed simp

lemma sorted_prefix_run:
  assumes "om_sorted str_less acts"
  shows "takeWhile (\<lambda>(name, _). prefix pre name) (dropWhile (\<lambda>(name, _). str_less name pre) acts) =
         filter (\<lambda>(name, _). prefix pre name) acts"
  using assms
proof (induction acts)
  case (Cons a acts)
  obtain name ha where a: "a = (name, ha)" by (cases a)
  have below: "\<forall>(n, h) \<in> set acts. str_less name n" and srt: "om_sorted str_less acts"
    using Cons.prems a by (auto simp: str_order.sorted_Cons)
  consider (lt) "str_less name pre" | (pre) "prefix pre name" "\<not> str_less name pre"
    | (past) "\<not> str_less name pre" "\<not> prefix pre name" by blast
  then show ?case
  proof cases
    case lt
    then have "\<not> prefix pre name" using str_less_prefix by blast
    with lt a Cons.IH [OF srt] show ?thesis by simp
  next
    case past
    with below have "\<forall>(n, h) \<in> set acts. \<not> prefix pre n"
      using str_less_not_prefix by fastforce
    then have "filter (\<lambda>(n, _). prefix pre n) acts = []" by (auto simp: filter_empty_conv)
    with past a show ?thesis by simp
  next
    case pre
    have "dropWhile (\<lambda>(n, _). str_less n pre) acts = acts"
    proof (cases acts)
      case (Cons b bs)
      with below pre(2) have "\<not> str_less (fst b) pre" using str_order.trans by fastforce
      with Cons show ?thesis by (cases b) simp
    qed simp
    with Cons.IH [OF srt] pre a show ?thesis by simp
  qed
qed simp

text \<open>C35: Completing an option name offers exactly the registered options that start with what
  was typed, in order, each followed by a blank, or by an equals sign when it is a long option
  with an optional argument: the walk from \<open>lower_bound\<close> misses none and adds none.\<close>

theorem complete_opts_exact:
  assumes "om_sorted str_less acts"
  shows "complete_opts acts pre =
    RawCompletions (map completion_text (filter (\<lambda>(name, _). prefix pre name) acts))"
  using sorted_prefix_run [OF assms] by (simp add: complete_opts_def)

theorem complete_opts_exact_witness:
  "complete_opts [(''--beta'', kNoArg), (''--dir'', kArg), (''--opt'', kOptArg), (''-a'', kNoArg)] ''--'' =
     RawCompletions [''--beta '', ''--dir '', ''--opt='']"
  by (subst complete_opts_exact)
     (simp_all add: om_sorted_def str_less_def char_less_def completion_text_def)

section \<open>A configuration line is a long option\<close>

text \<open>
  Writing a value so that the lexer reads it back: blanks, equals signs and backslashes
  are quoted, control characters are spelled with their letters.
\<close>

fun conf_quote :: "string \<Rightarrow> string" where
  "conf_quote [] = []"
| "conf_quote (c # cs) =
     (if c = NL then [BS, CHR ''n'']
      else if c = CR then [BS, CHR ''r'']
      else if c = TAB then [BS, CHR ''t'']
      else if c = CHR '' '' \<or> c = BS \<or> c = EQUALS then [BS, c]
      else [c]) @ conf_quote cs"

definition option_name :: "string \<Rightarrow> bool" where
  "option_name n = (n \<noteq> [] \<and> hd n \<noteq> CHR ''#'' \<and> list_all (\<lambda>c. \<not> is_wsnleq c) n)"

lemma lex_value_quote:
  "lex_value False le acc (conf_quote v @ NL # rest) =
     (acc @ v,
      if v = [] then le else last v \<in> {NL, CR, TAB, CHR '' '', BS, EQUALS},
      NL # rest)"
  by (induction v arbitrary: le acc) auto

lemma trim_end_keeps: "v \<noteq> [] \<Longrightarrow> \<not> is_wsnl (last v) \<Longrightarrow> trim_end v = v"
  by (cases v rule: rev_cases) (auto simp: trim_end_def)

lemma takeWhile_name:
  "list_all P n \<Longrightarrow> \<not> P c \<Longrightarrow> takeWhile P (n @ c # r) = n \<and> dropWhile P (n @ c # r) = c # r"
  by (induction n) auto

lemma conf_quote_head:
  "v \<noteq> [] \<Longrightarrow> \<exists>c r. conf_quote v @ t = c # r \<and> \<not> is_wsnleq c"
  by (cases v) (auto simp: is_wsnleq_def is_wsnl_def is_ws_def)

text \<open>A directive with a value: its name, then blanks or an equals sign, then the value.\<close>

lemma lex_directive_value:
  assumes n: "option_name n" and t: "t \<noteq> []" "is_wsnleq (hd t)"
    and r: "r = dropWhile is_ws t" "r \<noteq> []" "hd r \<noteq> NL"
  shows "lex_directive (n @ t) =
     (let (v, le, r') =
        lex_value False False (''--'' @ n @ (if hd r \<noteq> EQUALS then [EQUALS] else [])) r
      in (Some (if le then v else trim_end v), r'))"
proof -
  obtain h n' where h: "n = h # n'" "\<not> is_wsnl h" "h \<noteq> CHR ''#''"
    using n by (cases n) (auto simp: option_name_def is_wsnleq_def)
  obtain c t' where ct: "t = c # t'" using t by (cases t) auto
  have tw: "takeWhile (\<lambda>c. \<not> is_wsnleq c) (n @ t) = n"
    "dropWhile (\<lambda>c. \<not> is_wsnleq c) (n @ t) = t"
    using takeWhile_name [of "\<lambda>c. \<not> is_wsnleq c" n c t'] n t ct by (auto simp: option_name_def)
  have lead: "dropWhile is_wsnl (n @ t) = n @ t" "n @ t \<noteq> []" "hd (n @ t) \<noteq> CHR ''#''"
    using h by simp_all
  show ?thesis
    unfolding lex_directive_def lead(1) Let_def tw r(1) [symmetric]
    using lead(2,3) r(2,3) t(1) by (simp del: lex_value.simps)
qed

lemma lex_directive_space:
  assumes n: "option_name n" and v: "v \<noteq> []"
  shows "lex_directive (n @ '' '' @ conf_quote v @ NL # rest) =
           (Some (''--'' @ n @ ''='' @ v), NL # rest)"
proof -
  obtain c r where cr: "conf_quote v @ NL # rest = c # r" "\<not> is_wsnleq c"
    using conf_quote_head [OF v] by blast
  have skip: "c # r = dropWhile is_ws ('' '' @ c # r)" "c \<noteq> NL" "c \<noteq> EQUALS"
    using cr(2) by (auto simp: is_wsnleq_def is_wsnl_def is_ws_def)
  have trim: "trim_end (''--'' @ n @ ''='' @ v) = ''--'' @ n @ ''='' @ v"
    if "last v \<notin> {NL, CR, TAB, CHR '' '', BS, EQUALS}"
    using that v by (intro trim_end_keeps) (auto simp: is_wsnl_def is_ws_def)
  have "lex_directive (n @ '' '' @ c # r) =
      (let (w, le, r') = lex_value False False (''--'' @ n @ [EQUALS]) (c # r)
       in (Some (if le then w else trim_end w), r'))"
    using lex_directive_value [OF n _ _ skip(1)] skip
    by (simp add: is_wsnleq_def is_wsnl_def is_ws_def del: lex_value.simps)
  then show ?thesis
    using trim v by (simp add: lex_value_quote cr(1) [symmetric] del: lex_value.simps)
qed

lemma lex_directive_equals:
  assumes n: "option_name n"
  shows "lex_directive (n @ ''='' @ conf_quote v @ NL # rest) =
           (Some (''--'' @ n @ ''='' @ v), NL # rest)"
proof -
  have trim: "trim_end (''--'' @ n @ ''='' @ v) = ''--'' @ n @ ''='' @ v"
    if "v = [] \<or> last v \<notin> {NL, CR, TAB, CHR '' '', BS, EQUALS}"
    using that by (cases "v = []"; intro trim_end_keeps) (auto simp: is_wsnl_def is_ws_def)
  have "lex_directive (n @ EQUALS # conf_quote v @ NL # rest) =
      (let (w, le, r') = lex_value False False (''--'' @ n @ [EQUALS]) (conf_quote v @ NL # rest)
       in (Some (if le then w else trim_end w), r'))"
    using lex_directive_value [OF n, of "EQUALS # conf_quote v @ NL # rest"
        "EQUALS # conf_quote v @ NL # rest"]
    by (simp add: is_wsnleq_def is_wsnl_def is_ws_def)
  then show ?thesis
    using trim lex_value_quote [of False "''--'' @ n @ [EQUALS]" v rest]
    by (cases "v = []") (simp_all del: lex_value.simps)
qed

lemma catch_no_path [simp]: "catch_s (locate_error [] t r) m = m"
proof -
  have "locate_error [] t r e = e" for e by (cases e) (auto simp: locate_error_def)
  then show ?thesis
    by (auto simp: catch_s_def fun_eq_iff split: prod.splits sum.splits)
qed

lemma parse_loop_blank: "parse_loop run acts errpath t [NL] = return_s ()"
  by (simp add: parse_loop.simps [of _ _ _ _ "[NL]"] parse_loop.simps [of _ _ _ _ "[]"]
      lex_directive_def is_wsnl_def)

lemma parse_file_one_line:
  assumes "lex_directive s = (Some optarg, [NL])" and "s \<noteq> []"
  shows "parse_file run acts s [] =
           bind_s (parse_argspan run acts [optarg]) (\<lambda>_. return_s ())"
  unfolding parse_file_def parse_loop.simps [of _ _ _ _ s] using assms
  by (simp add: parse_loop_blank)

text \<open>C30: A configuration line \<open>name value\<close> or \<open>name=value\<close>, its value quoted, does exactly
  what the long command-line option \<open>--name=value\<close> does: the same callbacks with the same
  argument, the same effects and the same error.  The lexer gives back every byte of the value.\<close>

theorem config_line_is_long_option:
  assumes "option_name n" and "sep = '' '' \<and> v \<noteq> [] \<or> sep = ''=''"
  shows "parse_file run acts (n @ sep @ conf_quote v @ [NL]) [] =
           bind_s (parse_argspan run acts [''--'' @ n @ ''='' @ v]) (\<lambda>_. return_s ())"
  using assms lex_directive_space [of n v "[]"] lex_directive_equals [of n v "[]"]
  by (intro parse_file_one_line) (auto simp: option_name_def)

theorem config_line_is_long_option_witness:
  "parse_file (\<lambda>n a s. (Inr (), s @ [(n, a)])) [(''--mask'', kArg)]
     (''mask'' @ '' '' @ conf_quote ''Application Support'' @ [NL]) [] [] =
   (Inr (), [(''--mask'', Some ''Application Support'')])"
  by (subst config_line_is_long_option)
     (simp_all add: option_name_def is_wsnleq_def is_wsnl_def is_ws_def parse_argspan_def
        scan_args_def scan_arg_def scan_long_def before_char_def after_char_def
        exec_item_def bind_s_def return_s_def str_less_def char_order.irrefl)

lemma count_list_take: "count_list (take k t) c \<le> count_list t c"
  by (metis append_take_drop_id count_list_append le_add1)

lemma parse_loop_located:
  "parse_loop run acts errpath t rest s = (Inl e, s') \<Longrightarrow> errpath \<noteq> [] \<Longrightarrow> is_option_error e \<Longrightarrow>
   \<exists>line m. e = OptionError (errpath @ '':'' @ show_nat line @ '': '' @ m) \<and>
     1 \<le> line \<and> line \<le> count_list t NL + 1"
proof (induction run acts errpath t rest arbitrary: s rule: parse_loop.induct)
  case (1 run acts errpath t rest)
  obtain d r where d: "lex_directive rest = (d, r)" by fastforce
  show ?case
  proof (cases "rest = []")
    case True
    with 1(3) show ?thesis by (simp add: parse_loop.simps return_s_def)
  next
    case ne: False
    show ?thesis
    proof (cases d)
      case None
      with 1 d ne show ?thesis by (simp add: parse_loop.simps [of _ _ _ _ rest])
    next
      case (Some optarg)
      obtain x s1 where p: "parse_argspan run acts [optarg] s = (x, s1)" by fastforce
      show ?thesis
      proof (cases x)
        case (Inl e0)
        with 1(3) p d ne Some have "e = locate_error errpath t r e0"
          by (simp add: parse_loop.simps [of _ _ _ _ rest] bind_s_def catch_s_def)
        with 1(4,5) show ?thesis
          using count_list_take [of "length t - length r" t NL]
          by (cases e0) (auto simp: locate_error_def)
      next
        case (Inr u)
        with 1(3) p d ne Some have "parse_loop run acts errpath t r s1 = (Inl e, s')"
          by (simp add: parse_loop.simps [of _ _ _ _ rest] bind_s_def catch_s_def)
        with 1(2) [OF ne d [symmetric] Some] 1(4,5) show ?thesis using d Some by auto
      qed
    qed
  qed
qed

text \<open>C34: An option error raised while a named configuration file is parsed is reported as
  \<open>file:line: message\<close>, with a line number inside the file.\<close>

theorem parse_file_error_located:
  assumes "parse_file run acts t errpath s = (Inl e, s')" and "errpath \<noteq> []"
    and "is_option_error e"
  shows "\<exists>line m. e = OptionError (errpath @ '':'' @ show_nat line @ '': '' @ m) \<and>
           1 \<le> line \<and> line \<le> count_list t NL + 1"
  using assms unfolding parse_file_def by (rule parse_loop_located)

theorem parse_file_error_located_witness:
  "parse_file (\<lambda>n a. return_s ()) [] (''# x'' @ [NL] @ ''bad'') ''f'' () =
     (Inl (OptionError ''f:2: unknown option --bad''), ()) \<and>
   (\<exists>line m. OptionError ''f:2: unknown option --bad'' =
        OptionError (''f'' @ '':'' @ show_nat line @ '': '' @ m) \<and>
      1 \<le> line \<and> line \<le> count_list (''# x'' @ [NL] @ ''bad'') NL + 1)"
proof -
  have run: "parse_file (\<lambda>n a. return_s ()) [] (''# x'' @ [NL] @ ''bad'') ''f'' () =
     (Inl (OptionError ''f:2: unknown option --bad''), ())"
    by (simp add: parse_file_def parse_loop.simps lex_directive_def is_wsnl_def is_ws_def
        is_wsnleq_def parse_argspan_def scan_args_def scan_arg_def scan_long_def before_char_def
        exec_item_def bind_s_def throw_s_def catch_s_def locate_error_def show_nat_2 Let_def)
  show ?thesis using run parse_file_error_located [OF run] by simp
qed

section \<open>Errors that parsing cannot raise\<close>

text \<open>
  A client whose actions never raise a \<open>bad\<close> error when they are called with the arity
  they registered: then parsing never raises one.
\<close>

locale checked_actions = option_actions +
  fixes acts :: actions
    and bad :: "error \<Rightarrow> bool"
  assumes option_error: "\<not> bad (OptionError m)"
    and plain_ok: "action_of acts name \<in> {Some kNoArg, Some kOptArg} \<Longrightarrow> inv s \<Longrightarrow>
          fst (run name None s) = Inl e \<Longrightarrow> \<not> bad e"
    and arg_ok: "action_of acts name \<in> {Some kArg, Some kOptArg} \<Longrightarrow> inv s \<Longrightarrow>
          fst (run name (Some x) s) = Inl e \<Longrightarrow> \<not> bad e"
begin

lemma item_not_bad:
  assumes "item_ok acts it" and "\<not> positional_kind (si_kind it)" and "inv s"
    and "fst (exec_item run it s) = Inl e"
  shows "\<not> bad e"
proof (cases "si_kind it")
  case kOption
  with assms plain_ok [of "si_opt it" s e] show ?thesis by (simp add: item_ok_def exec_item_def)
next
  case kOptionArg
  with assms arg_ok [of "si_opt it" s "si_arg it" e] show ?thesis
    by (simp add: item_ok_def exec_item_def)
qed (use assms in \<open>auto simp: exec_item_def throw_s_def option_error positional_kind_def\<close>)

lemma items_not_bad:
  "(\<And>it. it \<in> set its \<Longrightarrow> item_ok acts it \<and> \<not> positional_kind (si_kind it)) \<Longrightarrow> inv s \<Longrightarrow>
   fst (exec_items run its s) = Inl e \<Longrightarrow> \<not> bad e"
proof (induction its arbitrary: s)
  case Nil
  then show ?case by (simp add: return_s_def)
next
  case (Cons it its)
  obtain r t where m: "exec_item run it s = (r, t)" by fastforce
  have t: "inv t" using keepsD [OF exec_item_keeps Cons.prems(2), of it] by (simp add: m)
  show ?case
  proof (cases r)
    case (Inl e')
    with m Cons.prems item_not_bad [of it s e'] show ?thesis by (simp add: bind_s_def)
  next
    case (Inr u)
    with m Cons.prems Cons.IH [OF _ t] show ?thesis by (simp add: bind_s_def)
  qed
qed

lemma argspan_not_bad:
  assumes "inv s" and "fst (parse_argspan run acts args s) = Inl e"
  shows "\<not> bad e"
proof -
  obtain scan p where sc: "scan_args acts args = (scan, p)" by fastforce
  with assms(2) have "fst (exec_items run scan s) = Inl e"
    by (auto simp: parse_argspan_def bind_s_def return_s_def split: prod.splits sum.splits)
  then show ?thesis
    using items_not_bad [of scan s e] scan_ok_mem scan_args_ok [OF sc] assms(1) by blast
qed

lemma loop_not_bad:
  "inv s \<Longrightarrow> fst (parse_loop run acts errpath t rest s) = Inl e \<Longrightarrow> \<not> bad e"
proof (induction "length rest" arbitrary: rest s rule: less_induct)
  case less
  obtain d r where d: "lex_directive rest = (d, r)" by fastforce
  show ?case
  proof (cases "rest = []")
    case True
    with less.prems show ?thesis by (simp add: parse_loop.simps return_s_def)
  next
    case ne: False
    have ih: "inv s \<Longrightarrow> fst (parse_loop run acts errpath t r s) = Inl e \<Longrightarrow> \<not> bad e" for s
      using lex_directive_shorter [OF d ne] by (rule less.hyps)
    show ?thesis
    proof (cases d)
      case None
      with d ne less.prems ih show ?thesis by (simp add: parse_loop.simps [of _ _ _ _ rest])
    next
      case (Some optarg)
      obtain x s1 where p: "parse_argspan run acts [optarg] s = (x, s1)" by fastforce
      have s1: "inv s1" using keepsD [OF argspan_keeps less.prems(1)] p by (metis snd_conv)
      show ?thesis
      proof (cases x)
        case (Inl e0)
        with p d ne Some less.prems have e: "e = locate_error errpath t r e0"
          by (simp add: parse_loop.simps [of _ _ _ _ rest] bind_s_def catch_s_def)
        have "\<not> bad e0" using argspan_not_bad [OF less.prems(1), of "[optarg]" e0] p Inl by simp
        with e show ?thesis by (cases e0) (auto simp: locate_error_def option_error)
      next
        case (Inr u)
        with p d ne Some less.prems have "fst (parse_loop run acts errpath t r s1) = Inl e"
          by (simp add: parse_loop.simps [of _ _ _ _ rest] bind_s_def catch_s_def)
        with ih s1 show ?thesis by blast
      qed
    qed
  qed
qed

lemma file_not_bad: "inv s \<Longrightarrow> fst (parse_file run acts t errpath s) = Inl e \<Longrightarrow> \<not> bad e"
  unfolding parse_file_def by (rule loop_not_bad)

end

end
