(* ===== verification/Config_Inclusion.thy ===== *)
theory Config_Inclusion
  imports Config_Facts Options_Facts
begin

text \<open>
  Configuration files that include configuration files: the parsing state is restored when
  a file is left, and the loop detection bounds the depth of inclusion by the number of
  files there are, so that a run never gets stuck in \<open>conf\<close> directives.
\<close>

section \<open>Leaving a file restores the parsing state\<close>

lemma not_Some_unit: "x \<noteq> Some () \<longleftrightarrow> x = None"
  by (cases x) auto

lemma fd_restores:
  assumes go: "\<And>tx ld. keeps (\<lambda>s. parsing_state s = (os_insert path_less ld l, True)) (go tx ld)"
    and srt: "om_sorted path_less l"
  shows "keeps (\<lambda>s. parsing_state s = (l, b)) (parse_config_fd go cf)"
proof (rule keepsI)
  fix s assume s: "parsing_state s = (l, b)"
  show "parsing_state (snd (parse_config_fd go cf s)) = (l, b)"
  proof (cases "cf_path cf")
    case (Inl e)
    with s show ?thesis by (simp add: parse_config_fd_def)
  next
    case (Inr ld)
    define s1 where "s1 = s\<lparr>config_loop_detect := os_insert path_less ld l, parsing_config_file := True\<rparr>"
    have "keeps (\<lambda>s. parsing_state s = (os_insert path_less ld l, True))
            (bind_s (lift_s (cf_text cf)) (\<lambda>tx. go tx ld))"
      using go by auto
    then have "parsing_state (snd (bind_s (lift_s (cf_text cf)) (\<lambda>tx. go tx ld) s1)) =
                 (os_insert path_less ld l, True)"
      by (rule keepsD) (simp add: s1_def)
    with s Inr srt show ?thesis
      using path_order.erase_emplace [OF srt, of ld "()"]
      by (simp add: parse_config_fd_def Let_def case_prod_beta s1_def not_Some_unit)
  qed
qed

lemma file_restores:
  assumes "\<And>tx ld. keeps (\<lambda>s. parsing_state s = (os_insert path_less ld l, True)) (go tx ld)"
    and "om_sorted path_less l"
  shows "keeps (\<lambda>s. parsing_state s = (l, b)) (parse_config_file w go f)"
proof -
  have "keeps (\<lambda>s. parsing_state s = (l, b)) (bind_s (conf_name w f) (\<lambda>name.
         bind_s (if fromcwd then return_s () else home_jaim w False) (\<lambda>_.
           case w_open_conf w fromcwd name of
             Inl errno \<Rightarrow>
               if errno = ENOENT then return_s False else throw_s (SysError errno name)
           | Inr cf \<Rightarrow> bind_s (parse_config_fd go cf) (\<lambda>_. return_s True))))" for fromcwd
    using fd_restores [of l go, OF assms] parsing.conf_name_keeps parsing.home_jaim_keeps
    by (auto intro!: keeps_bind split: sum.split)
  then show ?thesis by (simp add: keeps_def parse_config_file_def Let_def)
qed

lemma include_restores:
  "om_sorted path_less l \<Longrightarrow> keeps (\<lambda>s. parsing_state s = (l, b)) (include_conf n w dotjail f)"
proof (induction n arbitrary: f l b)
  case (Suc n)
  have "keeps (\<lambda>s. parsing_state s = (os_insert path_less ld l, True))
          (parse_file (run_option w dotjail (include_conf n w dotjail)) acts tx ld)" for tx ld acts
    by (intro option_actions.file_keeps option_actions.intro parsing.option_keeps Suc.IH
        path_order.emplace_sorted Suc.prems)
  then show ?case
    unfolding include_conf.simps using Suc.prems by (rule file_restores)
qed simp

lemma action_restores:
  "om_sorted path_less l \<Longrightarrow> keeps (\<lambda>s. parsing_state s = (l, b)) (conf_action n w dotjail name a)"
  unfolding conf_action_def by (intro parsing.option_keeps include_restores)

lemma conf_text_restores:
  "om_sorted path_less l \<Longrightarrow> keeps (\<lambda>s. parsing_state s = (l, b)) (parse_conf_text n w dotjail t e)"
  unfolding parse_conf_text_def
  by (intro option_actions.file_keeps option_actions.intro action_restores)

section \<open>Inclusion ends\<close>

definition known_files :: "world \<Rightarrow> path list \<Rightarrow> bool" where
  "known_files w fs \<longleftrightarrow>
     (\<forall>c f cf ld. w_open_conf w c f = Inr cf \<longrightarrow> cf_path cf = Inr ld \<longrightarrow>
        path_iter ld \<in> path_iter ` set fs)"

text \<open>The files that are not being read.\<close>

definition remaining :: "path list \<Rightarrow> path oset \<Rightarrow> nat" where
  "remaining fs l = card (path_iter ` set fs - path_iter ` set (os_elems l))"

lemma emplace_new: "om_lookup lt k m = None \<Longrightarrow> set (om_emplace lt k v m) = insert (k, v) (set m)"
proof (induction m)
  case (Cons p m)
  then show ?case by (cases p) (auto split: if_splits)
qed simp

lemma remaining_insert:
  assumes "om_sorted path_less l" and new: "om_lookup path_less ld l = None"
    and "path_iter ld \<in> path_iter ` set fs"
  shows "remaining fs (os_insert path_less ld l) < remaining fs l"
proof -
  have "path_iter ld \<notin> path_iter ` set (os_elems l)"
    using path_mem_iff [OF assms(1), of ld] new by force
  moreover have "path_iter ` set (os_elems (os_insert path_less ld l)) =
                   insert (path_iter ld) (path_iter ` set (os_elems l))"
    using emplace_new [OF new, of "()"] by simp
  ultimately have "path_iter ` set fs - path_iter ` set (os_elems (os_insert path_less ld l)) \<subset>
                     path_iter ` set fs - path_iter ` set (os_elems l)"
    using assms(3) by auto
  then show ?thesis unfolding remaining_def by (intro psubset_card_mono) simp_all
qed

lemma bind_cong_state:
  "m s = m' s \<Longrightarrow> (\<And>a t. m' s = (Inr a, t) \<Longrightarrow> k a t = k' a t) \<Longrightarrow> bind_s m k s = bind_s m' k' s"
  by (auto simp: bind_s_def split: prod.split sum.split)

lemma run_option_same:
  assumes "\<And>f. conf f s = conf' f s"
  shows "run_option w dotjail conf name a s = run_option w dotjail conf' name a s"
proof -
  have "with_arg a (opt_conf conf) s = with_arg a (opt_conf conf') s"
    and "with_arg a (opt_conf_maybe conf) s = with_arg a (opt_conf_maybe conf') s"
    using assms
    by (auto simp: with_arg_def opt_conf_def opt_conf_maybe_def intro!: bind_cong_state
        split: option.split)
  then show ?thesis by (simp add: run_option_def)
qed

lemma fd_same:
  assumes "\<And>ld tx. cf_path cf = Inr ld \<Longrightarrow> om_lookup path_less ld (config_loop_detect s) = None \<Longrightarrow>
     go tx ld (s\<lparr>config_loop_detect := os_insert path_less ld (config_loop_detect s),
                  parsing_config_file := True\<rparr>) =
     go' tx ld (s\<lparr>config_loop_detect := os_insert path_less ld (config_loop_detect s),
                   parsing_config_file := True\<rparr>)"
  shows "parse_config_fd go cf s = parse_config_fd go' cf s"
  using assms
  by (cases "cf_path cf"; cases "cf_text cf")
     (auto simp: parse_config_fd_def bind_s_def lift_s_def Let_def not_Some_unit)

text \<open>Below the bound, more fuel changes nothing.\<close>

lemma include_fuel:
  assumes known: "known_files w fs"
  shows "om_sorted path_less (config_loop_detect s) \<Longrightarrow> remaining fs (config_loop_detect s) < n \<Longrightarrow>
         n \<le> m \<Longrightarrow> include_conf n w dotjail f s = include_conf m w dotjail f s"
proof (induction n arbitrary: m f s)
  case (Suc n)
  obtain m' where m: "m = Suc m'" "n \<le> m'" using Suc.prems(3) by (cases m) auto
  let ?run = "\<lambda>k. run_option w dotjail (include_conf k w dotjail)"
  let ?go = "\<lambda>k. parse_file (?run k) (opt_actions (opt_parser dotjail))"
  have go: "?go n tx ld t = ?go m' tx ld t"
    if l: "om_sorted path_less (config_loop_detect t)" "remaining fs (config_loop_detect t) < n"
    for tx ld t
  proof -
    let ?I = "\<lambda>u. parsing_state u = parsing_state t"
    have "option_actions (?run n) ?I"
      by (intro option_actions.intro parsing.option_keeps include_restores l)
    then show ?thesis
      by (rule option_actions.file_same)
         (use l m Suc.IH in \<open>auto intro!: run_option_same\<close>)
  qed
  have fd: "parse_config_fd (?go n) cf t = parse_config_fd (?go m') cf t"
    if t: "parsing_state t = parsing_state s" and cf: "w_open_conf w c name = Inr cf" for t cf c name
  proof (rule fd_same)
    fix ld tx
    assume ld: "cf_path cf = Inr ld" "om_lookup path_less ld (config_loop_detect t) = None"
    have "path_iter ld \<in> path_iter ` set fs"
      using known cf ld(1) unfolding known_files_def by blast
    then have "remaining fs (os_insert path_less ld (config_loop_detect t)) < n"
      using remaining_insert [of "config_loop_detect t" ld fs] ld(2) Suc.prems t by simp
    then show "?go n tx ld (t\<lparr>config_loop_detect := os_insert path_less ld (config_loop_detect t),
                  parsing_config_file := True\<rparr>) =
       ?go m' tx ld (t\<lparr>config_loop_detect := os_insert path_less ld (config_loop_detect t),
                  parsing_config_file := True\<rparr>)"
      using Suc.prems t by (intro go) (simp_all add: path_order.emplace_sorted)
  qed
  have inner: "bind_s (conf_name w f) (\<lambda>name.
         bind_s (if fromcwd then return_s () else home_jaim w False) (\<lambda>_.
           case w_open_conf w fromcwd name of
             Inl errno \<Rightarrow>
               if errno = ENOENT then return_s False else throw_s (SysError errno name)
           | Inr cf \<Rightarrow> bind_s (parse_config_fd (?go n) cf) (\<lambda>_. return_s True))) s =
       bind_s (conf_name w f) (\<lambda>name.
         bind_s (if fromcwd then return_s () else home_jaim w False) (\<lambda>_.
           case w_open_conf w fromcwd name of
             Inl errno \<Rightarrow>
               if errno = ENOENT then return_s False else throw_s (SysError errno name)
           | Inr cf \<Rightarrow> bind_s (parse_config_fd (?go m') cf) (\<lambda>_. return_s True))) s" for fromcwd
  proof (rule bind_cong_state [OF refl], rule bind_cong_state [OF refl])
    fix name t u v
    assume "conf_name w f s = (Inr name, t)"
      and d: "(if fromcwd then return_s () else home_jaim w False) t = (Inr v, u)"
    then have t: "parsing_state t = parsing_state s"
      using keepsD [OF parsing.conf_name_keeps [of "parsing_state s" w f], of s] by simp
    have kp: "keeps (\<lambda>x. parsing_state x = parsing_state s)
        (if fromcwd then return_s () else home_jaim w False)"
      by (cases fromcwd) (simp_all only: if_True if_False keeps_return parsing.home_jaim_keeps)
    have u: "parsing_state u = parsing_state s"
      using keepsD [OF kp t] unfolding d by simp
    show "(case w_open_conf w fromcwd name of
             Inl errno \<Rightarrow>
               if errno = ENOENT then return_s False else throw_s (SysError errno name)
           | Inr cf \<Rightarrow> bind_s (parse_config_fd (?go n) cf) (\<lambda>_. return_s True)) u =
          (case w_open_conf w fromcwd name of
             Inl errno \<Rightarrow>
               if errno = ENOENT then return_s False else throw_s (SysError errno name)
           | Inr cf \<Rightarrow> bind_s (parse_config_fd (?go m') cf) (\<lambda>_. return_s True)) u"
      using fd [OF u] by (auto split: sum.split intro!: bind_cong_state)
  qed
  show ?case by (simp add: m parse_config_file_def Let_def inner)
qed simp

lemma remaining_le: "remaining fs l \<le> card (path_iter ` set fs)"
  unfolding remaining_def by (rule card_mono) auto

section \<open>The tables of options\<close>

definition find_registration ::
    "(string list \<times> has_arg \<times> string \<times> string) list \<Rightarrow> string \<Rightarrow> has_arg option" where
  "find_registration regs name =
     map_option (\<lambda>(ns, ha, hs, vn). ha) (find (\<lambda>(ns, ha, hs, vn). name \<in> set ns) (rev regs))"

lemma lookup_names:
  "om_lookup str_less name (foldl (\<lambda>acts n. om_assign str_less n ha acts) acts ns) =
     (if name \<in> set ns then Some ha else om_lookup str_less name acts)"
  by (induction ns arbitrary: acts) (auto simp: str_order.lookup_assign)

lemma lookup_registrations:
  "action_of (opt_actions (fold add_registration regs tbl)) name =
     (case find_registration regs name of
        Some ha \<Rightarrow> Some ha | None \<Rightarrow> action_of (opt_actions tbl) name)"
proof (induction regs rule: rev_induct)
  case (snoc reg regs)
  obtain ns ha hs vn where reg: "reg = (ns, ha, hs, vn)" by (cases reg)
  from snoc show ?case
    by (simp add: reg add_registration_def register_opts_def lookup_names find_registration_def)
qed (simp add: find_registration_def)

text \<open>The option names of a configuration file, by arity.\<close>

definition arg_names :: "string list" where
  "arg_names =
     [''-m'', ''--mode'', ''-d'', ''--dir'', ''--dir!'', ''-r'', ''--rdir'', ''--rdir?'',
      ''-x'', ''--xdir'', ''-F'', ''--file'', ''--xfile'', ''-j'', ''--jail'', ''--conf'',
      ''--conf?'', ''--script'', ''--script?'', ''--initjail'', ''--initjail?'', ''--mask'',
      ''--unmask'', ''--unsetenv'', ''--setenv'', ''--command'', ''--storage'']"

definition noarg_names :: "string list" where
  "noarg_names = [''-D'', ''--nocwd'']"

lemma registrations_arity:
  "\<forall>(ns, ha, hs, vn) \<in> set (file_registrations @ [jail_registration dotjail] @ other_registrations).
     ha = kNoArg \<and> set ns \<subseteq> set noarg_names \<or> ha = kArg \<and> set ns \<subseteq> set arg_names"
  by (simp add: file_registrations_def jail_registration_def other_registrations_def
      arg_names_def noarg_names_def)

lemma parser_action_cases:
  assumes "action_of (opt_actions (opt_parser dotjail)) name = Some ha"
  shows "ha = kNoArg \<and> name \<in> set noarg_names \<or> ha = kArg \<and> name \<in> set arg_names"
proof -
  let ?regs = "file_registrations @ [jail_registration dotjail] @ other_registrations"
  have "find_registration ?regs name = Some ha"
    using assms unfolding opt_parser_def lookup_registrations by (simp split: option.splits)
  then obtain ns hs vn where "find (\<lambda>(ns, ha, hs, vn). name \<in> set ns) (rev ?regs) = Some (ns, ha, hs, vn)"
    by (auto simp: find_registration_def)
  then have "(ns, ha, hs, vn) \<in> set ?regs \<and> name \<in> set ns"
    by (metis (mono_tags, lifting) case_prod_conv find_Some_iff nth_mem set_rev)
  with registrations_arity [of dotjail] show ?thesis by fastforce
qed

section \<open>Errors that options do not raise\<close>

definition is_logic_error :: "error \<Rightarrow> bool" where
  "is_logic_error e = (case e of LogicError _ \<Rightarrow> True | _ \<Rightarrow> False)"

text \<open>The system's own answers are filesystem and system errors.\<close>

definition no_logic_answer :: "error + 'a \<Rightarrow> bool" where
  "no_logic_answer r = (case r of Inl e \<Rightarrow> \<not> is_logic_error e | Inr _ \<Rightarrow> True)"

definition system_errors_only :: "world \<Rightarrow> bool" where
  "system_errors_only w \<longleftrightarrow>
     (\<forall>p. no_logic_answer (w_canonical w p)) \<and> (\<forall>p. no_logic_answer (w_weakly_canonical w p)) \<and>
     (\<forall>p e. w_ensure_udir w p = Some e \<longrightarrow> \<not> is_logic_error e) \<and>
     (\<forall>c f cf. w_open_conf w c f = Inr cf \<longrightarrow>
        no_logic_answer (cf_path cf) \<and> no_logic_answer (cf_text cf))"

definition no_logic :: "('s, 'a) step \<Rightarrow> bool" where
  "no_logic m \<longleftrightarrow> (\<forall>s. no_logic_answer (fst (m s)))"

lemma no_logic_simps [simp]:
  "no_logic (return_s a)" "no_logic (update_s f)" "no_logic (get_s g)"
  "no_logic (throw_s e) \<longleftrightarrow> \<not> is_logic_error e"
  "no_logic (lift_s r) \<longleftrightarrow> no_logic_answer r"
  by (simp_all add: no_logic_def step_simps get_s_def no_logic_answer_def)

lemma no_logic_bind: "no_logic m \<Longrightarrow> (\<And>a. no_logic (k a)) \<Longrightarrow> no_logic (bind_s m k)"
  unfolding no_logic_def
proof (intro allI)
  fix s
  assume m: "\<forall>s. no_logic_answer (fst (m s))" and k: "\<And>a. \<forall>s. no_logic_answer (fst (k a s))"
  obtain r t where "m s = (r, t)" by fastforce
  moreover have "no_logic_answer r" using m calculation by (metis fst_conv)
  ultimately show "no_logic_answer (fst (bind_s m k s))"
    using k by (cases r) (simp_all add: bind_s_def no_logic_answer_def)
qed

lemma is_logic_error_simps [simp]:
  "is_logic_error (LogicError m)" "\<not> is_logic_error (OptionError m)"
  "\<not> is_logic_error (RuntimeError m)" "\<not> is_logic_error (SysError n m)"
  by (simp_all add: is_logic_error_def)

lemma no_logic_ignore [simp]: "no_logic (ignore_errors m)"
  by (simp add: no_logic_def ignore_errors_def no_logic_answer_def split: prod.split sum.split)

lemma no_logic_pointwise: "(\<And>x. no_logic (k x)) \<Longrightarrow> no_logic (\<lambda>s. k (f s) s)"
  by (simp add: no_logic_def)

end
