(* ===== verification/Config_Errors.thy ===== *)
theory Config_Errors
  imports Config_Inclusion
begin

text \<open>
  The logic errors of the option parser never happen while configurations are read: every
  callback is called with its arity and inclusion never runs out of its bound.
\<close>

lemma answer_simps [simp]:
  "no_logic_answer (Inr a)" "no_logic_answer (Inl e) \<longleftrightarrow> \<not> is_logic_error e"
  by (simp_all add: no_logic_answer_def)

lemma answer_Inl: "no_logic_answer r \<Longrightarrow> r = Inl e \<Longrightarrow> \<not> is_logic_error e"
  by simp

lemma no_logicD: "no_logic m \<Longrightarrow> no_logic_answer (fst (m s))"
  by (simp add: no_logic_def)

lemma no_logicI: "(\<And>s. no_logic_answer (fst (m s))) \<Longrightarrow> no_logic m"
  by (simp add: no_logic_def)

lemma answers:
  assumes "system_errors_only w"
  shows "no_logic_answer (w_canonical w p)" and "no_logic_answer (w_weakly_canonical w p)"
  using assms by (simp_all add: system_errors_only_def)

lemma no_logic_resolve: "(\<And>p. no_logic_answer (canon p)) \<Longrightarrow> no_logic (resolve_arg canon f)"
  by (simp add: no_logic_def resolve_arg_def)

lemma no_logic_warn [simp]: "no_logic (warn_override name)"
  by (simp add: no_logic_def warn_override_def warn_def update_s_def split: option.split)

lemma no_logic_cwd: "system_errors_only w \<Longrightarrow> no_logic (cwd w)"
  using answer_Inl [OF answers(1) [of w "w_current_path w"]]
  by (auto simp: no_logic_def cwd_def split: sum.split)

lemma no_logic_setenv [simp]: "no_logic (opt_setenv x)"
proof -
  have keep: "no_logic (opt_setenv_keep x)"
    by (simp add: no_logic_def opt_setenv_keep_def space_error_def split: option.split)
  have "no_logic_answer (fst (bind_s (warn_override n) (\<lambda>_. update_s g) s))" for n g s
    by (intro no_logicD no_logic_bind) simp_all
  then have "no_logic (opt_setenv_assign x)"
    by (simp add: opt_setenv_assign_def Let_def no_logic_def)
  with keep show ?thesis by (simp add: opt_setenv_def)
qed

lemma no_logic_storage: "system_errors_only w \<Longrightarrow> no_logic (opt_storage w x)"
proof -
  assume "system_errors_only w"
  then have "no_logic_answer (fst (bind_s (cwd w) (\<lambda>c. update_s (g c)) s))" for g s
    by (intro no_logicD no_logic_bind no_logic_cwd) simp_all
  then show ?thesis by (simp add: opt_storage_def no_logic_def update_s_def)
qed

lemma no_logic_handlers:
  assumes "system_errors_only w"
  shows "no_logic (opt_mode x)" "no_logic (opt_dir w x)" "no_logic (opt_dir_mkdir w x)"
    "no_logic (opt_rdir w x)" "no_logic (opt_rdir_maybe w x)" "no_logic (opt_xdir w x)"
    "no_logic (opt_file w x)" "no_logic (opt_xfile w x)" "no_logic opt_nocwd"
    "no_logic (opt_jail dotjail x)" "no_logic (opt_script w x)" "no_logic (opt_script_maybe w x)"
    "no_logic (opt_initjail w x)" "no_logic (opt_initjail_maybe w x)" "no_logic (opt_unsetenv x)"
    "no_logic (opt_command x)"
  using answers [OF assms]
  by (auto simp: opt_mode_def opt_dir_def opt_dir_mkdir_def opt_rdir_def opt_rdir_maybe_def
      opt_xdir_def opt_file_def opt_xfile_def opt_nocwd_def opt_jail_def opt_script_def
      opt_script_maybe_def opt_initjail_def opt_initjail_maybe_def opt_unsetenv_def
      opt_command_def access_error_def
      intro!: no_logic_bind no_logic_resolve split: option.split)

lemma no_logic_masks: "no_logic (opt_mask x)" "no_logic (opt_unmask x)"
  by (simp_all add: opt_mask_def opt_unmask_def no_logic_def throw_s_def update_s_def)

lemma conf_no_logic:
  assumes "\<And>f. no_logic_answer (fst (conf f s))"
  shows "no_logic_answer (fst (opt_conf conf x s))" "no_logic_answer (fst (opt_conf_maybe conf x s))"
proof -
  obtain r t where "conf (expand s x) s = (r, t)" by fastforce
  moreover have "no_logic_answer r" using assms [of "expand s x"] calculation by simp
  ultimately show "no_logic_answer (fst (opt_conf conf x s))"
    "no_logic_answer (fst (opt_conf_maybe conf x s))"
    by (cases r; simp add: opt_conf_def opt_conf_maybe_def bind_s_def throw_s_def return_s_def)+
qed

lemma run_option_no_logic:
  assumes w: "system_errors_only w" and conf: "\<And>f. no_logic_answer (fst (conf f s))"
  shows "name \<in> set arg_names \<Longrightarrow> no_logic_answer (fst (run_option w dotjail conf name (Some x) s))"
    and "name \<in> set noarg_names \<Longrightarrow> no_logic_answer (fst (run_option w dotjail conf name None s))"
proof -
  note h = no_logic_handlers [OF w, THEN no_logicD] no_logic_masks [THEN no_logicD]
    no_logic_setenv [THEN no_logicD] no_logic_storage [OF w, THEN no_logicD]
    conf_no_logic [of conf, OF conf]
  have "list_all (\<lambda>name. no_logic_answer (fst (run_option w dotjail conf name (Some x) s))) arg_names"
    by (simp add: arg_names_def run_option_def with_arg_def h)
  then show "name \<in> set arg_names \<Longrightarrow> no_logic_answer (fst (run_option w dotjail conf name (Some x) s))"
    by (simp add: list_all_iff)
  have "list_all (\<lambda>name. no_logic_answer (fst (run_option w dotjail conf name None s))) noarg_names"
    by (simp add: noarg_names_def run_option_def without_arg_def h)
  then show "name \<in> set noarg_names \<Longrightarrow> no_logic_answer (fst (run_option w dotjail conf name None s))"
    by (simp add: list_all_iff)
qed

text \<open>The files themselves.\<close>

lemma no_logic_check: "no_logic (check_user u p)"
  by (simp add: no_logic_def check_user_def)

lemma no_logic_home: "no_logic (home w)"
proof (rule no_logicI)
  fix s
  have "no_logic_answer (fst (bind_s (check_user u p) (\<lambda>_. update_s g) s))" for u p g
    by (intro no_logicD no_logic_bind no_logic_check) simp
  then show "no_logic_answer (fst (home w s))"
    by (simp add: home_def split: sum.split prod.split)
qed

lemma no_logic_home_jaim: "no_logic (home_jaim w False)"
proof -
  have cu: "no_logic_answer (fst (bind_s (check_user u p) (\<lambda>_. update_s g) s))" for u p g s
    by (intro no_logicD no_logic_bind no_logic_check) simp
  have "no_logic (bind_s (home w) (\<lambda>_ s.
          case w_open_dir w (homejaimpath s) of
            Inr (owner, p) \<Rightarrow>
              bind_s (check_user owner p) (\<lambda>_. update_s (\<lambda>s. s\<lparr>home_jaim_fd := True\<rparr>)) s
          | Inl errno \<Rightarrow>
              (Inl (if errno = ENOENT then missing_config_dir w s
                    else SysError errno (homejaimpath s)), s)))"
    by (intro no_logic_bind no_logic_home no_logicI)
       (simp add: cu missing_config_dir_def split: sum.split prod.split)
  then show ?thesis by (simp add: no_logic_def home_jaim_def)
qed

lemma no_logic_conf_name: "no_logic (conf_name w f)"
  by (auto simp: conf_name_def intro!: no_logic_bind no_logic_home_jaim)

lemma fd_no_logic:
  assumes "no_logic_answer (cf_path cf)" and "no_logic_answer (cf_text cf)"
    and "\<And>ld tx. cf_path cf = Inr ld \<Longrightarrow> om_lookup path_less ld (config_loop_detect s) = None \<Longrightarrow>
      no_logic_answer (fst (go tx ld
        (s\<lparr>config_loop_detect := os_insert path_less ld (config_loop_detect s),
           parsing_config_file := True\<rparr>)))"
  shows "no_logic_answer (fst (parse_config_fd go cf s))"
  using assms
  by (cases "cf_path cf"; cases "cf_text cf")
     (auto simp: parse_config_fd_def bind_s_def lift_s_def Let_def not_Some_unit case_prod_beta)

lemma file_no_logic:
  assumes w: "system_errors_only w"
    and go: "\<And>t c f cf. parsing_state t = parsing_state s \<Longrightarrow> w_open_conf w c f = Inr cf \<Longrightarrow>
      no_logic_answer (fst (parse_config_fd go cf t))"
  shows "no_logic_answer (fst (parse_config_file w go f s))"
proof -
  define c where "c = (components f > 1 \<and> \<not> parsing_config_file s)"
  obtain r t where n: "conf_name w f s = (r, t)" by fastforce
  have r: "no_logic_answer r" using no_logicD [OF no_logic_conf_name, of w f s] n by simp
  have t: "parsing_state t = parsing_state s"
    using keepsD [OF parsing.conf_name_keeps [of "parsing_state s" w f], of s] n by simp
  obtain d u where d: "(if c then return_s () else home_jaim w False) t = (d, u)" by fastforce
  have dl: "no_logic_answer d"
    using no_logicD [OF no_logic_home_jaim, of w t] d by (cases c) (auto simp: return_s_def)
  have kp: "keeps (\<lambda>x. parsing_state x = parsing_state s)
      (if c then return_s () else home_jaim w False)" for c
    by (cases c) (simp_all only: if_True if_False keeps_return parsing.home_jaim_keeps)
  have u: "parsing_state u = parsing_state s" using keepsD [OF kp [of c] t] unfolding d by simp
  have "no_logic_answer (fst (bind_s (parse_config_fd go cf) (\<lambda>_. return_s True) u))"
    if "w_open_conf w c name = Inr cf" for c name cf
    using go [OF u that]
    by (cases "parse_config_fd go cf u"; cases "fst (parse_config_fd go cf u)")
       (simp_all add: bind_s_def return_s_def)
  then have "no_logic_answer (fst ((case w_open_conf w c name of
             Inl errno \<Rightarrow>
               if errno = ENOENT then return_s False else throw_s (SysError errno name)
           | Inr cf \<Rightarrow> bind_s (parse_config_fd go cf) (\<lambda>_. return_s True)) u))" for name
    by (simp add: throw_s_def return_s_def split: sum.split)
  with n r d dl show ?thesis
    unfolding parse_config_file_def Let_def c_def [symmetric]
    by (cases r; cases d) (simp_all add: bind_s_Inr bind_s_Inl)
qed

section \<open>Inclusion raises no logic error\<close>

lemma include_no_logic:
  assumes w: "system_errors_only w" and known: "known_files w fs"
  shows "om_sorted path_less (config_loop_detect s) \<Longrightarrow> remaining fs (config_loop_detect s) < n \<Longrightarrow>
         no_logic_answer (fst (include_conf n w dotjail f s))"
proof (induction n arbitrary: f s)
  case (Suc n)
  let ?run = "run_option w dotjail (include_conf n w dotjail)"
  let ?acts = "opt_actions (opt_parser dotjail)"
  have go: "no_logic_answer (fst (parse_file ?run ?acts tx ld t))"
    if l: "om_sorted path_less (config_loop_detect t)" "remaining fs (config_loop_detect t) < n"
    for tx ld t
  proof -
    let ?I = "\<lambda>u. parsing_state u = parsing_state t"
    have conf: "no_logic_answer (fst (include_conf n w dotjail g u))" if "?I u" for g u
      using that l by (intro Suc.IH) simp_all
    note ok = run_option_no_logic [OF w, of "include_conf n w dotjail", OF conf]
    have "checked_actions ?run ?I ?acts is_logic_error"
    proof (intro checked_actions.intro option_actions.intro checked_actions_axioms.intro)
      show "keeps ?I (?run name a)" for name a
        by (intro parsing.option_keeps include_restores l)
      show "\<not> is_logic_error (OptionError m)" for m by simp
      show "\<not> is_logic_error e"
        if "action_of ?acts name \<in> {Some kNoArg, Some kOptArg}" and "?I u"
          and "fst (?run name None u) = Inl e" for name u e
        using ok(2) [OF that(2)] that parser_action_cases [of name dotjail] answer_Inl by blast
      show "\<not> is_logic_error e"
        if "action_of ?acts name \<in> {Some kArg, Some kOptArg}" and "?I u"
          and "fst (?run name (Some x) u) = Inl e" for name u e x
        using ok(1) [OF that(2)] that parser_action_cases [of name dotjail] answer_Inl by blast
    qed
    then have "fst (parse_file ?run ?acts tx ld t) = Inl e \<Longrightarrow> \<not> is_logic_error e" for e
      by (rule checked_actions.file_not_bad) simp
    then show ?thesis by (cases "fst (parse_file ?run ?acts tx ld t)") simp_all
  qed
  show ?case
    unfolding include_conf.simps
  proof (rule file_no_logic [OF w], rule fd_no_logic)
    fix t c g cf ld tx
    assume t: "parsing_state t = parsing_state s" and cf: "w_open_conf w c g = Inr cf"
    show "no_logic_answer (cf_path cf)" "no_logic_answer (cf_text cf)"
      using w cf unfolding system_errors_only_def by blast+
    assume ld: "cf_path cf = Inr ld" "om_lookup path_less ld (config_loop_detect t) = None"
    have "path_iter ld \<in> path_iter ` set fs"
      using known cf ld(1) unfolding known_files_def by blast
    then have "remaining fs (os_insert path_less ld (config_loop_detect t)) < n"
      using remaining_insert [of "config_loop_detect t" ld fs] ld(2) Suc.prems t by simp
    then show "no_logic_answer (fst (parse_file ?run ?acts tx ld
        (t\<lparr>config_loop_detect := os_insert path_less ld (config_loop_detect t),
           parsing_config_file := True\<rparr>)))"
      using Suc.prems t by (intro go) (simp_all add: path_order.emplace_sorted)
  qed
qed simp

text \<open>
  The options of the command line and of the files, with inclusion as deep as there are files
  left, are such actions: neither raises a logic error in a system without one.
\<close>

lemma option_restores:
  "om_sorted path_less (config_loop_detect s) \<Longrightarrow>
   parsing_state (snd (run_option w dotjail (include_conf n w dotjail) name a s)) = parsing_state s"
  by (rule keepsD [of "\<lambda>t. parsing_state t = parsing_state s"],
      rule parsing.option_keeps, rule include_restores) simp_all

interpretation logic_free: checked_actions "run_option w dotjail (include_conf n w dotjail)"
    "\<lambda>s. om_sorted path_less (config_loop_detect s) \<and> remaining fs (config_loop_detect s) < n"
    "opt_actions (opt_parser dotjail)"
    "\<lambda>e. is_logic_error e \<and> system_errors_only w \<and> known_files w fs" for w dotjail n fs
proof (unfold_locales, goal_cases)
  case (1 name a)
  show ?case by (rule keepsI) (use option_restores in \<open>fastforce simp: option_restores\<close>)
next
  case (3 name s e)
  then show ?case
    using run_option_no_logic(2) [of w "include_conf n w dotjail" s] include_no_logic
      parser_action_cases [of name dotjail] answer_Inl by blast
next
  case (4 name s x e)
  then show ?case
    using run_option_no_logic(1) [of w "include_conf n w dotjail" s] include_no_logic
      parser_action_cases [of name dotjail] answer_Inl by blast
qed simp

end
