(* ===== verification/Config_Theorems.thy ===== *)
theory Config_Theorems
  imports Config_Errors
begin

text \<open>
  The properties of configuration parsing, with a sample system to apply them to: an account
  with two configuration files that include each other.
\<close>

definition sample_account :: passwd where
  "sample_account = \<lparr>pw_name = ''u'', pw_uid = 501, pw_gid = 20, pw_dir = ''/Users/u'',
     pw_shell = ''/bin/zsh''\<rparr>"

definition sample_file :: "path \<Rightarrow> nat + conf_file" where
  "sample_file f =
     (if f = ''a.conf'' then
        Inr \<lparr>cf_path = Inr ''/Users/u/.jaim/a.conf'', cf_text = Inr ''conf b.conf''\<rparr>
      else if f = ''b.conf'' then
        Inr \<lparr>cf_path = Inr ''/Users/u/.jaim/b.conf'', cf_text = Inr ''conf a.conf''\<rparr>
      else Inl ENOENT)"

definition sample_world :: world where
  "sample_world =
     \<lparr>w_canonical = Inr, w_weakly_canonical = Inr, w_current_path = ''/Users/u/proj'',
      w_access_x = (\<lambda>p. None), w_strerror = (\<lambda>n. ''error''),
      w_stat_conf = (\<lambda>f. case sample_file f of Inl e \<Rightarrow> Inl e | Inr _ \<Rightarrow> Inr True),
      w_open_conf = (\<lambda>c f. sample_file f), w_open_dir = (\<lambda>p. Inr (501, p)),
      w_ensure_udir = (\<lambda>p. None), w_getuid = 501, w_getpwnam = (\<lambda>u. Some sample_account),
      w_getpwuid = (\<lambda>i. Some sample_account), w_prog = ''/usr/local/bin/jaim''\<rparr>"

definition sample_config :: config where
  "sample_config = (initial_config [''HOME=/Users/u''])
     \<lparr>homepath := ''/Users/u'', homejaimpath := ''/Users/u/.jaim'', user_uid := 501\<rparr>"

lemma sample_file_known:
  "sample_file f = Inr cf \<Longrightarrow> cf_path cf = Inr ld \<Longrightarrow>
   ld \<in> set [''/Users/u/.jaim/a.conf'', ''/Users/u/.jaim/b.conf'']"
  by (auto simp: sample_file_def split: if_splits)

lemma sample_known: "known_files sample_world [''/Users/u/.jaim/a.conf'', ''/Users/u/.jaim/b.conf'']"
  unfolding known_files_def sample_world_def using sample_file_known by auto

lemma sample_system_errors: "system_errors_only sample_world"
  by (auto simp: system_errors_only_def sample_world_def sample_file_def split: if_splits)

lemma sample_config_wf: "config_wf sample_config"
  by (simp add: config_wf_def sample_config_def initial_config_def om_sorted_def)

section \<open>Well-formed configurations\<close>

text \<open>C22: Whatever a configuration text says, and whether or not parsing it fails, the grants,
  masks and environment tables stay in key order (so that lookups, \<open>--xdir\<close>, \<open>--unmask\<close> and
  \<open>--setenv\<close> find their entries), every mask is a relative path, the jail's name is a single
  file name that does not start with a dot, and every environment entry is \<open>NAME=VALUE\<close> under
  its own name.\<close>

theorem configuration_stays_well_formed:
  assumes "config_wf s"
  shows "config_wf (snd (parse_conf_text n w dotjail t errpath s))"
  using keepsD [OF wf_actions.file_keeps assms] by (simp add: parse_conf_text_def)

theorem configuration_stays_well_formed_witness:
  "config_wf (snd (parse_conf_text 2 sample_world False (''mask /etc'' @ [NL] @ ''jail x'')
     ''c'' sample_config))"
  by (rule configuration_stays_well_formed [OF sample_config_wf])

text \<open>C32: A \<open>.jail\<close> file, and every file it includes, cannot change the name of the jail it
  configures.\<close>

theorem jail_file_cannot_rename:
  "sandbox_name (snd (parse_conf_text n w True t errpath s)) = sandbox_name s"
  using keepsD [OF jail_name_actions.file_keeps, of s "sandbox_name s"]
  by (simp add: parse_conf_text_def)

section \<open>Inclusion\<close>

text \<open>C31: Leaving a configuration file, normally or by an error at any depth of inclusion,
  restores the set of files being read and the flag that switches on variable expansion and
  home-relative paths: what follows on the command line is not read as if it were in the file.\<close>

theorem parsing_state_restored:
  assumes "om_sorted path_less (config_loop_detect s)"
  shows "config_loop_detect (snd (parse_config_fd (parse_conf_text n w dotjail) cf s)) =
           config_loop_detect s \<and>
         parsing_config_file (snd (parse_config_fd (parse_conf_text n w dotjail) cf s)) =
           parsing_config_file s"
proof -
  have "keeps (\<lambda>t. parsing_state t = parsing_state s) (parse_config_fd (parse_conf_text n w dotjail) cf)"
    by (intro fd_restores conf_text_restores path_order.emplace_sorted assms)
  then show ?thesis using keepsD by fastforce
qed

theorem parsing_state_restored_witness:
  "parsing_config_file (snd (parse_config_fd (parse_conf_text 3 sample_world False)
     \<lparr>cf_path = Inr ''/Users/u/.jaim/a.conf'', cf_text = Inr ''conf b.conf''\<rparr> sample_config)) = False"
  using parsing_state_restored [of sample_config 3 sample_world False
      "\<lparr>cf_path = Inr ''/Users/u/.jaim/a.conf'', cf_text = Inr ''conf b.conf''\<rparr>"]
  by (simp add: sample_config_def initial_config_def om_sorted_def)

text \<open>C23: Inclusion always ends: when the system has finitely many configuration files, no
  chain of \<open>conf\<close> directives is deeper than their number.  With one level more than that, the
  result does not depend on the levels to spare, and no logic error occurs: neither running out
  of levels nor calling an option with the wrong arity.\<close>

theorem inclusion_ends:
  assumes "system_errors_only w" and "known_files w fs"
    and "om_sorted path_less (config_loop_detect s)" and "length fs < n"
  shows "(\<forall>d. include_conf (n + d) w dotjail f s = include_conf n w dotjail f s) \<and>
         (\<forall>msg. fst (include_conf n w dotjail f s) \<noteq> Inl (LogicError msg))"
proof -
  have "card (path_iter ` set fs) \<le> length fs"
    by (metis card_length length_map set_map)
  with assms(4) remaining_le have r: "remaining fs (config_loop_detect s) < n"
    by (meson le_less_trans le_trans)
  show ?thesis
    using include_fuel [OF assms(2,3) r] include_no_logic [OF assms(1,2,3) r]
    by (metis answer_simps(2) is_logic_error_simps(1) le_add1)
qed

theorem inclusion_ends_witness:
  "(\<forall>d. include_conf (3 + d) sample_world False ''a.conf'' sample_config =
             include_conf 3 sample_world False ''a.conf'' sample_config) \<and>
   (\<forall>msg. fst (include_conf 3 sample_world False ''a.conf'' sample_config) \<noteq> Inl (LogicError msg))"
  by (rule inclusion_ends [OF sample_system_errors sample_known])
     (simp_all add: sample_config_def initial_config_def om_sorted_def)

end
