(* ===== verification/Environment.thy ===== *)
theory Environment
  imports Config_Theorems
begin

text \<open>
  The environment of the sandboxed command: \<open>Config::make_env\<close> of \<open>src/jaim.cc\<close>, which copies
  the process environment through the \<open>--unsetenv\<close> filter under the \<open>--setenv\<close> entries.
\<close>

section \<open>Operations\<close>

text \<open>The filter split into plain names and patterns, in the order of the set.\<close>

definition filter_vars :: "config \<Rightarrow> string oset" where
  "filter_vars s =
     fold (os_insert str_less) (filter (\<lambda>v. CHR ''*'' \<notin> set v) (os_elems (env_filter s))) []"

definition filter_patterns :: "config \<Rightarrow> string list" where
  "filter_patterns s = filter (\<lambda>v. CHR ''*'' \<in> set v) (os_elems (env_filter s))"

definition filtered :: "config \<Rightarrow> string \<Rightarrow> bool" where
  "filtered s var \<longleftrightarrow>
     os_mem str_less var (filter_vars s) \<or> list_ex (\<lambda>pat. glob pat var) (filter_patterns s)"

text \<open>One turn of the loop over \<open>environ\<close>.\<close>

definition import_var :: "config \<Rightarrow> string \<Rightarrow> (string \<times> string) list \<Rightarrow> (string \<times> string) list" where
  "import_var s e env =
     (if EQUALS \<notin> set e then env
      else let var = before_char EQUALS e in
           if filtered s var then env else om_emplace str_less var e env)"

definition make_env_map :: "config \<Rightarrow> (string \<times> string) list" where
  "make_env_map s = fold (import_var s) (environ s) (setenv_map s)"

text \<open>\<open>make_env\<close> updates \<open>setenv_\<close> and returns its values, without the final null.\<close>

definition make_env :: "string list cstep" where
  "make_env s = (Inr (map snd (make_env_map s)), s\<lparr>setenv_map := make_env_map s\<rparr>)"

section \<open>Facts\<close>

lemma filter_vars_mem: "os_mem str_less v (filter_vars s) \<longleftrightarrow>
    v \<in> set (os_elems (env_filter s)) \<and> CHR ''*'' \<notin> set v"
proof -
  have "os_mem str_less v (fold (os_insert str_less) xs m) \<longleftrightarrow> v \<in> set xs \<or> os_mem str_less v m"
    for xs m
    by (induction xs arbitrary: m) (auto simp: str_order.lookup_emplace)
  then show ?thesis by (auto simp: filter_vars_def)
qed

lemma filtered_iff:
  "filtered s var \<longleftrightarrow>
     (\<exists>pat \<in> set (os_elems (env_filter s)).
        if CHR ''*'' \<in> set pat then glob pat var else pat = var)"
  unfolding filtered_def filter_vars_mem filter_patterns_def list_ex_iff by (auto simp: image_iff)

lemma import_lookup:
  "om_lookup str_less var (import_var s e env) =
     (case om_lookup str_less var env of
        Some v \<Rightarrow> Some v
      | None \<Rightarrow> if EQUALS \<in> set e \<and> before_char EQUALS e = var \<and> \<not> filtered s var then Some e else None)"
  by (auto simp: import_var_def str_order.lookup_emplace Let_def split: option.split)

text \<open>The first unfiltered definition wins, after the \<open>--setenv\<close> entries.\<close>

lemma import_all_lookup:
  "om_lookup str_less var (fold (import_var s) es env) =
     (case om_lookup str_less var env of
        Some v \<Rightarrow> Some v
      | None \<Rightarrow> if filtered s var then None
                 else find (\<lambda>e. EQUALS \<in> set e \<and> before_char EQUALS e = var) es)"
proof (induction es arbitrary: env)
  case (Cons e es)
  then show ?case by (auto simp: import_lookup split: option.split)
qed (simp split: option.split)

lemma import_wf:
  "om_sorted str_less env \<Longrightarrow> \<forall>kv \<in> set env. env_entry_ok kv \<Longrightarrow>
   om_sorted str_less (import_var s e env) \<and> (\<forall>kv \<in> set (import_var s e env). env_entry_ok kv)"
proof -
  assume srt: "om_sorted str_less env" and ok: "\<forall>kv \<in> set env. env_entry_ok kv"
  have "env_entry_ok (before_char EQUALS e, e)" if "EQUALS \<in> set e"
    using before_after_char [OF that]
    by (auto simp: env_entry_ok_def prefix_def)
  then show ?thesis
    using srt ok str_order.emplace_set [of "before_char EQUALS e" e env]
    by (auto simp: import_var_def Let_def str_order.emplace_sorted)
qed

lemma import_all_wf:
  "om_sorted str_less env \<Longrightarrow> \<forall>kv \<in> set env. env_entry_ok kv \<Longrightarrow>
   om_sorted str_less (fold (import_var s) es env) \<and>
   (\<forall>kv \<in> set (fold (import_var s) es env). env_entry_ok kv)"
proof (induction es arbitrary: env)
  case (Cons e es)
  have "om_sorted str_less (import_var s e env)" "\<forall>kv \<in> set (import_var s e env). env_entry_ok kv"
    using import_wf [OF Cons.prems] by blast+
  then show ?case unfolding fold_simps by (rule Cons.IH)
qed simp

lemma make_env_map_wf:
  "config_wf s \<Longrightarrow> om_sorted str_less (make_env_map s) \<and> (\<forall>kv \<in> set (make_env_map s). env_entry_ok kv)"
  unfolding make_env_map_def config_wf_def by (intro import_all_wf) blast+

text \<open>A variable of the resulting environment is an entry of the map.\<close>

lemma env_entry_name: "env_entry_ok (k, v) \<Longrightarrow> before_char EQUALS v = k"
  by (auto simp: env_entry_ok_def prefix_def)

lemma make_env_defines:
  assumes "config_wf s"
  shows "e \<in> set (map snd (make_env_map s)) \<and> before_char EQUALS e = var \<longleftrightarrow>
           om_lookup str_less var (make_env_map s) = Some e"
  using make_env_map_wf [OF assms] env_entry_name
  by (force simp: str_order.lookup_mem)

section \<open>Properties\<close>

text \<open>C24: The environment handed to the command holds, for every variable name, exactly the
  \<open>--setenv\<close> entry of that name if there is one, and otherwise the first definition in the
  process environment, provided no \<open>--unsetenv\<close> entry covers the name (patterns with a star are
  matched, others are compared); there is no second definition of a name.\<close>

theorem make_env_exact:
  assumes "config_wf s" and "make_env s = (Inr env, s')"
  shows "e \<in> set env \<and> before_char EQUALS e = var \<longleftrightarrow>
    (case om_lookup str_less var (setenv_map s) of
       Some v \<Rightarrow> e = v
     | None \<Rightarrow>
         (\<forall>pat \<in> set (os_elems (env_filter s)).
            \<not> (if CHR ''*'' \<in> set pat then glob pat var else pat = var)) \<and>
         find (\<lambda>d. EQUALS \<in> set d \<and> before_char EQUALS d = var) (environ s) = Some e)"
proof -
  have "env = map snd (make_env_map s)" using assms(2) by (simp add: make_env_def)
  then have "e \<in> set env \<and> before_char EQUALS e = var \<longleftrightarrow>
               om_lookup str_less var (make_env_map s) = Some e"
    using make_env_defines [OF assms(1)] by simp
  moreover have "filtered s var \<longleftrightarrow> \<not> (\<forall>pat \<in> set (os_elems (env_filter s)).
            \<not> (if CHR ''*'' \<in> set pat then glob pat var else pat = var))"
    unfolding filtered_iff by blast
  ultimately show ?thesis
    unfolding make_env_map_def import_all_lookup by (auto split: option.split)
qed

theorem make_env_exact_witness:
  "\<not> (''AWS_TOKEN=x'' \<in> set (map snd (make_env_map
         (sample_config\<lparr>env_filter := [(''*_TOKEN'', ())], environ := [''AWS_TOKEN=x'', ''A=b'']\<rparr>)))
      \<and> before_char EQUALS ''AWS_TOKEN=x'' = ''AWS_TOKEN'')"
proof -
  let ?s = "sample_config\<lparr>env_filter := [(''*_TOKEN'', ())], environ := [''AWS_TOKEN=x'', ''A=b'']\<rparr>"
  have wf: "config_wf ?s"
    by (simp add: config_wf_def sample_config_def initial_config_def om_sorted_def)
  have "glob ''*_TOKEN'' ''AWS_TOKEN''" by code_simp
  then show ?thesis
    using make_env_exact [OF wf, of "map snd (make_env_map ?s)" _ "''AWS_TOKEN=x''" "''AWS_TOKEN''"]
    by (auto simp: make_env_def sample_config_def initial_config_def)
qed

lemma lookup_unset:
  assumes "config_wf s" and "glob pat var"
  shows "om_lookup str_less var (om_erase_if (\<lambda>name. glob pat name) (setenv_map s)) = None"
  using assms by (simp add: str_order.lookup_erase_if config_wf_def)

lemma assign_lookup:
  "opt_setenv_assign x s = (r, s') \<Longrightarrow>
   om_lookup str_less (before_char EQUALS x) (setenv_map s') =
     Some (before_char EQUALS x @ [EQUALS] @ expand s (after_char EQUALS x))"
  by (auto simp: opt_setenv_assign_def Let_def bind_s_def warn_override_def warn_def update_s_def
      str_order.lookup_assign split: if_splits option.splits)

lemma unsetenv_state:
  "snd (opt_unsetenv pat s) =
     s\<lparr>setenv_map := om_erase_if (\<lambda>name. glob pat name) (setenv_map s),
       env_filter := os_insert str_less pat (env_filter s)\<rparr>"
  by (simp add: opt_unsetenv_def update_s_def)

text \<open>C25: Right after \<open>--unsetenv PATTERN\<close> the environment that \<open>make_env\<close> builds has no definition
  of a name that the pattern covers, neither one inherited from the process environment nor one set
  by an earlier \<open>--setenv\<close>.  (Whether the command is started with this environment is another matter:
  a program that is found along \<open>PATH\<close> is not, see \<open>path_lookup_ignores_environment\<close>.)\<close>

theorem unsetenv_strips:
  assumes "config_wf s" and "glob pat var" and "CHR ''*'' \<in> set pat \<or> pat = var"
    and "make_env (snd (opt_unsetenv pat s)) = (Inr env, s')" and "e \<in> set env"
  shows "before_char EQUALS e \<noteq> var"
proof
  assume var: "before_char EQUALS e = var"
  let ?s = "snd (opt_unsetenv pat s)"
  have wf: "config_wf ?s" using keepsD [OF wf.unsetenv_keeps assms(1)] .
  have "pat \<in> set (os_elems (env_filter ?s))"
    using str_order.lookup_emplace [of pat pat "()" "env_filter s"] wf
    by (force simp: unsetenv_state config_wf_def str_order.lookup_mem)
  then have "filtered ?s var"
    unfolding filtered_iff using assms(2,3) by (intro bexI [of _ pat]) auto
  moreover have "om_lookup str_less var (setenv_map ?s) = None"
    using lookup_unset [OF assms(1,2)] by (simp add: unsetenv_state)
  ultimately have "om_lookup str_less var (make_env_map ?s) = None"
    by (simp add: make_env_map_def import_all_lookup)
  moreover have "env = map snd (make_env_map ?s)" using assms(4) by (simp add: make_env_def)
  ultimately show False using make_env_defines [OF wf, of e var] var assms(5) by simp
qed

theorem unsetenv_strips_witness:
  "\<exists>env s'. make_env (snd (opt_unsetenv ''AWS_*''
       (sample_config\<lparr>environ := [''AWS_TOKEN=x''], setenv_map := [(''AWS_TOKEN'', ''AWS_TOKEN=x'')]\<rparr>))) = (Inr env, s') \<and>
     ''AWS_TOKEN=x'' \<notin> set env"
proof -
  let ?s = "sample_config\<lparr>environ := [''AWS_TOKEN=x''], setenv_map := [(''AWS_TOKEN'', ''AWS_TOKEN=x'')]\<rparr>"
  have wf: "config_wf ?s"
    by (simp add: config_wf_def sample_config_def initial_config_def om_sorted_def env_entry_ok_def)
  have "glob ''AWS_*'' ''AWS_TOKEN''" by code_simp
  then show ?thesis
    using unsetenv_strips [OF wf, of "''AWS_*''" "''AWS_TOKEN''" _ _ "''AWS_TOKEN=x''"]
    by (fastforce simp: before_char_def make_env_def)
qed

text \<open>C26: Right after \<open>--setenv NAME=VALUE\<close> the environment that \<open>make_env\<close> builds has exactly one
  definition of the name, with the given value (its variables expanded inside a configuration file),
  whatever was unset before and whatever the process environment says.  (A program that is found
  along \<open>PATH\<close> is not started with this environment, see \<open>path_lookup_ignores_environment\<close>.)\<close>

theorem setenv_wins:
  assumes "config_wf s" and "EQUALS \<notin> set name"
    and "make_env (snd (opt_setenv (name @ [EQUALS] @ v) s)) = (Inr env, s')"
  shows "e \<in> set env \<and> before_char EQUALS e = name \<longleftrightarrow> e = name @ [EQUALS] @ expand s v"
proof -
  let ?s = "snd (opt_setenv (name @ [EQUALS] @ v) s)"
  have wf: "config_wf ?s" using keepsD [OF wf.setenv_keeps assms(1)] .
  obtain r where "opt_setenv_assign (name @ [EQUALS] @ v) s = (r, ?s)"
    by (cases "opt_setenv_assign (name @ [EQUALS] @ v) s") (auto simp: opt_setenv_def)
  from assign_lookup [OF this] assms(2)
  have "om_lookup str_less name (setenv_map ?s) = Some (name @ [EQUALS] @ expand s v)" by simp
  then have "om_lookup str_less name (make_env_map ?s) = Some (name @ [EQUALS] @ expand s v)"
    by (simp add: make_env_map_def import_all_lookup)
  moreover have "env = map snd (make_env_map ?s)" using assms(3) by (simp add: make_env_def)
  ultimately show ?thesis using make_env_defines [OF wf, of e name] by auto
qed

theorem setenv_wins_witness:
  "\<exists>env s'. make_env (snd (opt_setenv ''A=1''
      (sample_config\<lparr>environ := [''A=2''], env_filter := [(''A'', ())]\<rparr>))) = (Inr env, s') \<and> ''A=1'' \<in> set env"
proof -
  let ?s = "sample_config\<lparr>environ := [''A=2''], env_filter := [(''A'', ())]\<rparr>"
  have "config_wf ?s"
    by (simp add: config_wf_def sample_config_def initial_config_def om_sorted_def)
  from setenv_wins [OF this, of "''A''" "''1''" _ _ "''A=1''"] show ?thesis
    by (auto simp: expand_def sample_config_def initial_config_def before_char_def make_env_def)
qed

end
