(* ===== verification/Sandbox_Profile.thy ===== *)
theory Sandbox_Profile
  imports Config_Parser
begin

text \<open>
  The Seatbelt profile of a run: \<open>Config::generate_sandbox_profile\<close> and its helpers
  \<open>sbpl_escape\<close> and \<open>sbpl_regex_escape\<close> of \<open>src/jaim.cc\<close>, as the text the program builds.
  What the text denotes is the subject of \<open>Profile_Rules\<close>.
\<close>

section \<open>Escaping\<close>

fun sbpl_escape :: "string \<Rightarrow> string" where
  "sbpl_escape [] = []"
| "sbpl_escape (c # cs) =
     (if c = DQ \<or> c = BS then BS # c # sbpl_escape cs else c # sbpl_escape cs)"

definition regex_special :: "char \<Rightarrow> bool" where
  "regex_special c \<longleftrightarrow> c \<in> set (''.*+?^$()[]{}|'' @ [BS])"

fun sbpl_regex_escape :: "string \<Rightarrow> string" where
  "sbpl_regex_escape [] = []"
| "sbpl_regex_escape (c # cs) =
     (if regex_special c then BS # c # sbpl_regex_escape cs else c # sbpl_regex_escape cs)"

text \<open>The loops that quote a pattern for a regex literal.\<close>

fun quote_pattern :: "string \<Rightarrow> string" where
  "quote_pattern [] = []"
| "quote_pattern (c # cs) = (if c = DQ then BS # c # quote_pattern cs else c # quote_pattern cs)"

section \<open>Lines\<close>

definition ln :: "string \<Rightarrow> string" where "ln s = s @ [NL]"

definition dquote :: "string \<Rightarrow> string" where "dquote s = [DQ] @ s @ [DQ]"

text \<open>One-line rules without data: \<open>(allow op)\<close>, \<open>(allow op (target self))\<close>, \<open>(deny op)\<close>.\<close>

definition allow_line :: "string \<Rightarrow> string" where
  "allow_line rule = ln (''(allow '' @ rule @ '')'')"

definition allow_self_line :: "string \<Rightarrow> string" where
  "allow_self_line rule = ln (''(allow '' @ rule @ '' (target self))'')"

definition deny_line :: "string \<Rightarrow> string" where
  "deny_line rule = ln (''(deny '' @ rule @ '')'')"

definition allow_named_line :: "string \<Rightarrow> string \<Rightarrow> string \<Rightarrow> string" where
  "allow_named_line rule kind name = ln (''(allow '' @ rule @ '' ('' @ kind @ '' '' @ dquote name @ ''))'')"

text \<open>Process and Mach rules, lines 400 to 450.\<close>

definition process_lines :: string where
  "process_lines =
     ln ''(version 1)'' @
     deny_line ''default'' @ [NL] @
     allow_line ''process-exec*'' @
     allow_line ''process-fork'' @
     allow_self_line ''process-info-pidinfo'' @
     allow_self_line ''process-info-pidfdinfo'' @
     allow_line ''process-info-codesignature'' @
     deny_line ''process-info-listpids'' @
     deny_line ''process-info-pidinfo'' @
     deny_line ''process-info-pidfdinfo'' @
     allow_self_line ''signal'' @
     allow_line ''sysctl-read'' @ [NL] @
     allow_line ''mach-bootstrap'' @
     allow_named_line ''mach-register'' ''local-name-prefix'' [] @
     allow_self_line ''mach-task-name'' @
     allow_named_line ''mach-lookup'' ''xpc-service-name-prefix'' []"

definition mach_services :: "string list" where
  "mach_services =
     [''com.apple.analyticsd'', ''com.apple.analyticsd.messagetracer'', ''com.apple.appsleep'',
      ''com.apple.bsd.dirhelper'', ''com.apple.cfprefsd.agent'', ''com.apple.cfprefsd.daemon'',
      ''com.apple.coreservices.launchservicesd'', ''com.apple.diagnosticd'',
      ''com.apple.distributed_notifications@1v3'', ''com.apple.distributed_notifications@Uv3'',
      ''com.apple.logd'', ''com.apple.logd.events'', ''com.apple.ocspd'',
      ''com.apple.runningboard'', ''com.apple.secinitd'', ''com.apple.SecurityServer'',
      ''com.apple.system.DirectoryService.libinfo_v1'', ''com.apple.system.logger'',
      ''com.apple.system.notification_center'', ''com.apple.system.opendirectoryd.api'',
      ''com.apple.system.opendirectoryd.libinfo'', ''com.apple.system.opendirectoryd.membership'',
      ''com.apple.trustd'', ''com.apple.trustd.agent'', ''com.apple.xpc.activity.unmanaged'']"

definition filter_line :: "string \<Rightarrow> string \<Rightarrow> string" where
  "filter_line kind x = ln (''  ('' @ kind @ '' '' @ dquote x @ '')'')"

text \<open>The last filter of a block closes the rule on its own line.\<close>

fun block_lines :: "string \<Rightarrow> string list \<Rightarrow> string" where
  "block_lines kind [] = []"
| "block_lines kind [x] = ln (''  ('' @ kind @ '' '' @ dquote x @ ''))'')"
| "block_lines kind (x # xs) = filter_line kind x @ block_lines kind xs"

text \<open>The first line of a rule with its filters on lines of their own.\<close>

definition open_line :: "string \<Rightarrow> string" where
  "open_line rule = ln (''(allow '' @ rule)"

definition mach_lines :: string where
  "mach_lines = open_line ''mach-lookup'' @ block_lines ''global-name'' mach_services @ [NL]"

definition ipc_lines :: string where
  "ipc_lines =
     open_line ''ipc-posix-shm*'' @
     block_lines ''ipc-posix-name-prefix'' [''apple.shm.'', ''com.apple.''] @
     open_line ''ipc-posix-sem'' @
     block_lines ''ipc-posix-name-prefix'' [''apple.shm.'', ''com.apple.''] @
     allow_line ''iokit*'' @ [NL] @
     allow_line ''network*'' @ [NL] @
     allow_line ''pseudo-tty'' @ [NL]"

definition system_dirs :: "path list" where
  "system_dirs =
     [''/usr'', ''/bin'', ''/sbin'', ''/Library'', ''/System'', ''/etc'', ''/private/etc'',
      ''/private/var'', ''/dev'', ''/opt/homebrew'', ''/Applications'', ''/nix'']"

definition system_literals :: "path list" where
  "system_literals = [''/'', ''/private'', ''/tmp'', ''/var'']"

definition system_lines :: string where
  "system_lines =
     open_line ''file-read*'' @
     concat (map (filter_line ''subpath'') system_dirs) @
     block_lines ''literal'' system_literals @ [NL]"

definition tty_pattern :: string where "tty_pattern = ''^/dev/ttys[0-9]+$''"

definition device_lines :: string where
  "device_lines =
     allow_named_line ''file*'' ''literal'' ''/dev/null'' @
     allow_named_line ''file*'' ''literal'' ''/dev/tty'' @
     ln (''(allow file* (regex #'' @ dquote tty_pattern @ ''))'') @
     allow_named_line ''file*'' ''literal'' ''/dev/ptmx'' @ [NL]"

definition static_lines :: string where
  "static_lines = process_lines @ mach_lines @ ipc_lines @ system_lines @ device_lines"

text \<open>One-filter rules and the rule with the masks cut out.\<close>

definition subpath_rule :: "string \<Rightarrow> path \<Rightarrow> string" where
  "subpath_rule access p = ln (''(allow '' @ access @ '' (subpath '' @ dquote (sbpl_escape p) @ ''))'')"

definition literal_rule :: "string \<Rightarrow> string \<Rightarrow> string" where
  "literal_rule access escaped = ln (''(allow '' @ access @ '' (literal '' @ dquote escaped @ ''))'')"

definition regex_rule :: "string \<Rightarrow> string \<Rightarrow> string" where
  "regex_rule access pat =
     ln (''(allow '' @ access @ '' (regex #'' @ dquote (quote_pattern pat) @ ''))'')"

definition mask_lines :: "path \<Rightarrow> path list \<Rightarrow> string" where
  "mask_lines hp masks =
     concat (map (\<lambda>m. ln (''    (require-not (subpath '' @
                            dquote (sbpl_escape (path_append hp m)) @ ''))'')) masks)"

definition masked_rule :: "string \<Rightarrow> path \<Rightarrow> path \<Rightarrow> path list \<Rightarrow> string" where
  "masked_rule access base hp masks =
     open_line access @
     ln ''  (require-all'' @
     ln (''    (subpath '' @ dquote (sbpl_escape base) @ '')'') @
     mask_lines hp masks @
     ln ''  ))''"

section \<open>The mode's view of the home directory\<close>

definition emit_home_rule :: "string \<Rightarrow> path \<Rightarrow> path list \<Rightarrow> string" where
  "emit_home_rule access base masks =
     (if masks = [] then subpath_rule access base else masked_rule access base base masks)"

definition pub_pattern :: "path \<Rightarrow> string" where
  "pub_pattern ssh_base = ''^'' @ sbpl_regex_escape ssh_base @ ''/[^/]+'' @ [BS] @ ''.pub$''"

definition emit_ssh_carveouts :: "path \<Rightarrow> string" where
  "emit_ssh_carveouts ssh_base =
     (let ssh_str = sbpl_escape ssh_base in
      ln (''(allow file-read* (subpath '' @ dquote (ssh_str @ ''/agent'') @ ''))'') @
      literal_rule ''file-read*'' (ssh_str @ ''/known_hosts'') @
      literal_rule ''file-read*'' (ssh_str @ ''/known_hosts.old'') @
      regex_rule ''file-read*'' (pub_pattern ssh_base))"

definition casual_access :: "string cstep" where
  "casual_access s =
     (let masks = os_elems (mask_files s) in
      if overlay_mount s = [] then
        (Inl (LogicError ''generate_sandbox_profile: overlay_mount_ unset''), s)
      else
        (Inr (emit_home_rule ''file-read*'' (homepath s) masks @
              emit_home_rule ''file*'' (overlay_mount s) masks @ [NL] @
              (if os_mem path_less ''.ssh'' (mask_files s) then
                 emit_ssh_carveouts (path_append (homepath s) ''.ssh'') @
                 emit_ssh_carveouts (path_append (overlay_mount s) ''.ssh'') @ [NL]
               else [])), s))"

definition bare_access :: "string cstep" where
  "bare_access s =
     (if private_home s = [] then
        (Inl (LogicError ''generate_sandbox_profile: private_home_ unset''), s)
      else (Inr (subpath_rule ''file*'' (private_home s) @ [NL]), s))"

definition home_access :: "string cstep" where
  "home_access s =
     (case jail_mode s of
        kCasual \<Rightarrow> casual_access s
      | kBare \<Rightarrow> bare_access s
      | kStrict \<Rightarrow> (Inr [], s))"

section \<open>The working directory and the grants\<close>

definition refusal :: "path \<Rightarrow> path \<Rightarrow> error" where
  "refusal c masked =
     RuntimeError (''refusing to grant CWD access: '' @ c @ '' is inside masked path '' @ masked @
       ''.'' @ [NL] @ ''  Use -D/--nocwd to disable CWD access, or cd to a different directory.'')"

definition cwd_access :: "world \<Rightarrow> string cstep" where
  "cwd_access w s =
     (if \<not> grant_cwd s then (Inr [], s)
      else
        bind_s (cwd w) (\<lambda>c s.
          let masks = os_elems (mask_files s) in
          case find (\<lambda>m. path_contains (path_append (homepath s) m) c) masks of
            Some m \<Rightarrow> (Inl (refusal c (path_append (homepath s) m)), s)
          | None \<Rightarrow>
              (Inr (if masks = [] then subpath_rule ''file*'' c
                    else masked_rule ''file*'' c (homepath s) masks), s)) s)"

definition directory_rules :: "grants \<Rightarrow> string" where
  "directory_rules g =
     concat (map (\<lambda>(d, flags).
       if flags AND kGrantRO \<noteq> 0 then subpath_rule ''file-read*'' d else subpath_rule ''file*'' d) g)"

definition sibling_pattern :: "path \<Rightarrow> string" where
  "sibling_pattern f = ''^'' @ sbpl_regex_escape f @ [BS] @ ''..+$''"

definition file_rules :: "grants \<Rightarrow> string" where
  "file_rules g =
     concat (map (\<lambda>(f, flags).
       let access = if flags AND kGrantRO \<noteq> 0 then ''file-read*'' else ''file*''
       in literal_rule access (sbpl_escape f) @ regex_rule access (sibling_pattern f)) g)"

definition generate_sandbox_profile :: "world \<Rightarrow> string cstep" where
  "generate_sandbox_profile w s =
     (if private_tmp s = [] then
        (Inl (LogicError ''generate_sandbox_profile: private_tmp_ unset''), s)
      else
        bind_s home_access (\<lambda>home_text.
        bind_s (cwd_access w) (\<lambda>cwd_text s.
          (Inr (static_lines @ subpath_rule ''file*'' (private_tmp s) @ [NL] @
                home_text @ cwd_text @
                directory_rules (grant_directories s) @ file_rules (grant_files s)), s))) s)"

section \<open>Where the overlay lives\<close>

text \<open>\<open>overlay_state_dir\<close>: \<open>answer\<close> is the size and the text that \<open>confstr\<close> returned.\<close>

definition confstr_buffer :: nat where "confstr_buffer = 4096"

definition overlay_state_dir :: "nat \<Rightarrow> string \<Rightarrow> nat \<Rightarrow> error + path" where
  "overlay_state_dir n answer errno =
     (if n = 0 then Inl (SysError errno ''confstr(_CS_DARWIN_USER_CACHE_DIR)'')
      else if n > confstr_buffer then
        Inl (RuntimeError (''confstr(_CS_DARWIN_USER_CACHE_DIR) result too long ('' @ show_nat n @
                           '' bytes)''))
      else Inr (path_append answer ''jaim''))"

text \<open>\<open>find_overlay_helper\<close>: next to the program, then along \<open>PATH\<close>.\<close>

definition helper_candidate :: "path \<Rightarrow> path" where
  "helper_candidate dir = path_append dir ''jaim-overlay''"

definition helper_candidates :: "path \<Rightarrow> string option \<Rightarrow> path list" where
  "helper_candidates prg path_env =
     (if prg = [] then [] else [helper_candidate (parent_path prg)]) @
     (case path_env of
        None \<Rightarrow> []
      | Some pe \<Rightarrow> map helper_candidate (filter (\<lambda>d. d \<noteq> []) (split_on (CHR '':'') pe)))"

definition helper_missing :: error where
  "helper_missing =
     RuntimeError (''jaim-overlay helper not found (looked next to jaim and on PATH); '' @
       ''casual mode requires it '' @ EM_DASH @ '' install macFUSE 5.2+ and rebuild, or '' @
       ''use --mode=bare or --mode=strict'')"

definition find_overlay_helper :: "world \<Rightarrow> path cstep" where
  "find_overlay_helper w s =
     (case find (\<lambda>p. w_access_x w p = None)
             (helper_candidates (w_prog w) (getenv (environ s) ''PATH'')) of
        Some p \<Rightarrow> (w_weakly_canonical w p, s)
      | None \<Rightarrow> (Inl helper_missing, s))"

end
