(* ===== verification/Profile_Rules.thy ===== *)
theory Profile_Rules
  imports Sandbox_Profile
begin

text \<open>
  What a profile denotes.  The text is read with the lexical rules its generator relies on:
  blanks, parentheses, atoms, strings in which a backslash quotes the next character, and
  regex literals \<open>#"..."\<close>, which are raw except that a quote is written with a backslash.
  The tokens are grouped into expressions.  The rules a configuration asks for are data
  (\<open>profile_rules\<close>), and reading the generated text gives exactly these rules.
\<close>

section \<open>Reading a profile\<close>

datatype token = LP | RP | Atom string | Str string | Rx string

datatype lex_state =
    Out | InAtom string | InStr string | InStrEsc string | InHash | InRx string | InRxEsc string

definition blank :: "char \<Rightarrow> bool" where
  "blank c \<longleftrightarrow> c = CHR '' '' \<or> c = NL \<or> c = TAB"

definition start_token :: "char \<Rightarrow> token list \<times> lex_state" where
  "start_token c =
     (if blank c then ([], Out)
      else if c = CHR ''('' then ([LP], Out)
      else if c = CHR '')'' then ([RP], Out)
      else if c = DQ then ([], InStr [])
      else if c = CHR ''#'' then ([], InHash)
      else ([], InAtom [c]))"

definition lex_char :: "lex_state \<Rightarrow> char \<Rightarrow> token list \<times> lex_state" where
  "lex_char st c =
     (case st of
        Out \<Rightarrow> start_token c
      | InAtom a \<Rightarrow>
          if blank c \<or> c = CHR ''('' \<or> c = CHR '')'' \<or> c = DQ
          then (let (ts, st') = start_token c in (Atom a # ts, st'))
          else ([], InAtom (a @ [c]))
      | InStr a \<Rightarrow>
          if c = DQ then ([Str a], Out)
          else if c = BS then ([], InStrEsc a)
          else ([], InStr (a @ [c]))
      | InStrEsc a \<Rightarrow> ([], InStr (a @ [c]))
      | InHash \<Rightarrow> if c = DQ then ([], InRx []) else ([], InAtom [CHR ''#'', c])
      | InRx a \<Rightarrow>
          if c = DQ then ([Rx a], Out)
          else if c = BS then ([], InRxEsc a)
          else ([], InRx (a @ [c]))
      | InRxEsc a \<Rightarrow> ([], InRx (if c = DQ then a @ [c] else a @ [BS, c])))"

fun lex :: "lex_state \<Rightarrow> string \<Rightarrow> token list \<times> lex_state" where
  "lex st [] = ([], st)"
| "lex st (c # cs) =
     (let (ts, st') = lex_char st c; (us, st'') = lex st' cs in (ts @ us, st''))"

datatype sexp = Leaf token | Node "sexp list"

text \<open>Grouping with a stack of the open lists, innermost first, each reversed.\<close>

fun group_tokens :: "sexp list list \<Rightarrow> token list \<Rightarrow> sexp list option" where
  "group_tokens [t0] [] = Some (rev t0)"
| "group_tokens stack [] = None"
| "group_tokens stack (LP # ts) = group_tokens ([] # stack) ts"
| "group_tokens (a # b # stack) (RP # ts) = group_tokens ((Node (rev a) # b) # stack) ts"
| "group_tokens stack (RP # ts) = None"
| "group_tokens (a # stack) (t # ts) = group_tokens ((Leaf t # a) # stack) ts"
| "group_tokens [] (t # ts) = None"

definition read_profile :: "string \<Rightarrow> sexp list option" where
  "read_profile s =
     (case lex Out s of (ts, st) \<Rightarrow> if st = Out then group_tokens [[]] ts else None)"

section \<open>Rules\<close>

datatype sb_filter =
    Subpath path | Literal path | Regex string | TargetSelf
  | LocalName string | XpcName string | GlobalName string | IpcName string
  | RequireNot sb_filter | RequireAll "sb_filter list"

datatype sb_rule =
    Version string | DenyDefault | Allow string "sb_filter list" | Deny string

fun filter_sexp :: "sb_filter \<Rightarrow> sexp" where
  "filter_sexp (Subpath p) = Node [Leaf (Atom ''subpath''), Leaf (Str p)]"
| "filter_sexp (Literal p) = Node [Leaf (Atom ''literal''), Leaf (Str p)]"
| "filter_sexp (Regex r) = Node [Leaf (Atom ''regex''), Leaf (Rx r)]"
| "filter_sexp TargetSelf = Node [Leaf (Atom ''target''), Leaf (Atom ''self'')]"
| "filter_sexp (LocalName n) = Node [Leaf (Atom ''local-name-prefix''), Leaf (Str n)]"
| "filter_sexp (XpcName n) = Node [Leaf (Atom ''xpc-service-name-prefix''), Leaf (Str n)]"
| "filter_sexp (GlobalName n) = Node [Leaf (Atom ''global-name''), Leaf (Str n)]"
| "filter_sexp (IpcName n) = Node [Leaf (Atom ''ipc-posix-name-prefix''), Leaf (Str n)]"
| "filter_sexp (RequireNot f) = Node [Leaf (Atom ''require-not''), filter_sexp f]"
| "filter_sexp (RequireAll fs) = Node (Leaf (Atom ''require-all'') # map filter_sexp fs)"

fun rule_sexp :: "sb_rule \<Rightarrow> sexp" where
  "rule_sexp (Version v) = Node [Leaf (Atom ''version''), Leaf (Atom v)]"
| "rule_sexp DenyDefault = Node [Leaf (Atom ''deny''), Leaf (Atom ''default'')]"
| "rule_sexp (Allow op fs) = Node (Leaf (Atom ''allow'') # Leaf (Atom op) # map filter_sexp fs)"
| "rule_sexp (Deny op) = Node [Leaf (Atom ''deny''), Leaf (Atom op)]"

fun flatten :: "sexp \<Rightarrow> token list" where
  "flatten (Leaf t) = [t]"
| "flatten (Node xs) = LP # concat (map flatten xs) @ [RP]"

section \<open>The rules of a configuration\<close>

definition process_rules :: "sb_rule list" where
  "process_rules =
     [Version ''1'', DenyDefault,
      Allow ''process-exec*'' [], Allow ''process-fork'' [],
      Allow ''process-info-pidinfo'' [TargetSelf], Allow ''process-info-pidfdinfo'' [TargetSelf],
      Allow ''process-info-codesignature'' [],
      Deny ''process-info-listpids'', Deny ''process-info-pidinfo'', Deny ''process-info-pidfdinfo'',
      Allow ''signal'' [TargetSelf], Allow ''sysctl-read'' [],
      Allow ''mach-bootstrap'' [], Allow ''mach-register'' [LocalName []],
      Allow ''mach-task-name'' [TargetSelf], Allow ''mach-lookup'' [XpcName []]]"

definition ipc_rules :: "sb_rule list" where
  "ipc_rules =
     [Allow ''ipc-posix-shm*'' [IpcName ''apple.shm.'', IpcName ''com.apple.''],
      Allow ''ipc-posix-sem'' [IpcName ''apple.shm.'', IpcName ''com.apple.''],
      Allow ''iokit*'' [], Allow ''network*'' [], Allow ''pseudo-tty'' []]"

definition device_rules :: "sb_rule list" where
  "device_rules =
     [Allow ''file*'' [Literal ''/dev/null''], Allow ''file*'' [Literal ''/dev/tty''],
      Allow ''file*'' [Regex tty_pattern], Allow ''file*'' [Literal ''/dev/ptmx'']]"

definition static_rules :: "sb_rule list" where
  "static_rules =
     process_rules @ [Allow ''mach-lookup'' (map GlobalName mach_services)] @ ipc_rules @
     [Allow ''file-read*'' (map Subpath system_dirs @ map Literal system_literals)] @ device_rules"

definition masked_filters :: "path \<Rightarrow> path \<Rightarrow> path list \<Rightarrow> sb_filter list" where
  "masked_filters base hp masks =
     (if masks = [] then [Subpath base]
      else [RequireAll (Subpath base # map (\<lambda>m. RequireNot (Subpath (path_append hp m))) masks)])"

definition carveout_rules :: "path \<Rightarrow> sb_rule list" where
  "carveout_rules base =
     [Allow ''file-read*'' [Subpath (base @ ''/agent'')],
      Allow ''file-read*'' [Literal (base @ ''/known_hosts'')],
      Allow ''file-read*'' [Literal (base @ ''/known_hosts.old'')],
      Allow ''file-read*'' [Regex (pub_pattern base)]]"

definition casual_rules :: "config \<Rightarrow> sb_rule list" where
  "casual_rules s =
     (let masks = os_elems (mask_files s) in
      [Allow ''file-read*'' (masked_filters (homepath s) (homepath s) masks),
       Allow ''file*'' (masked_filters (overlay_mount s) (overlay_mount s) masks)] @
      (if os_mem path_less ''.ssh'' (mask_files s) then
         carveout_rules (path_append (homepath s) ''.ssh'') @
         carveout_rules (path_append (overlay_mount s) ''.ssh'')
       else []))"

definition mode_rules :: "config \<Rightarrow> sb_rule list" where
  "mode_rules s =
     (case jail_mode s of
        kCasual \<Rightarrow> casual_rules s
      | kBare \<Rightarrow> [Allow ''file*'' [Subpath (private_home s)]]
      | kStrict \<Rightarrow> [])"

definition cwd_rules :: "config \<Rightarrow> sb_rule list" where
  "cwd_rules s =
     (if grant_cwd s
      then [Allow ''file*'' (masked_filters (cwd_path s) (homepath s) (os_elems (mask_files s)))]
      else [])"

definition access_of :: "cint \<Rightarrow> string" where
  "access_of flags = (if flags AND kGrantRO \<noteq> 0 then ''file-read*'' else ''file*'')"

definition grant_rules :: "config \<Rightarrow> sb_rule list" where
  "grant_rules s =
     map (\<lambda>(d, flags). Allow (access_of flags) [Subpath d]) (grant_directories s) @
     concat (map (\<lambda>(f, flags).
       [Allow (access_of flags) [Literal f], Allow (access_of flags) [Regex (sibling_pattern f)]])
       (grant_files s))"

definition profile_rules :: "config \<Rightarrow> sb_rule list" where
  "profile_rules s =
     static_rules @ [Allow ''file*'' [Subpath (private_tmp s)]] @
     mode_rules s @ cwd_rules s @ grant_rules s"

section \<open>Lexing in pieces\<close>

lemma lex_append:
  "lex st (a @ b) = (case lex st a of (ts, st') \<Rightarrow> case lex st' b of (us, st'') \<Rightarrow> (ts @ us, st''))"
  by (induction st a rule: lex.induct) (auto split: prod.split)

lemma lex_append_eq: "lex st a = (ts, st') \<Longrightarrow> lex st' b = (us, st'') \<Longrightarrow> lex st (a @ b) = (ts @ us, st'')"
  by (simp add: lex_append)

text \<open>A text that leaves the lexer where it was, with its tokens.\<close>

definition lexes :: "string \<Rightarrow> token list \<Rightarrow> bool" where
  "lexes s ts \<longleftrightarrow> lex Out s = (ts, Out)"

lemma lexes_append: "lexes a ts \<Longrightarrow> lexes b us \<Longrightarrow> lexes (a @ b) (ts @ us)"
  by (simp add: lexes_def lex_append)

lemma lexes_Nil: "lexes [] []"
  by (simp add: lexes_def)

lemma lexes_NL: "lexes [NL] []"
  by (simp add: lexes_def lex_char_def start_token_def blank_def)

lemma lexes_concat: "(\<And>x. x \<in> set xs \<Longrightarrow> lexes (f x) (g x)) \<Longrightarrow> lexes (concat (map f xs)) (concat (map g xs))"
  by (induction xs) (auto intro: lexes_append lexes_Nil)

lemma lex_escaped: "lex (InStr acc) (sbpl_escape p) = ([], InStr (acc @ p))"
  by (induction p arbitrary: acc) (auto simp: lex_char_def)

lemma lex_string: "lex Out (dquote (sbpl_escape p)) = ([Str p], Out)"
  unfolding dquote_def lex_append
  by (simp add: lex_append lex_escaped lex_char_def start_token_def blank_def)

text \<open>Patterns in which a backslash quotes the next character keep their text.\<close>

fun paired :: "string \<Rightarrow> bool" where
  "paired [] = True"
| "paired [c] = (c \<noteq> BS)"
| "paired (c # d # cs) = (if c = BS then d \<noteq> DQ \<and> paired cs else paired (d # cs))"

lemma paired_append: "paired a \<Longrightarrow> paired b \<Longrightarrow> paired (a @ b)"
proof (induction a rule: paired.induct)
  case (2 c)
  then show ?case by (cases b) auto
next
  case (3 c d cs)
  then show ?case by (auto split: if_splits)
qed simp

lemma paired_Cons: "c \<noteq> BS \<Longrightarrow> paired cs \<Longrightarrow> paired (c # cs)"
  by (cases cs) auto

lemma paired_regex_escape: "paired (sbpl_regex_escape s)"
proof (induction s)
  case (Cons c cs)
  then show ?case by (auto simp: regex_special_def intro!: paired_Cons)
qed simp

lemma lex_pattern: "paired p \<Longrightarrow> lex (InRx acc) (quote_pattern p) = ([], InRx (acc @ p))"
proof (induction p arbitrary: acc rule: paired.induct)
  case (3 c d cs)
  then show ?case by (auto simp: lex_char_def split: if_splits)
qed (auto simp: lex_char_def)

lemma lex_regex: "paired p \<Longrightarrow> lex InHash (dquote (quote_pattern p)) = ([Rx p], Out)"
  unfolding dquote_def by (simp add: lex_append lex_pattern lex_char_def)

section \<open>The text denotes the rules\<close>

abbreviation rule_tokens :: "sb_rule list \<Rightarrow> token list" where
  "rule_tokens rs \<equiv> concat (map (\<lambda>r. flatten (rule_sexp r)) rs)"

definition denotes :: "string \<Rightarrow> sb_rule list \<Rightarrow> bool" where
  "denotes s rs \<longleftrightarrow> lexes s (rule_tokens rs)"

text \<open>Evaluation of the lexer, one character at a time and without looking ahead.\<close>

definition emit :: "token \<Rightarrow> token list \<times> lex_state \<Rightarrow> token list \<times> lex_state" where
  "emit t r = (t # fst r, snd r)"

lemma emit_pair [simp]: "emit t (ts, st) = (t # ts, st)"
  by (simp add: emit_def)

lemma lex_Out: "lex Out (c # cs) =
    (if c = CHR '' '' \<or> c = NL then lex Out cs
     else if c = CHR ''('' then emit LP (lex Out cs)
     else if c = CHR '')'' then emit RP (lex Out cs)
     else if c = DQ then lex (InStr []) cs
     else if c = CHR ''#'' then lex InHash cs
     else if c = TAB then lex Out cs
     else lex (InAtom [c]) cs)"
  by (simp add: lex_char_def start_token_def blank_def emit_def split: prod.split)

lemma lex_InAtom: "lex (InAtom a) (c # cs) =
    (if c = CHR '' '' \<or> c = NL then emit (Atom a) (lex Out cs)
     else if c = CHR '')'' then emit (Atom a) (emit RP (lex Out cs))
     else if c = CHR ''('' then emit (Atom a) (emit LP (lex Out cs))
     else if c = DQ then emit (Atom a) (lex (InStr []) cs)
     else if c = TAB then emit (Atom a) (lex Out cs)
     else lex (InAtom (a @ [c])) cs)"
  by (simp add: lex_char_def start_token_def blank_def emit_def split: prod.split)

lemma lex_InStr: "lex (InStr a) (c # cs) =
    (if c = DQ then emit (Str a) (lex Out cs)
     else if c = BS then lex (InStrEsc a) cs
     else lex (InStr (a @ [c])) cs)"
  by (simp add: lex_char_def emit_def split: prod.split)

lemma lex_InHash: "lex InHash (DQ # cs) = lex (InRx []) cs"
  by (simp add: lex_char_def split: prod.split)

lemma lex_InRx: "lex (InRx a) (c # cs) =
    (if c = DQ then emit (Rx a) (lex Out cs)
     else if c = BS then lex (InRxEsc a) cs
     else lex (InRx (a @ [c])) cs)"
  by (simp add: lex_char_def emit_def split: prod.split)

lemmas lex_rules = lex.simps(1) lex_Out lex_InAtom lex_InStr lex_InHash lex_InRx

declare lex.simps(2) [simp del]

text \<open>Words: the names of operations and filters.\<close>

definition atom_char :: "char \<Rightarrow> bool" where
  "atom_char c \<longleftrightarrow> c \<notin> {CHR '' '', NL, TAB, CHR ''('', CHR '')'', DQ}"

definition atom_word :: "string \<Rightarrow> bool" where
  "atom_word w \<longleftrightarrow> w \<noteq> [] \<and> hd w \<noteq> CHR ''#'' \<and> list_all atom_char w"

lemma lex_InAtom_word: "list_all atom_char w \<Longrightarrow> lex (InAtom a) (w @ b) = lex (InAtom (a @ w)) b"
  by (induction w arbitrary: a) (auto simp: lex_InAtom atom_char_def)

lemma lex_word: "atom_word w \<Longrightarrow> lex Out (w @ b) = lex (InAtom w) b"
  by (cases w) (auto simp: atom_word_def lex_Out lex_InAtom_word atom_char_def)

lemma lex_quoted: "sbpl_escape x = x \<Longrightarrow> lex (InStr []) (x @ DQ # b) = emit (Str x) (lex Out b)"
  using lex_escaped [of "[]" x] by (simp add: lex_append lex_InStr emit_def split: prod.split)

lemma words:
  "atom_word ''allow''" "atom_word ''deny''" "atom_word ''target''" "atom_word ''self''"
  "atom_word ''default''" "atom_word ''process-exec*''" "atom_word ''process-fork''"
  "atom_word ''process-info-pidinfo''" "atom_word ''process-info-pidfdinfo''"
  "atom_word ''process-info-codesignature''" "atom_word ''process-info-listpids''"
  "atom_word ''signal''" "atom_word ''sysctl-read''" "atom_word ''mach-bootstrap''"
  "atom_word ''mach-register''" "atom_word ''local-name-prefix''" "atom_word ''mach-task-name''"
  "atom_word ''mach-lookup''" "atom_word ''xpc-service-name-prefix''" "atom_word ''global-name''"
  "atom_word ''ipc-posix-shm*''" "atom_word ''ipc-posix-sem''" "atom_word ''ipc-posix-name-prefix''"
  "atom_word ''iokit*''" "atom_word ''network*''" "atom_word ''pseudo-tty''"
  "atom_word ''file-read*''" "atom_word ''file*''" "atom_word ''subpath''" "atom_word ''literal''"
  by (simp_all add: atom_word_def atom_char_def)

lemma lexes_lines:
  assumes "atom_word a"
  shows "lexes (allow_line a) (rule_tokens [Allow a []])"
    and "lexes (deny_line a) [LP, Atom ''deny'', Atom a, RP]"
    and "lexes (allow_self_line a) (rule_tokens [Allow a [TargetSelf]])"
    and "lexes (open_line a) [LP, Atom ''allow'', Atom a]"
  using assms
  by (simp_all add: lexes_def allow_line_def deny_line_def allow_self_line_def open_line_def ln_def
      lex_rules lex_word)

lemma lexes_named:
  assumes "atom_word a" and "atom_word k" and "sbpl_escape x = x"
  shows "lexes (allow_named_line a k x)
           [LP, Atom ''allow'', Atom a, LP, Atom k, Str x, RP, RP]"
    and "lexes (filter_line k x) [LP, Atom k, Str x, RP]"
  using assms
  by (simp_all add: lexes_def allow_named_line_def filter_line_def ln_def dquote_def lex_rules
      lex_word lex_quoted del: lex_InStr)

lemma lexes_block:
  "atom_word k \<Longrightarrow> xs \<noteq> [] \<Longrightarrow> list_all (\<lambda>x. sbpl_escape x = x) xs \<Longrightarrow>
   lexes (block_lines k xs) (concat (map (\<lambda>x. [LP, Atom k, Str x, RP]) xs) @ [RP])"
proof (induction k xs rule: block_lines.induct)
  case (2 kind x)
  then show ?case
    by (simp add: lexes_def ln_def dquote_def lex_rules lex_word lex_quoted del: lex_InStr)
next
  case (3 kind x y ys)
  then show ?case
    using lexes_append [OF lexes_named(2) [of kind kind x]] by simp
qed simp

lemma denotes_append: "denotes a rs \<Longrightarrow> denotes b qs \<Longrightarrow> denotes (a @ b) (rs @ qs)"
  using lexes_append by (fastforce simp: denotes_def)

lemma denotes_Cons: "denotes a [r] \<Longrightarrow> denotes b qs \<Longrightarrow> denotes (a @ b) (r # qs)"
  using denotes_append [of a "[r]" b qs] by simp

lemma denotes_Nil: "denotes [] []"
  by (simp add: denotes_def lexes_Nil)

lemma denotes_blank: "denotes b rs \<Longrightarrow> denotes ([NL] @ b) rs"
  using lexes_append [OF lexes_NL] by (fastforce simp: denotes_def)

lemma denotes_NL: "denotes a rs \<Longrightarrow> denotes (a @ [NL]) rs"
  using lexes_append [OF _ lexes_NL] by (fastforce simp: denotes_def)

lemma denotes_end: "denotes [NL] []"
  by (simp add: denotes_def lexes_NL)

lemma denotes_concat:
  "(\<And>x. x \<in> set xs \<Longrightarrow> denotes (f x) (g x)) \<Longrightarrow> denotes (concat (map f xs)) (concat (map g xs))"
  by (induction xs) (auto intro: denotes_append denotes_Nil)

lemma denotes_version: "denotes (ln ''(version 1)'') [Version ''1'']"
  by (simp add: denotes_def lexes_def ln_def lex_rules)

lemma denotes_lines:
  assumes "atom_word a"
  shows "denotes (allow_line a) [Allow a []]"
    and "denotes (deny_line a) [Deny a]"
    and "denotes (allow_self_line a) [Allow a [TargetSelf]]"
  using lexes_lines [OF assms] by (simp_all add: denotes_def)

lemma denotes_deny_default: "denotes (deny_line ''default'') [DenyDefault]"
  using lexes_lines(2) [OF words(5)] by (simp add: denotes_def)

lemma denotes_named:
  assumes "atom_word a" and "sbpl_escape x = x"
  shows "denotes (allow_named_line a ''local-name-prefix'' x) [Allow a [LocalName x]]"
    and "denotes (allow_named_line a ''xpc-service-name-prefix'' x) [Allow a [XpcName x]]"
    and "denotes (allow_named_line a ''literal'' x) [Allow a [Literal x]]"
  using lexes_named(1) [OF assms(1) _ assms(2)] words by (simp_all add: denotes_def)

lemma denotes_process: "denotes process_lines process_rules"
  unfolding process_lines_def process_rules_def
  by (intro denotes_Cons denotes_blank denotes_deny_default denotes_version denotes_named
      denotes_lines words) simp_all

lemma denotes_block:
  assumes "atom_word a" and "atom_word k" and "xs \<noteq> []"
    and "list_all (\<lambda>x. sbpl_escape x = x) xs"
    and "\<And>x. flatten (filter_sexp (F x)) = [LP, Atom k, Str x, RP]"
  shows "denotes (open_line a @ block_lines k xs) [Allow a (map F xs)]"
  using lexes_append [OF lexes_lines(4) [OF assms(1)] lexes_block [OF assms(2,3,4)]] assms(5)
  by (simp add: denotes_def comp_def)

lemma denotes_mach: "denotes mach_lines [Allow ''mach-lookup'' (map GlobalName mach_services)]"
proof -
  have "denotes (open_line ''mach-lookup'' @ block_lines ''global-name'' mach_services)
          [Allow ''mach-lookup'' (map GlobalName mach_services)]"
    by (rule denotes_block) (simp_all add: words mach_services_def)
  from denotes_NL [OF this] show ?thesis by (simp add: mach_lines_def)
qed

lemma denotes_ipc_block:
  "atom_word a \<Longrightarrow>
   denotes (open_line a @ block_lines ''ipc-posix-name-prefix'' [''apple.shm.'', ''com.apple.''])
     [Allow a [IpcName ''apple.shm.'', IpcName ''com.apple.'']]"
  using denotes_block [of a "''ipc-posix-name-prefix''" "[''apple.shm.'', ''com.apple.'']" IpcName]
  by (simp add: words)

lemma denotes_ipc: "denotes ipc_lines ipc_rules"
proof -
  have eq: "ipc_lines =
      (open_line ''ipc-posix-shm*'' @
         block_lines ''ipc-posix-name-prefix'' [''apple.shm.'', ''com.apple.'']) @
      (open_line ''ipc-posix-sem'' @
         block_lines ''ipc-posix-name-prefix'' [''apple.shm.'', ''com.apple.'']) @
      allow_line ''iokit*'' @ [NL] @ allow_line ''network*'' @ [NL] @ allow_line ''pseudo-tty'' @ [NL]"
    unfolding ipc_lines_def by (simp only: append_assoc)
  show ?thesis
    unfolding eq ipc_rules_def
    by (intro denotes_Cons denotes_ipc_block denotes_blank denotes_end denotes_lines words)
qed

lemma lexes_filter_lines:
  "list_all (\<lambda>x. sbpl_escape x = x) xs \<Longrightarrow> atom_word k \<Longrightarrow>
   lexes (concat (map (filter_line k) xs)) (concat (map (\<lambda>x. [LP, Atom k, Str x, RP]) xs))"
  by (rule lexes_concat) (simp add: list_all_iff lexes_named(2) [of k k])

lemma denotes_system:
  "denotes system_lines [Allow ''file-read*'' (map Subpath system_dirs @ map Literal system_literals)]"
proof -
  have d: "list_all (\<lambda>x. sbpl_escape x = x) system_dirs" by (simp add: system_dirs_def)
  have l: "list_all (\<lambda>x. sbpl_escape x = x) system_literals" "system_literals \<noteq> []"
    by (simp_all add: system_literals_def)
  have "lexes system_lines
      ([LP, Atom ''allow'', Atom ''file-read*''] @
       concat (map (\<lambda>x. [LP, Atom ''subpath'', Str x, RP]) system_dirs) @
       (concat (map (\<lambda>x. [LP, Atom ''literal'', Str x, RP]) system_literals) @ [RP]) @ [])"
    unfolding system_lines_def
    by (intro lexes_append lexes_lines(4) lexes_filter_lines lexes_block lexes_NL d l words)
  then show ?thesis by (simp add: denotes_def comp_def)
qed

definition file_access :: "string \<Rightarrow> bool" where
  "file_access a \<longleftrightarrow> a = ''file-read*'' \<or> a = ''file*''"

lemma file_access_simps [simp]: "file_access ''file-read*''" "file_access ''file*''"
  by (simp_all add: file_access_def)

lemma file_access_word: "file_access a \<Longrightarrow> atom_word a"
  by (auto simp: file_access_def words)

lemma lex_allow:
  assumes "file_access a"
  shows "lex Out (''(allow '' @ a @ '' (subpath '') = ([LP, Atom ''allow'', Atom a, LP, Atom ''subpath''], Out)"
    and "lex Out (''(allow '' @ a @ '' (literal '') = ([LP, Atom ''allow'', Atom a, LP, Atom ''literal''], Out)"
    and "lex Out (''(allow '' @ a @ '' (regex #'') = ([LP, Atom ''allow'', Atom a, LP, Atom ''regex''], InHash)"
  using file_access_word [OF assms] by (simp_all add: lex_rules lex_word)

lemma lex_close: "lex Out (''))'' @ [NL]) = ([RP, RP], Out)"
  by (simp add: lex_rules)

lemma denotes_subpath:
  assumes "file_access a"
  shows "denotes (subpath_rule a p) [Allow a [Subpath p]]"
proof -
  have "subpath_rule a p = (''(allow '' @ a @ '' (subpath '') @ dquote (sbpl_escape p) @ (''))'' @ [NL])"
    by (simp add: subpath_rule_def ln_def)
  then show ?thesis
    using lex_append_eq [OF lex_allow(1) [OF assms] lex_append_eq [OF lex_string [of p] lex_close]]
    by (simp add: denotes_def lexes_def)
qed

lemma denotes_literal:
  assumes "file_access a"
  shows "denotes (literal_rule a (sbpl_escape p)) [Allow a [Literal p]]"
proof -
  have "literal_rule a (sbpl_escape p) =
      (''(allow '' @ a @ '' (literal '') @ dquote (sbpl_escape p) @ (''))'' @ [NL])"
    by (simp add: literal_rule_def ln_def)
  then show ?thesis
    using lex_append_eq [OF lex_allow(2) [OF assms] lex_append_eq [OF lex_string [of p] lex_close]]
    by (simp add: denotes_def lexes_def)
qed

lemma denotes_regex:
  assumes "file_access a" and "paired pat"
  shows "denotes (regex_rule a pat) [Allow a [Regex pat]]"
proof -
  have "regex_rule a pat =
      (''(allow '' @ a @ '' (regex #'') @ dquote (quote_pattern pat) @ (''))'' @ [NL])"
    by (simp add: regex_rule_def ln_def)
  then show ?thesis
    using lex_append_eq [OF lex_allow(3) [OF assms(1)]
        lex_append_eq [OF lex_regex [OF assms(2)] lex_close]]
    by (simp add: denotes_def lexes_def)
qed

lemma lexes_mask_lines:
  "lexes (mask_lines hp masks)
     (concat (map (\<lambda>m. flatten (filter_sexp (RequireNot (Subpath (path_append hp m))))) masks))"
  unfolding mask_lines_def
proof (rule lexes_concat)
  fix m
  let ?p = "path_append hp m"
  have a: "lex Out ''    (require-not (subpath '' = ([LP, Atom ''require-not'', LP, Atom ''subpath''], Out)"
    by (simp add: lex_rules)
  have "ln (''    (require-not (subpath '' @ dquote (sbpl_escape ?p) @ ''))'') =
      ''    (require-not (subpath '' @ dquote (sbpl_escape ?p) @ (''))'' @ [NL])"
    by (simp add: ln_def)
  then show "lexes (ln (''    (require-not (subpath '' @ dquote (sbpl_escape ?p) @ ''))''))
      (flatten (filter_sexp (RequireNot (Subpath ?p))))"
    using lex_append_eq [OF a lex_append_eq [OF lex_string [of ?p] lex_close]]
    by (simp add: lexes_def)
qed

lemma denotes_masked:
  assumes "file_access a" and "masks \<noteq> []"
  shows "denotes (masked_rule a base hp masks) [Allow a (masked_filters base hp masks)]"
proof -
  have all: "lexes (ln ''  (require-all'') [LP, Atom ''require-all'']"
    and fin: "lexes (ln ''  ))'') [RP, RP]"
    by (simp_all add: lexes_def ln_def lex_rules)
  have sub: "lex Out ''    (subpath '' = ([LP, Atom ''subpath''], Out)"
    and one: "lex Out ('')'' @ [NL]) = ([RP], Out)"
    by (simp_all add: lex_rules)
  have base: "lexes (ln (''    (subpath '' @ dquote (sbpl_escape base) @ '')''))
      (flatten (filter_sexp (Subpath base)))"
    using lex_append_eq [OF sub lex_append_eq [OF lex_string [of base] one]]
    by (simp add: ln_def lexes_def)
  have "lexes (masked_rule a base hp masks)
      ([LP, Atom ''allow'', Atom a] @ [LP, Atom ''require-all''] @ flatten (filter_sexp (Subpath base)) @
       concat (map (\<lambda>m. flatten (filter_sexp (RequireNot (Subpath (path_append hp m))))) masks) @ [RP, RP])"
    unfolding masked_rule_def
    by (intro lexes_append lexes_lines(4) all base lexes_mask_lines fin file_access_word assms)
  then show ?thesis using assms(2) by (simp add: denotes_def masked_filters_def comp_def)
qed

lemma denotes_filters:
  "file_access a \<Longrightarrow>
   denotes (if masks = [] then subpath_rule a base else masked_rule a base hp masks)
     [Allow a (masked_filters base hp masks)]"
  using denotes_subpath [of a base] denotes_masked [of a masks base hp]
  by (simp add: masked_filters_def split: if_splits)

lemma denotes_device: "denotes device_lines device_rules"
proof -
  have "paired tty_pattern" and q: "quote_pattern tty_pattern = tty_pattern"
    by (simp_all add: tty_pattern_def)
  from denotes_regex [OF _ this(1), of "''file*''"]
  have "denotes (ln (''(allow file* (regex #'' @ dquote tty_pattern @ ''))'')) [Allow ''file*'' [Regex tty_pattern]]"
    by (simp add: regex_rule_def q)
  then show ?thesis
    unfolding device_lines_def device_rules_def
    by (intro denotes_Cons denotes_end denotes_named words) simp_all
qed

lemma denotes_static: "denotes static_lines static_rules"
  unfolding static_lines_def static_rules_def
  by (intro denotes_append denotes_process denotes_mach denotes_ipc denotes_system denotes_device)

section \<open>The whole profile\<close>

lemma denotes_carveouts: "denotes (emit_ssh_carveouts b) (carveout_rules b)"
proof -
  have esc: "sbpl_escape (b @ t) = sbpl_escape b @ t" if "list_all (\<lambda>c. c \<noteq> DQ \<and> c \<noteq> BS) t" for t
  proof -
    have "sbpl_escape t = t" using that by (induction t) auto
    moreover have "sbpl_escape (b @ t) = sbpl_escape b @ sbpl_escape t" by (induction b) auto
    ultimately show ?thesis by simp
  qed
  have agent: "ln (''(allow file-read* (subpath '' @ dquote (sbpl_escape b @ ''/agent'') @ ''))'') =
      subpath_rule ''file-read*'' (b @ ''/agent'')"
    by (simp add: subpath_rule_def esc)
  have lit: "literal_rule ''file-read*'' (sbpl_escape b @ ''/known_hosts'') =
        literal_rule ''file-read*'' (sbpl_escape (b @ ''/known_hosts''))"
      "literal_rule ''file-read*'' (sbpl_escape b @ ''/known_hosts.old'') =
        literal_rule ''file-read*'' (sbpl_escape (b @ ''/known_hosts.old''))"
    by (simp_all add: esc)
  have "paired (''^'' @ sbpl_regex_escape b @ ''/[^/]+'' @ [BS, DOT] @ ''pub$'')"
    by (intro paired_append paired_regex_escape) simp_all
  then have pub: "paired (pub_pattern b)" by (simp add: pub_pattern_def)
  show ?thesis
    unfolding emit_ssh_carveouts_def carveout_rules_def Let_def agent lit
    by (intro denotes_Cons denotes_subpath denotes_literal denotes_regex pub) simp_all
qed

lemma denotes_home_rule:
  "file_access a \<Longrightarrow> denotes (emit_home_rule a base masks) [Allow a (masked_filters base base masks)]"
  unfolding emit_home_rule_def by (rule denotes_filters)

lemma denotes_home:
  assumes "home_access s = (Inr t, s')"
  shows "denotes t (mode_rules s) \<and> s' = s"
proof (cases "jail_mode s")
  case kCasual
  let ?masks = "os_elems (mask_files s)"
  let ?ssh = "if os_mem path_less ''.ssh'' (mask_files s) then
      emit_ssh_carveouts (path_append (homepath s) ''.ssh'') @
      emit_ssh_carveouts (path_append (overlay_mount s) ''.ssh'') @ [NL] else []"
  let ?rules = "if os_mem path_less ''.ssh'' (mask_files s) then
      carveout_rules (path_append (homepath s) ''.ssh'') @
      carveout_rules (path_append (overlay_mount s) ''.ssh'') else []"
  have t: "t = emit_home_rule ''file-read*'' (homepath s) ?masks @
      emit_home_rule ''file*'' (overlay_mount s) ?masks @ [NL] @ ?ssh" and s': "s' = s"
    using assms kCasual by (auto simp: home_access_def casual_access_def Let_def split: if_splits)
  have "denotes ?ssh ?rules"
    by (simp add: denotes_append denotes_NL denotes_carveouts denotes_Nil)
  then have "denotes t ([Allow ''file-read*'' (masked_filters (homepath s) (homepath s) ?masks)] @
      [Allow ''file*'' (masked_filters (overlay_mount s) (overlay_mount s) ?masks)] @ ?rules)"
    unfolding t by (intro denotes_append denotes_blank denotes_home_rule) simp_all
  with s' kCasual show ?thesis
    by (simp add: mode_rules_def casual_rules_def Let_def)
next
  case kBare
  with assms show ?thesis
    using denotes_NL [OF denotes_subpath [of "''file*''" "private_home s"]]
    by (auto simp: home_access_def bare_access_def mode_rules_def split: if_splits)
next
  case kStrict
  with assms show ?thesis by (simp add: home_access_def mode_rules_def denotes_Nil)
qed

lemma cwd_result: "cwd w s = (Inr c, s') \<Longrightarrow> s' = s\<lparr>cwd_path := c\<rparr>"
  by (auto simp: cwd_def split: if_splits sum.splits)

lemma denotes_cwd:
  assumes "cwd_access w s = (Inr t, s')"
  shows "denotes t (cwd_rules s') \<and> (\<exists>c. s' = s\<lparr>cwd_path := c\<rparr>)"
proof (cases "grant_cwd s")
  case False
  with assms have "t = []" and "s' = s" by (auto simp: cwd_access_def)
  moreover have "\<exists>c. s = s\<lparr>cwd_path := c\<rparr>" by (rule exI [of _ "cwd_path s"]) simp
  ultimately show ?thesis using False by (simp add: cwd_rules_def denotes_Nil)
next
  case True
  obtain r u where c: "cwd w s = (r, u)" by fastforce
  with True assms obtain d where r: "r = Inr d"
    by (cases r) (auto simp: cwd_access_def bind_s_def)
  have u: "u = s\<lparr>cwd_path := d\<rparr>" using c r cwd_result by blast
  from assms True c r have
    "t = (if os_elems (mask_files s) = [] then subpath_rule ''file*'' d
          else masked_rule ''file*'' d (homepath s) (os_elems (mask_files s)))" and "s' = u"
    by (auto simp: cwd_access_def bind_s_def Let_def u split: option.splits)
  then show ?thesis
    using True u denotes_filters [of "''file*''" "os_elems (mask_files s)" d "homepath s"]
    by (auto simp: cwd_rules_def)
qed

lemma denotes_grants: "denotes (directory_rules (grant_directories s) @ file_rules (grant_files s)) (grant_rules s)"
proof -
  have acc: "file_access (access_of f)" for f by (simp add: access_of_def)
  have "denotes (directory_rules g) (concat (map (\<lambda>(d, flags). [Allow (access_of flags) [Subpath d]]) g))" for g
    unfolding directory_rules_def
    by (rule denotes_concat) (auto simp: access_of_def intro!: denotes_subpath)
  moreover have "concat (map (\<lambda>(d, flags). [Allow (access_of flags) [Subpath d]]) g) =
      map (\<lambda>(d, flags). Allow (access_of flags) [Subpath d]) g" for g :: grants
    by (induction g) auto
  moreover have "paired (''^'' @ sbpl_regex_escape f @ ([BS, DOT] @ ''.+$''))" for f
    by (intro paired_append paired_regex_escape) simp_all
  then have "paired (sibling_pattern f)" for f by (simp add: sibling_pattern_def)
  then have "denotes (file_rules g) (concat (map (\<lambda>(f, flags).
       [Allow (access_of flags) [Literal f], Allow (access_of flags) [Regex (sibling_pattern f)]]) g))" for g
    unfolding file_rules_def
    by (intro denotes_concat)
       (auto simp: access_of_def [symmetric] Let_def acc intro!: denotes_Cons denotes_literal denotes_regex)
  ultimately show ?thesis unfolding grant_rules_def by (intro denotes_append) simp_all
qed

lemma generate_parts:
  assumes "generate_sandbox_profile w s = (Inr text, s')"
  obtains h c where "home_access s = (Inr h, s)" and "cwd_access w s = (Inr c, s')"
    and "text = static_lines @ subpath_rule ''file*'' (private_tmp s) @ [NL] @ h @ c @
           directory_rules (grant_directories s') @ file_rules (grant_files s')"
    and "private_tmp s \<noteq> []"
proof -
  obtain r u where h: "home_access s = (r, u)" by fastforce
  with assms obtain x where r: "r = Inr x"
    by (cases r) (auto simp: generate_sandbox_profile_def bind_s_def split: if_splits)
  have u: "u = s" using denotes_home h r by blast
  obtain q v where c: "cwd_access w s = (q, v)" by fastforce
  with assms h r u obtain y where q: "q = Inr y"
    by (cases q) (auto simp: generate_sandbox_profile_def bind_s_def split: if_splits)
  have "private_tmp s' = private_tmp s"
    using denotes_cwd [of w s y v] c q assms h r u
    by (auto simp: generate_sandbox_profile_def bind_s_def split: if_splits)
  then show ?thesis
    using that [of x y] assms h r u c q
    by (auto simp: generate_sandbox_profile_def bind_s_def split: if_splits)
qed

lemma generate_denotes:
  assumes "generate_sandbox_profile w s = (Inr text, s')"
  shows "denotes text (profile_rules s')" and "\<exists>c. s' = s\<lparr>cwd_path := c\<rparr>"
proof -
  obtain h c where h: "home_access s = (Inr h, s)" and c: "cwd_access w s = (Inr c, s')"
    and t: "text = static_lines @ subpath_rule ''file*'' (private_tmp s) @ [NL] @ h @ c @
           directory_rules (grant_directories s') @ file_rules (grant_files s')"
    using assms by (rule generate_parts)
  show ex: "\<exists>c. s' = s\<lparr>cwd_path := c\<rparr>" using denotes_cwd [OF c] by blast
  then have same: "mode_rules s' = mode_rules s" "private_tmp s' = private_tmp s"
    by (auto simp: mode_rules_def casual_rules_def split: mode.split)
  show "denotes text (profile_rules s')"
    unfolding t profile_rules_def same
    using denotes_home [OF h] denotes_cwd [OF c]
    by (intro denotes_append denotes_blank denotes_static denotes_grants denotes_subpath) simp_all
qed

section \<open>Grouping\<close>

fun proper :: "sexp \<Rightarrow> bool" where
  "proper (Leaf t) = (t \<noteq> LP \<and> t \<noteq> RP)"
| "proper (Node xs) = list_all proper xs"

lemma group_leaf: "t \<noteq> LP \<Longrightarrow> t \<noteq> RP \<Longrightarrow> group_tokens (a # st) (t # ts) = group_tokens ((Leaf t # a) # st) ts"
  by (cases t) auto

lemma group_flatten:
  "proper x \<Longrightarrow> group_tokens (a # st) (flatten x @ ts) = group_tokens ((x # a) # st) ts"
proof (induction x arbitrary: a st ts)
  case (Leaf t)
  then show ?case by (simp add: group_leaf)
next
  case (Node xs)
  have "list_all proper xs \<Longrightarrow> (\<And>x a st ts. x \<in> set xs \<Longrightarrow> proper x \<Longrightarrow>
      group_tokens (a # st) (flatten x @ ts) = group_tokens ((x # a) # st) ts) \<Longrightarrow>
      group_tokens (b # a # st) (concat (map flatten xs) @ RP # ts) =
      group_tokens ((Node (rev b @ xs) # a) # st) ts" for xs b
    by (induction xs arbitrary: b) simp_all
  from this [of xs "[]"] Node show ?case by simp
qed

lemma group_all:
  "list_all proper xs \<Longrightarrow> group_tokens [a] (concat (map flatten xs)) = Some (rev a @ xs)"
  by (induction xs arbitrary: a) (simp_all add: group_flatten)

lemma proper_filter: "proper (filter_sexp f)"
  by (induction f rule: filter_sexp.induct) (auto simp: list_all_iff)

lemma proper_rule: "proper (rule_sexp r)"
  by (cases r) (auto simp: list_all_iff proper_filter)

lemma denotes_read:
  assumes "denotes s rs"
  shows "read_profile s = Some (map rule_sexp rs)"
proof -
  have "concat (map (\<lambda>r. flatten (rule_sexp r)) rs) = concat (map flatten (map rule_sexp rs))"
    by (simp add: comp_def)
  moreover have "list_all proper (map rule_sexp rs)" by (simp add: list_all_iff proper_rule)
  ultimately show ?thesis
    using assms group_all [of "map rule_sexp rs" "[]"]
    by (simp add: read_profile_def denotes_def lexes_def)
qed

text \<open>The rules of a profile can be told from its expressions.\<close>

lemma filter_sexp_inj: "filter_sexp f = filter_sexp g \<Longrightarrow> f = g"
proof (induction f arbitrary: g rule: filter_sexp.induct)
  case (10 fs)
  then obtain gs where g: "g = RequireAll gs" and "map filter_sexp fs = map filter_sexp gs"
    by (cases g) auto
  then have "fs = gs" using 10(1) by (metis list.inj_map_strong)
  with g show ?case by simp
qed (case_tac g; auto)+

end
