(* ===== verification/Profile_Verdict.thy ===== *)
theory Profile_Verdict
  imports Profile_Rules
begin

text \<open>
  What a profile text permits, as the profile language means it: the text is read as expressions,
  and of the rules that apply to an operation on a path the last one decides.  Nothing in this theory
  knows how the program builds the text.
\<close>

section \<open>Regular expressions\<close>

text \<open>
  The part of the extended regular expressions of POSIX that occurs in profiles: patterns anchored at
  both ends, made of characters, quoted characters, the dot and bracket expressions, each perhaps
  repeated with a plus.
\<close>

datatype regex_atom = One_char char | Any_char | In_set bool "(char \<times> char) list"

definition between :: "char \<Rightarrow> char \<times> char \<Rightarrow> bool" where
  "between c r \<longleftrightarrow> (of_char (fst r) :: nat) \<le> of_char c \<and> (of_char c :: nat) \<le> of_char (snd r)"

fun atom_ok :: "regex_atom \<Rightarrow> char \<Rightarrow> bool" where
  "atom_ok (One_char d) c = (c = d)"
| "atom_ok Any_char c = True"
| "atom_ok (In_set negated rs) c = (list_ex (between c) rs \<noteq> negated)"

definition ere_special :: "char \<Rightarrow> bool" where
  "ere_special c \<longleftrightarrow> c \<in> set (''^.[$()|*+?{'' @ [BS])"

text \<open>The members of a bracket expression, and what follows it.\<close>

fun read_set :: "string \<Rightarrow> ((char \<times> char) list \<times> string) option" where
  "read_set [] = None"
| "read_set [c] = (if c = CHR '']'' then Some ([], []) else None)"
| "read_set [c, d] =
     (if c = CHR '']'' then Some ([], [d]) else map_option (\<lambda>(rs, t). ((c, c) # rs, t)) (read_set [d]))"
| "read_set (c # d # e # s) =
     (if c = CHR '']'' then Some ([], d # e # s)
      else if d = CHR ''-'' \<and> e \<noteq> CHR '']'' then map_option (\<lambda>(rs, t). ((c, e) # rs, t)) (read_set s)
      else map_option (\<lambda>(rs, t). ((c, c) # rs, t)) (read_set (d # e # s)))"

definition read_bracket :: "string \<Rightarrow> (regex_atom \<times> string) option" where
  "read_bracket s =
     (let negated = (s \<noteq> [] \<and> hd s = CHR ''^'') in
      map_option (\<lambda>(rs, t). (In_set negated rs, t)) (read_set (if negated then tl s else s)))"

definition read_atom :: "string \<Rightarrow> (regex_atom \<times> string) option" where
  "read_atom s =
     (case s of
        [] \<Rightarrow> None
      | c # t \<Rightarrow>
          if c = BS then (case t of [] \<Rightarrow> None | d # u \<Rightarrow> Some (One_char d, u))
          else if c = CHR ''.'' then Some (Any_char, t)
          else if c = CHR ''['' then read_bracket t
          else if ere_special c then None
          else Some (One_char c, t))"

lemma read_set_shorter: "read_set s = Some (rs, t) \<Longrightarrow> length t < length s"
proof (induction s arbitrary: rs t rule: read_set.induct)
  case (3 c d)
  then show ?case by (cases "c = CHR '']''"; cases "d = CHR '']''") auto
next
  case (4 c d e s)
  then show ?case by (force split: if_splits)
qed (auto split: if_splits)

lemma read_atom_shorter: "read_atom s = Some (a, t) \<Longrightarrow> length t < length s"
  by (auto simp: read_atom_def read_bracket_def Let_def split: list.splits if_splits
      dest!: read_set_shorter)

function read_items :: "string \<Rightarrow> (regex_atom \<times> bool) list option" where
  "read_items s =
     (if s = ''$'' then Some []
      else
        case read_atom s of
          None \<Rightarrow> None
        | Some (a, t) \<Rightarrow>
            if t \<noteq> [] \<and> hd t = CHR ''+'' then map_option (Cons (a, True)) (read_items (tl t))
            else map_option (Cons (a, False)) (read_items t))"
  by pat_completeness auto
termination
  by (relation "measure length") (auto dest: read_atom_shorter simp: less_diff_conv intro: le_less_trans [rotated])

declare read_items.simps [simp del]

fun items_match :: "(regex_atom \<times> bool) list \<Rightarrow> string \<Rightarrow> bool" where
  "items_match [] s = (s = [])"
| "items_match ((a, many) # its) [] = False"
| "items_match ((a, many) # its) (c # s) =
     (atom_ok a c \<and> (items_match its s \<or> many \<and> items_match ((a, many) # its) s))"

text \<open>A pattern of any other form matches nothing here.\<close>

definition regex_matches :: "string \<Rightarrow> path \<Rightarrow> bool" where
  "regex_matches r p =
     (r \<noteq> [] \<and> hd r = CHR ''^'' \<and>
      (case read_items (tl r) of None \<Rightarrow> False | Some its \<Rightarrow> items_match its p))"

section \<open>Rules\<close>

definition op_matches :: "string \<Rightarrow> string \<Rightarrow> bool" where
  "op_matches pat op =
     (if pat \<noteq> [] \<and> last pat = CHR ''*'' then prefix (butlast pat) op else pat = op)"

text \<open>A path is matched component by component.\<close>

fun sexp_matches :: "sexp \<Rightarrow> path \<Rightarrow> bool" where
  "sexp_matches (Node (Leaf (Atom k) # fs)) p =
     (if k = ''require-all'' then list_all (\<lambda>f. sexp_matches f p) fs
      else if k = ''require-not'' then length fs = 1 \<and> list_all (\<lambda>f. \<not> sexp_matches f p) fs
      else
        case fs of
          [Leaf (Str d)] \<Rightarrow>
            if k = ''subpath'' then prefix (path_iter d) (path_iter p)
            else k = ''literal'' \<and> path_iter d = path_iter p
        | [Leaf (Rx r)] \<Rightarrow> k = ''regex'' \<and> regex_matches r p
        | _ \<Rightarrow> False)"
| "sexp_matches _ p = False"

text \<open>What one rule says of an operation on a path: allowed, denied, or nothing.\<close>

fun says :: "string \<Rightarrow> path \<Rightarrow> sexp \<Rightarrow> bool option" where
  "says op p (Node (Leaf (Atom v) # Leaf (Atom pat) # fs)) =
     (if (v = ''allow'' \<or> v = ''deny'') \<and> (pat = ''default'' \<or> op_matches pat op) \<and>
         (fs = [] \<or> list_ex (\<lambda>f. sexp_matches f p) fs)
      then Some (v = ''allow'') else None)"
| "says op p _ = None"

primrec decided :: "string \<Rightarrow> path \<Rightarrow> sexp list \<Rightarrow> bool \<Rightarrow> bool" where
  "decided op p [] b = b"
| "decided op p (e # es) b = decided op p es (case says op p e of None \<Rightarrow> b | Some v \<Rightarrow> v)"

definition permits :: "string \<Rightarrow> string \<Rightarrow> path \<Rightarrow> bool" where
  "permits profile op p =
     (case read_profile profile of None \<Rightarrow> False | Some es \<Rightarrow> decided op p es False)"

section \<open>Quoted text in patterns\<close>

lemma read_quoted:
  "\<not> (t \<noteq> [] \<and> hd t = CHR ''+'') \<Longrightarrow>
   read_items (sbpl_regex_escape d @ t) = map_option (append (map (\<lambda>c. (One_char c, False)) d)) (read_items t)"
proof (induction d)
  case Nil
  then show ?case by (simp add: option.map_ident)
next
  case (Cons c d)
  define u where "u = sbpl_regex_escape d @ t"
  have u: "\<not> (u \<noteq> [] \<and> hd u = CHR ''+'')"
    unfolding u_def using Cons.prems by (cases d) (auto simp: regex_special_def)
  have "read_items (sbpl_regex_escape (c # d) @ t) = map_option (Cons (One_char c, False)) (read_items u)"
  proof (cases "regex_special c")
    case True
    then have "sbpl_regex_escape (c # d) @ t = BS # c # u" by (simp add: u_def)
    then show ?thesis using u by (auto simp: read_items.simps [of "BS # c # u"] read_atom_def)
  next
    case False
    then have "\<not> ere_special c" and "c \<noteq> BS" and "c \<noteq> CHR ''.''" and "c \<noteq> CHR ''[''" and "c \<noteq> CHR ''$''"
      by (auto simp: regex_special_def ere_special_def)
    moreover have "sbpl_regex_escape (c # d) @ t = c # u" using False by (simp add: u_def)
    ultimately show ?thesis using u by (auto simp: read_items.simps [of "c # u"] read_atom_def)
  qed
  then have "read_items (sbpl_regex_escape (c # d) @ t) =
      map_option (Cons (One_char c, False)) (read_items (sbpl_regex_escape d @ t))"
    by (simp add: u_def)
  with Cons show ?case by (simp add: option.map_comp comp_def)
qed

lemma match_quoted:
  "items_match (map (\<lambda>c. (One_char c, False)) d @ its) p \<longleftrightarrow> (\<exists>q. p = d @ q \<and> items_match its q)"
proof (induction d arbitrary: p)
  case (Cons c d)
  then show ?case by (cases p) auto
qed simp

lemma match_plus:
  "items_match ((a, True) # its) s \<longleftrightarrow>
     (\<exists>x y. s = x @ y \<and> x \<noteq> [] \<and> list_all (atom_ok a) x \<and> items_match its y)"
proof
  show "items_match ((a, True) # its) s \<Longrightarrow>
      \<exists>x y. s = x @ y \<and> x \<noteq> [] \<and> list_all (atom_ok a) x \<and> items_match its y"
  proof (induction s)
    case (Cons c s)
    then consider "items_match its s" | "items_match ((a, True) # its) s" by auto
    then show ?case
    proof cases
      case 1
      with Cons.prems show ?thesis by (intro exI [of _ "[c]"] exI [of _ s]) simp
    next
      case 2
      with Cons.IH obtain x y where "s = x @ y" "list_all (atom_ok a) x" "items_match its y" by blast
      with Cons.prems show ?thesis by (intro exI [of _ "c # x"] exI [of _ y]) simp
    qed
  qed simp
next
  have "x \<noteq> [] \<Longrightarrow> list_all (atom_ok a) x \<Longrightarrow> items_match its y \<Longrightarrow> items_match ((a, True) # its) (x @ y)" for x y
  proof (induction x)
    case (Cons c x)
    then show ?case by (cases "x = []") simp_all
  qed simp
  then show "\<exists>x y. s = x @ y \<and> x \<noteq> [] \<and> list_all (atom_ok a) x \<and> items_match its y \<Longrightarrow>
      items_match ((a, True) # its) s" by blast
qed

lemma match_one: "items_match ((a, False) # its) s \<longleftrightarrow> (\<exists>c t. s = c # t \<and> atom_ok a c \<and> items_match its t)"
  by (cases s) auto

lemma between_same: "between c (d, d) \<longleftrightarrow> c = d"
  unfolding between_def by (metis fst_conv le_antisym of_char_eq_iff order_refl snd_conv)

lemma quoted_matches:
  assumes "\<not> (t \<noteq> [] \<and> hd t = CHR ''+'')" and "read_items t = Some its"
  shows "regex_matches (''^'' @ sbpl_regex_escape d @ t) p \<longleftrightarrow> (\<exists>q. p = d @ q \<and> items_match its q)"
  using assms by (simp add: regex_matches_def read_quoted match_quoted)

lemma pub_matches:
  "regex_matches (pub_pattern b) p \<longleftrightarrow> (\<exists>n. n \<noteq> [] \<and> SLASH \<notin> set n \<and> p = b @ ''/'' @ n @ ''.pub'')"
proof -
  let ?its = "[(One_char SLASH, False), (In_set True [(SLASH, SLASH)], True), (One_char (CHR ''.''), False),
     (One_char (CHR ''p''), False), (One_char (CHR ''u''), False), (One_char (CHR ''b''), False)]"
  have "read_items (''/[^/]+'' @ [BS] @ ''.pub$'') = Some ?its" by code_simp
  from quoted_matches [OF _ this, of b p] have "regex_matches (pub_pattern b) p \<longleftrightarrow>
      (\<exists>q. p = b @ q \<and> items_match ?its q)"
    by (simp add: pub_pattern_def)
  moreover have "list_all (atom_ok (In_set True [(SLASH, SLASH)])) x \<longleftrightarrow> SLASH \<notin> set x" for x
    by (induction x) (auto simp: between_same simp del: between_def)
  ultimately show ?thesis by (auto simp: match_one match_plus simp del: items_match.simps(2,3))
qed

lemma sibling_matches: "regex_matches (sibling_pattern f) p \<longleftrightarrow> (\<exists>x. x \<noteq> [] \<and> p = f @ ''.'' @ x)"
proof -
  let ?its = "[(One_char (CHR ''.''), False), (Any_char, True)]"
  have "read_items ([BS] @ ''..+$'') = Some ?its" by code_simp
  from quoted_matches [OF _ this, of f p] have "regex_matches (sibling_pattern f) p \<longleftrightarrow>
      (\<exists>q. p = f @ q \<and> items_match ?its q)"
    by (simp add: sibling_pattern_def)
  moreover have "list_all (atom_ok Any_char) x" for x by (induction x) simp_all
  ultimately show ?thesis by (auto simp: match_one match_plus simp del: items_match.simps(2,3))
qed

text \<open>The terminals.\<close>

definition terminal_path :: "path \<Rightarrow> bool" where
  "terminal_path p \<longleftrightarrow> (\<exists>n. n \<noteq> [] \<and> list_all (\<lambda>c. between c (CHR ''0'', CHR ''9'')) n \<and> p = ''/dev/ttys'' @ n)"

lemma tty_matches: "regex_matches tty_pattern p \<longleftrightarrow> terminal_path p"
proof -
  let ?its = "[(In_set False [(CHR ''0'', CHR ''9'')], True)]"
  have "read_items ''[0-9]+$'' = Some ?its" by code_simp
  from quoted_matches [OF _ this, of "''/dev/ttys''" p] have "regex_matches tty_pattern p \<longleftrightarrow>
      (\<exists>q. p = ''/dev/ttys'' @ q \<and> items_match ?its q)"
    by (simp add: tty_pattern_def regex_special_def)
  moreover have "atom_ok (In_set False [r]) = (\<lambda>c. between c r)" for r by (simp add: fun_eq_iff)
  ultimately show ?thesis by (auto simp: match_plus terminal_path_def simp del: items_match.simps(2,3))
qed

end
