(* ===== verification/Profile_Policy.thy ===== *)
theory Profile_Policy
  imports Profile_Verdict Config_Theorems
begin

text \<open>
  What the generated profile permits, in terms of the configuration.  The verdict on the text is
  traced back to the rules that the text denotes; as the only rules that deny file operations come
  first, an operation on a path is permitted when one of the others allows it.
\<close>

section \<open>Rules\<close>

fun path_matches :: "sb_filter \<Rightarrow> path \<Rightarrow> bool" where
  "path_matches (Subpath d) p = path_contains d p"
| "path_matches (Literal l) p = (path_iter l = path_iter p)"
| "path_matches (Regex r) p = regex_matches r p"
| "path_matches (RequireNot f) p = (\<not> path_matches f p)"
| "path_matches (RequireAll fs) p = list_all (\<lambda>f. path_matches f p) fs"
| "path_matches _ p = False"

definition rule_allows :: "string \<Rightarrow> path \<Rightarrow> sb_rule \<Rightarrow> bool" where
  "rule_allows op p r =
     (case r of
        Allow pat fs \<Rightarrow> op_matches pat op \<and> (fs = [] \<or> list_ex (\<lambda>f. path_matches f p) fs)
      | _ \<Rightarrow> False)"

definition allows :: "sb_rule list \<Rightarrow> string \<Rightarrow> path \<Rightarrow> bool" where
  "allows rs op p = list_ex (rule_allows op p) rs"

lemma sexp_of_filter: "sexp_matches (filter_sexp f) p = path_matches f p"
  by (induction f) (auto simp: path_contains_prefix list_all_iff)

text \<open>A rule that does not deny the operation says that it is allowed, or nothing.\<close>

definition no_denial :: "string \<Rightarrow> sb_rule \<Rightarrow> bool" where
  "no_denial op r =
     (case r of
        Version v \<Rightarrow> True
      | DenyDefault \<Rightarrow> False
      | Allow pat fs \<Rightarrow> pat \<noteq> ''default''
      | Deny pat \<Rightarrow> pat \<noteq> ''default'' \<and> \<not> op_matches pat op)"

lemma says_rule: "no_denial op r \<Longrightarrow> says op p (rule_sexp r) = (if rule_allows op p r then Some True else None)"
  by (cases r) (auto simp: no_denial_def rule_allows_def list_ex_iff sexp_of_filter)

lemma verdict_rules:
  "list_all (no_denial op) rs \<Longrightarrow> decided op p (map rule_sexp rs) b \<longleftrightarrow> b \<or> allows rs op p"
  by (induction rs arbitrary: b) (auto simp: says_rule allows_def)

text \<open>File operations, and among them those that only read.\<close>

definition file_op :: "string \<Rightarrow> bool" where
  "file_op op \<longleftrightarrow> prefix ''file-'' op"

definition read_op :: "string \<Rightarrow> bool" where
  "read_op op \<longleftrightarrow> prefix ''file-read'' op"

section \<open>The parts of a policy\<close>

definition system_path :: "path \<Rightarrow> bool" where
  "system_path p \<longleftrightarrow>
     list_ex (\<lambda>d. path_contains d p) system_dirs \<or>
     list_ex (\<lambda>d. path_iter d = path_iter p) system_literals"

definition device_path :: "path \<Rightarrow> bool" where
  "device_path p \<longleftrightarrow>
     path_iter p \<in> path_iter ` {''/dev/null'', ''/dev/tty'', ''/dev/ptmx''} \<or> terminal_path p"

definition masked_under :: "config \<Rightarrow> path \<Rightarrow> path \<Rightarrow> bool" where
  "masked_under s base p \<longleftrightarrow>
     (\<exists>m \<in> set (os_elems (mask_files s)). path_contains (path_append base m) p)"

text \<open>The agent's directory, the known hosts and the public keys, which are files of \<open>base\<close> itself.\<close>

definition ssh_path :: "path \<Rightarrow> path \<Rightarrow> bool" where
  "ssh_path base p \<longleftrightarrow>
     path_contains (base @ ''/agent'') p \<or>
     path_iter p \<in> path_iter ` {base @ ''/known_hosts'', base @ ''/known_hosts.old''} \<or>
     (\<exists>n. n \<noteq> [] \<and> SLASH \<notin> set n \<and> p = base @ ''/'' @ n @ ''.pub'')"

text \<open>A granted file brings those with it whose names add something after a dot.\<close>

definition granted :: "config \<Rightarrow> bool \<Rightarrow> path \<Rightarrow> bool" where
  "granted s reading p \<longleftrightarrow>
     (\<exists>(d, flags) \<in> set (grant_directories s).
        path_contains d p \<and> (reading \<or> flags AND kGrantRO = 0)) \<or>
     (\<exists>(f, flags) \<in> set (grant_files s).
        (path_iter f = path_iter p \<or> (\<exists>x. x \<noteq> [] \<and> p = f @ ''.'' @ x)) \<and>
        (reading \<or> flags AND kGrantRO = 0))"

text \<open>Where the mode lets the command write, and where it lets it read as well.\<close>

definition mode_writable :: "config \<Rightarrow> path \<Rightarrow> bool" where
  "mode_writable s p \<longleftrightarrow>
     (case jail_mode s of
        kCasual \<Rightarrow> path_contains (overlay_mount s) p \<and> \<not> masked_under s (overlay_mount s) p
      | kBare \<Rightarrow> path_contains (private_home s) p
      | kStrict \<Rightarrow> False)"

definition mode_readable :: "config \<Rightarrow> path \<Rightarrow> bool" where
  "mode_readable s p \<longleftrightarrow>
     jail_mode s = kCasual \<and>
     (path_contains (homepath s) p \<and> \<not> masked_under s (homepath s) p \<or>
      os_mem path_less ''.ssh'' (mask_files s) \<and>
        (ssh_path (path_append (homepath s) ''.ssh'') p \<or>
         ssh_path (path_append (overlay_mount s) ''.ssh'') p))"

definition cwd_writable :: "config \<Rightarrow> path \<Rightarrow> bool" where
  "cwd_writable s p \<longleftrightarrow>
     grant_cwd s \<and> path_contains (cwd_path s) p \<and> \<not> masked_under s (homepath s) p"

section \<open>Facts\<close>

lemma op_star: "op_matches ''file*'' op \<longleftrightarrow> prefix ''file'' op"
  "op_matches ''file-read*'' op \<longleftrightarrow> read_op op"
  by (simp_all add: op_matches_def read_op_def)

lemma file_op_prefix: "file_op op \<Longrightarrow> prefix ''file'' op"
  unfolding file_op_def by (metis append_prefixD append_Cons append_Nil)

lemma read_file_op: "read_op op \<Longrightarrow> file_op op"
  unfolding read_op_def file_op_def by (auto simp: prefix_def)

text \<open>No rule for another kind of operation covers a file operation.\<close>

lemma file_op_other:
  assumes "file_op op" and "pat \<in> {''process-exec*'', ''process-fork'', ''process-info-pidinfo'',
    ''process-info-pidfdinfo'', ''process-info-codesignature'', ''signal'', ''sysctl-read'',
    ''mach-bootstrap'', ''mach-register'', ''mach-task-name'', ''mach-lookup'', ''ipc-posix-shm*'',
    ''ipc-posix-sem'', ''iokit*'', ''network*'', ''pseudo-tty''}"
  shows "\<not> op_matches pat op"
  using assms by (auto simp: op_matches_def file_op_def prefix_def)

lemma allows_append: "allows (a @ b) op p \<longleftrightarrow> allows a op p \<or> allows b op p"
  by (simp add: allows_def)

lemma allows_Nil [simp]: "\<not> allows [] op p"
  by (simp add: allows_def)

lemma allows_one:
  "allows [Allow pat fs] op p \<longleftrightarrow>
     op_matches pat op \<and> (fs = [] \<or> (\<exists>f \<in> set fs. path_matches f p))"
  by (simp add: allows_def rule_allows_def list_ex_iff)

lemma allows_Cons: "allows (r # rs) op p \<longleftrightarrow> allows [r] op p \<or> allows rs op p"
  by (simp add: allows_def)

lemma allows_process: "file_op op \<Longrightarrow> \<not> allows process_rules op p"
  unfolding process_rules_def allows_def
  by (simp add: rule_allows_def file_op_other)

lemma allows_ipc: "file_op op \<Longrightarrow> \<not> allows ipc_rules op p"
  unfolding ipc_rules_def allows_def
  by (simp add: rule_allows_def file_op_other)

lemma allows_mach: "file_op op \<Longrightarrow> \<not> allows [Allow ''mach-lookup'' fs] op p"
  by (simp add: allows_one file_op_other)

lemma allows_device: "file_op op \<Longrightarrow> allows device_rules op p \<longleftrightarrow> device_path p"
  unfolding device_rules_def
  by (auto simp: allows_Cons [of _ "_ # _"] allows_one op_star file_op_prefix device_path_def tty_matches)

lemma allows_system:
  "allows [Allow ''file-read*'' (map Subpath system_dirs @ map Literal system_literals)] op p \<longleftrightarrow>
     read_op op \<and> system_path p"
  by (auto simp: allows_one op_star system_path_def list_ex_iff system_dirs_def)

lemma allows_static:
  "file_op op \<Longrightarrow> allows static_rules op p \<longleftrightarrow> read_op op \<and> system_path p \<or> device_path p"
  unfolding static_rules_def allows_append
  using allows_process allows_ipc allows_mach allows_system allows_device by blast

lemma masked_filters_match:
  "(\<exists>f \<in> set (masked_filters base hp masks). path_matches f p) \<longleftrightarrow>
     path_contains base p \<and> (\<forall>m \<in> set masks. \<not> path_contains (path_append hp m) p)"
  by (auto simp: masked_filters_def list_all_iff)

lemma masked_filters_nonempty: "masked_filters base hp masks \<noteq> []"
  by (simp add: masked_filters_def)

lemma allows_masked:
  "allows [Allow pat (masked_filters base hp masks)] op p \<longleftrightarrow>
     op_matches pat op \<and> path_contains base p \<and> (\<forall>m \<in> set masks. \<not> path_contains (path_append hp m) p)"
  by (simp only: allows_one masked_filters_match masked_filters_nonempty simp_thms)

lemma allows_carveouts:
  "allows (carveout_rules b) op p \<longleftrightarrow> read_op op \<and> ssh_path b p"
  unfolding carveout_rules_def ssh_path_def
  by (auto simp: allows_Cons [of _ "_ # _"] allows_one op_star pub_matches)

lemma allows_mode:
  assumes "file_op op"
  shows "allows (mode_rules s) op p \<longleftrightarrow> mode_writable s p \<or> read_op op \<and> mode_readable s p"
proof (cases "jail_mode s")
  case kCasual
  have "allows (casual_rules s) op p \<longleftrightarrow>
      read_op op \<and> path_contains (homepath s) p \<and> \<not> masked_under s (homepath s) p \<or>
      path_contains (overlay_mount s) p \<and> \<not> masked_under s (overlay_mount s) p \<or>
      os_mem path_less ''.ssh'' (mask_files s) \<and> read_op op \<and>
        (ssh_path (path_append (homepath s) ''.ssh'') p \<or>
         ssh_path (path_append (overlay_mount s) ''.ssh'') p)"
    unfolding casual_rules_def Let_def allows_append allows_Cons [of _ "[_]"] allows_masked
    using file_op_prefix [OF assms]
    by (auto simp: op_star masked_under_def allows_append allows_carveouts)
  with kCasual show ?thesis
    by (auto simp: mode_rules_def mode_writable_def mode_readable_def)
next
  case kBare
  then show ?thesis using file_op_prefix [OF assms]
    by (auto simp: mode_rules_def mode_writable_def mode_readable_def allows_one op_star)
next
  case kStrict
  then show ?thesis by (simp add: mode_rules_def mode_writable_def mode_readable_def)
qed

lemma allows_cwd: "file_op op \<Longrightarrow> allows (cwd_rules s) op p \<longleftrightarrow> cwd_writable s p"
  unfolding cwd_rules_def cwd_writable_def masked_under_def
  by (auto simp: allows_masked op_star file_op_prefix)

lemma access_of_op: "file_op op \<Longrightarrow> op_matches (access_of flags) op \<longleftrightarrow> read_op op \<or> flags AND kGrantRO = 0"
  by (simp add: access_of_def op_star file_op_prefix)

lemma allows_grants: "file_op op \<Longrightarrow> allows (grant_rules s) op p \<longleftrightarrow> granted s (read_op op) p"
proof -
  assume f: "file_op op"
  have "allows (map (\<lambda>(d, flags). Allow (access_of flags) [Subpath d]) g) op p \<longleftrightarrow>
      (\<exists>(d, flags) \<in> set g. path_contains d p \<and> (read_op op \<or> flags AND kGrantRO = 0))" for g :: grants
    by (induction g) (auto simp: allows_Cons [of _ "map _ _"] allows_one access_of_op f)
  moreover have "allows (concat (map (\<lambda>(f, flags).
       [Allow (access_of flags) [Literal f], Allow (access_of flags) [Regex (sibling_pattern f)]]) g)) op p \<longleftrightarrow>
      (\<exists>(f, flags) \<in> set g. (path_iter f = path_iter p \<or> (\<exists>x. x \<noteq> [] \<and> p = f @ ''.'' @ x)) \<and>
         (read_op op \<or> flags AND kGrantRO = 0))" for g :: grants
    by (induction g) (auto simp: allows_append allows_Cons [of _ "_ # _"] allows_Cons [of _ "concat _"]
        allows_one access_of_op f sibling_matches)
  ultimately show ?thesis unfolding grant_rules_def granted_def by (simp add: allows_append)
qed

lemma policy:
  assumes "file_op op"
  shows "allows (profile_rules s) op p \<longleftrightarrow>
    read_op op \<and> (system_path p \<or> mode_readable s p) \<or> device_path p \<or>
    path_contains (private_tmp s) p \<or> mode_writable s p \<or> cwd_writable s p \<or>
    granted s (read_op op) p"
  unfolding profile_rules_def allows_append
  using allows_static [OF assms] allows_mode [OF assms] allows_cwd [OF assms]
    allows_grants [OF assms] file_op_prefix [OF assms]
  by (auto simp: allows_one op_star)

section \<open>The verdict on the text\<close>

lemma no_denials:
  assumes "file_op op"
  shows "list_all (no_denial op) (drop 2 (profile_rules s))"
proof -
  have "list_all (no_denial op) (drop 2 process_rules)"
    using assms by (simp add: process_rules_def no_denial_def file_op_other op_matches_def file_op_def prefix_def) auto
  moreover have "length process_rules > 2" by (simp add: process_rules_def)
  moreover have "list_all (no_denial op) (concat (map (\<lambda>(f, flags).
      [Allow (access_of flags) [Literal f], Allow (access_of flags) [Regex (sibling_pattern f)]]) g))" for g
    by (induction g) (auto simp: no_denial_def access_of_def)
  ultimately show ?thesis
    by (auto simp: profile_rules_def static_rules_def ipc_rules_def device_rules_def mode_rules_def casual_rules_def
        carveout_rules_def cwd_rules_def grant_rules_def access_of_def no_denial_def Let_def list_all_iff
        split: mode.split)
qed

lemma verdict_profile:
  assumes "file_op op"
  shows "decided op p (map rule_sexp (profile_rules s)) False \<longleftrightarrow> allows (profile_rules s) op p"
proof -
  have split: "profile_rules s = [Version ''1'', DenyDefault] @ drop 2 (profile_rules s)"
    by (simp add: profile_rules_def static_rules_def process_rules_def)
  have "decided op p (map rule_sexp (profile_rules s)) False \<longleftrightarrow> allows (drop 2 (profile_rules s)) op p"
    by (subst split) (simp add: verdict_rules [OF no_denials [OF assms]] del: drop_Suc_Cons)
  moreover have "allows (profile_rules s) op p \<longleftrightarrow> allows (drop 2 (profile_rules s)) op p"
    by (subst split) (simp add: allows_def rule_allows_def del: drop_Suc_Cons)
  ultimately show ?thesis by simp
qed

lemma permits_policy:
  assumes "generate_sandbox_profile w s = (Inr profile, s')" and "file_op op"
  shows "permits profile op p \<longleftrightarrow>
    read_op op \<and> (system_path p \<or> mode_readable s' p) \<or> device_path p \<or>
    path_contains (private_tmp s') p \<or> mode_writable s' p \<or> cwd_writable s' p \<or>
    granted s' (read_op op) p"
  using denotes_read [OF generate_denotes(1) [OF assms(1)]] verdict_profile [OF assms(2)] policy [OF assms(2)]
  by (simp add: permits_def)

section \<open>Properties\<close>

text \<open>C1: The profile that is generated says what the configuration asks for, whatever bytes the
  paths contain: reading its text, with strings and regex literals delimited as the profile
  language does, gives exactly the list of rules computed from the configuration.  No quote,
  parenthesis, backslash or newline in a path or mask can end a string early or add a rule.\<close>

theorem profile_text_denotes_rules:
  assumes "generate_sandbox_profile w s = (Inr profile, s')"
  shows "read_profile profile = Some (map rule_sexp (profile_rules s'))"
  using generate_denotes(1) [OF assms] by (rule denotes_read)

definition sample_jail :: config where
  "sample_jail = sample_config\<lparr>jail_mode := kCasual, private_tmp := ''/private/var/t/x'',
     overlay_mount := ''/private/var/c/jaim/d.mount'',
     mask_files := [(''.ssh'', ()), (''a'' @ [DQ] @ '')'', ())]\<rparr>"

lemma sample_profile:
  "\<exists>profile. generate_sandbox_profile sample_world sample_jail =
     (Inr profile, sample_jail\<lparr>cwd_path := ''/Users/u/proj''\<rparr>)"
  by (simp add: generate_sandbox_profile_def sample_jail_def sample_config_def initial_config_def
      bind_s_def home_access_def casual_access_def cwd_access_def cwd_def sample_world_def
      path_contains_def path_iter_def path_names_def is_absolute_def ends_with_slash_def
      path_append_def Let_def)

theorem profile_text_denotes_rules_witness:
  "\<exists>profile. read_profile profile =
     Some (map rule_sexp (profile_rules (sample_jail\<lparr>cwd_path := ''/Users/u/proj''\<rparr>)))"
  using sample_profile profile_text_denotes_rules by blast

text \<open>C4: Writing is confined: under the profile that is generated a file operation that is not a read is
  permitted on a path exactly when the path is one of the devices, lies in the private temporary
  directory, in the place the mode makes writable (casual: the overlay outside the masks; bare: the
  private home; strict: nowhere), in the granted working directory outside the masks, or in a
  directory or file granted without the read-only flag.  In no mode does the real home become
  writable by itself.\<close>

theorem writes_confined:
  assumes "generate_sandbox_profile w s = (Inr profile, s')" and "file_op op" and "\<not> read_op op"
  shows "permits profile op p \<longleftrightarrow>
    device_path p \<or> path_contains (private_tmp s') p \<or> mode_writable s' p \<or>
    cwd_writable s' p \<or> granted s' False p"
  using permits_policy [OF assms(1,2)] assms(3) by simp

theorem writes_confined_witness:
  "\<exists>profile. fst (generate_sandbox_profile sample_world sample_jail) = Inr profile \<and>
     \<not> permits profile ''file-write-data'' ''/Users/u/.zshrc''"
proof -
  obtain profile where run: "generate_sandbox_profile sample_world sample_jail =
      (Inr profile, sample_jail\<lparr>cwd_path := ''/Users/u/proj''\<rparr>)"
    using sample_profile by blast
  have "file_op ''file-write-data''" and "\<not> read_op ''file-write-data''"
    by (simp_all add: file_op_def read_op_def)
  from writes_confined [OF run this, of "''/Users/u/.zshrc''"] run show ?thesis
    by (simp add: device_path_def terminal_path_def mode_writable_def cwd_writable_def granted_def sample_jail_def
        sample_config_def initial_config_def path_contains_def path_iter_def path_names_def
        is_absolute_def ends_with_slash_def)
qed

end
