(* ===== verification/Profile_Guarantees.thy ===== *)
theory Profile_Guarantees
  imports Profile_Policy
begin

text \<open>
  The guarantees of the sandbox that follow from its policy: masked files stay out of reach,
  a mode without a home directory has none, the working directory is never half granted.
  They are stated for paths outside the system directories and of the verdict on the generated text.
\<close>

section \<open>Layout of a machine\<close>

text \<open>A path that no static rule covers: not under a system directory, not a device.\<close>

definition user_path :: "path \<Rightarrow> bool" where
  "user_path p \<longleftrightarrow> \<not> system_path p \<and> \<not> prefix ''/dev/'' p"

lemma dev_system:
  assumes "path_iter p \<in> path_iter ` {''/dev/null'', ''/dev/tty'', ''/dev/ptmx''}"
  shows "system_path p"
proof -
  have "path_iter ''/dev/null'' = [''/'', ''dev'', ''null'']" "path_iter ''/dev/tty'' = [''/'', ''dev'', ''tty'']"
    "path_iter ''/dev/ptmx'' = [''/'', ''dev'', ''ptmx'']" "path_iter ''/dev'' = [''/'', ''dev'']"
    by (simp_all add: path_iter_def path_names_def is_absolute_def ends_with_slash_def)
  with assms have "path_contains ''/dev'' p" by (auto simp: path_contains_prefix)
  then show ?thesis by (simp add: system_path_def system_dirs_def)
qed

lemma user_not_device: "user_path p \<Longrightarrow> \<not> device_path p"
  using dev_system by (auto simp: device_path_def user_path_def terminal_path_def prefix_def)

lemma permits_user_path:
  assumes "generate_sandbox_profile w s = (Inr profile, s')" and "file_op op" and "user_path p"
  shows "permits profile op p \<longleftrightarrow>
    read_op op \<and> mode_readable s' p \<or> path_contains (private_tmp s') p \<or> mode_writable s' p \<or>
    cwd_writable s' p \<or> granted s' (read_op op) p"
  using permits_policy [OF assms(1,2)] user_not_device [OF assms(3)] assms(3)
  by (auto simp: user_path_def)

section \<open>Masks\<close>


lemmas path_eval = path_contains_prefix path_iter_def path_names_def is_absolute_def
  ends_with_slash_def path_append_def

lemmas sample_eval = sample_jail_def sample_config_def initial_config_def

lemma user_sample: "user_path ''/Users/u/.ssh/id_rsa''" "user_path ''/Users/u/.zshrc''"
  by (simp_all add: user_path_def system_path_def system_dirs_def system_literals_def path_eval)


section \<open>Modes without a home directory\<close>

text \<open>C5: Under the profile that is generated for strict mode a path outside the system directories can be
  reached, for reading or writing, only through the private temporary directory, the working
  directory outside the masks, or an explicit grant; the home directory gives no access at all.  In
  bare mode the private home is added, and nothing of the real home.\<close>

theorem strict_and_bare_isolate_home:
  assumes "generate_sandbox_profile w s = (Inr profile, s')" and "file_op op" and "user_path p"
    and "jail_mode s' \<noteq> kCasual" and "permits profile op p"
  shows "path_contains (private_tmp s') p \<or>
    (jail_mode s' = kBare \<and> path_contains (private_home s') p) \<or>
    (grant_cwd s' \<and> path_contains (cwd_path s') p \<and> \<not> masked_under s' (homepath s') p) \<or>
    granted s' (read_op op) p"
  using permits_user_path [OF assms(1-3)] assms(4,5)
  by (auto simp: mode_readable_def mode_writable_def cwd_writable_def split: mode.splits)

lemma strict_profile:
  "\<exists>profile. generate_sandbox_profile sample_world (sample_jail\<lparr>jail_mode := kStrict\<rparr>) =
     (Inr profile, sample_jail\<lparr>jail_mode := kStrict, cwd_path := ''/Users/u/proj''\<rparr>)"
proof -
  let ?s = "sample_jail\<lparr>jail_mode := kStrict\<rparr>"
  have "cwd sample_world ?s = (Inr ''/Users/u/proj'', ?s\<lparr>cwd_path := ''/Users/u/proj''\<rparr>)"
    by (simp add: cwd_def sample_world_def sample_eval)
  moreover have "\<not> path_contains (path_append ''/Users/u'' ''.ssh'') ''/Users/u/proj''"
    "\<not> path_contains (path_append ''/Users/u'' (''a'' @ [DQ] @ '')'')) ''/Users/u/proj''"
    by (simp_all add: path_eval)
  ultimately have "\<exists>t. cwd_access sample_world ?s = (Inr t, ?s\<lparr>cwd_path := ''/Users/u/proj''\<rparr>)"
    by (simp add: cwd_access_def bind_s_def sample_eval Let_def)
  then obtain t where "cwd_access sample_world ?s = (Inr t, ?s\<lparr>cwd_path := ''/Users/u/proj''\<rparr>)" by blast
  moreover have "private_tmp ?s \<noteq> []" by (simp add: sample_eval)
  moreover have "home_access ?s = (Inr [], ?s)" by (simp add: home_access_def)
  ultimately show ?thesis by (simp add: generate_sandbox_profile_def bind_s_def)
qed

theorem strict_and_bare_isolate_home_witness:
  "\<exists>profile. fst (generate_sandbox_profile sample_world (sample_jail\<lparr>jail_mode := kStrict\<rparr>)) = Inr profile \<and>
     \<not> permits profile ''file-read-data'' ''/Users/u/.zshrc''"
proof -
  let ?s = "sample_jail\<lparr>jail_mode := kStrict, cwd_path := ''/Users/u/proj''\<rparr>"
  obtain profile where run: "generate_sandbox_profile sample_world (sample_jail\<lparr>jail_mode := kStrict\<rparr>) = (Inr profile, ?s)"
    using strict_profile by blast
  have f: "file_op ''file-read-data''" by (simp add: file_op_def)
  have "\<not> permits profile ''file-read-data'' ''/Users/u/.zshrc''"
  proof
    assume a: "permits profile ''file-read-data'' ''/Users/u/.zshrc''"
    have m: "jail_mode ?s \<noteq> kCasual" by simp
    from strict_and_bare_isolate_home [OF run f user_sample(2) m a] show False
      by (simp add: sample_eval path_eval granted_def)
  qed
  with run show ?thesis by simp
qed

section \<open>The working directory\<close>

lemma cwd_success:
  assumes "generate_sandbox_profile w s = (Inr profile, s')" and "grant_cwd s"
  shows "\<exists>c u. cwd w s = (Inr c, u) \<and> cwd_path s' = c \<and>
    \<not> masked_under s (homepath s) c"
proof -
  obtain h t where "cwd_access w s = (Inr t, s')" using assms(1) by (rule generate_parts)
  with assms(2) obtain c u where c: "cwd w s = (Inr c, u)"
    and a: "(case find (\<lambda>m. path_contains (path_append (homepath u) m) c) (os_elems (mask_files u)) of
          Some m \<Rightarrow> (Inl (refusal c (path_append (homepath u) m)), u)
        | None \<Rightarrow> (Inr (if os_elems (mask_files u) = [] then subpath_rule ''file*'' c
              else masked_rule ''file*'' c (homepath u) (os_elems (mask_files u))), u)) = (Inr t, s')"
    by (auto simp: cwd_access_def bind_s_def Let_def split: sum.splits prod.splits)
  have u: "u = s\<lparr>cwd_path := c\<rparr>" using cwd_result [OF c] .
  from a have "find (\<lambda>m. path_contains (path_append (homepath u) m) c) (os_elems (mask_files u)) = None"
    and s': "s' = u"
    by (auto split: option.splits)
  with u have "\<not> masked_under s (homepath s) c"
    by (auto simp: masked_under_def find_None_iff)
  with c u s' show ?thesis by auto
qed

lemma cwd_permitted:
  assumes "generate_sandbox_profile w s = (Inr profile, s')" and "grant_cwd s" and "file_op op"
  shows "permits profile op (cwd_path s')"
proof -
  obtain c where s': "s' = s\<lparr>cwd_path := c\<rparr>" using generate_denotes(2) [OF assms(1)] by blast
  have "\<not> masked_under s (homepath s) (cwd_path s')" using cwd_success [OF assms(1,2)] by auto
  then have "cwd_writable s' (cwd_path s')"
    using assms(2) by (simp add: cwd_writable_def masked_under_def path_contains_prefix s')
  then show ?thesis using permits_policy [OF assms(1,3)] by blast
qed

text \<open>C27: Whenever a profile is produced with the working directory granted, the command can work there:
  that profile permits every file operation on the working directory itself.  The rule for it never
  cancels itself, because a working directory inside a masked path is refused.\<close>

theorem granted_cwd_usable:
  assumes "generate_sandbox_profile w s = (Inr profile, s')" and "grant_cwd s" and "file_op op"
  shows "permits profile op (cwd_path s')"
  by (rule cwd_permitted) (use assms in auto)

theorem granted_cwd_usable_witness:
  "\<exists>profile. fst (generate_sandbox_profile sample_world sample_jail) = Inr profile \<and>
     permits profile ''file-write-create'' ''/Users/u/proj''"
proof -
  obtain profile where p: "generate_sandbox_profile sample_world sample_jail =
      (Inr profile, sample_jail\<lparr>cwd_path := ''/Users/u/proj''\<rparr>)"
    using sample_profile by blast
  have "grant_cwd sample_jail" by (simp add: sample_eval)
  moreover have "file_op ''file-write-create''" by (simp add: file_op_def)
  ultimately show ?thesis using granted_cwd_usable [OF p] p by fastforce
qed

text \<open>C28: A working directory inside a masked path is refused: no profile is produced, and the
  error names the directory and a masked path that contains it.\<close>

theorem masked_cwd_refused:
  assumes "grant_cwd s" and "cwd w s = (Inr c, u)" and "private_tmp s \<noteq> []"
    and "home_access s = (Inr h, s)" and "masked_under s (homepath s) c"
  shows "\<exists>m \<in> set (os_elems (mask_files s)).
    path_contains (path_append (homepath s) m) c \<and>
    fst (generate_sandbox_profile w s) = Inl (refusal c (path_append (homepath s) m))"
proof -
  have u: "u = s\<lparr>cwd_path := c\<rparr>" using cwd_result [OF assms(2)] .
  obtain m where f: "find (\<lambda>m. path_contains (path_append (homepath s) m) c) (os_elems (mask_files s)) = Some m"
    using assms(5) by (cases "find (\<lambda>m. path_contains (path_append (homepath s) m) c)
        (os_elems (mask_files s))") (auto simp: masked_under_def find_None_iff)
  have "fst (generate_sandbox_profile w s) = Inl (refusal c (path_append (homepath s) m))"
    using assms f by (simp add: generate_sandbox_profile_def bind_s_def cwd_access_def u)
  moreover have "m \<in> set (os_elems (mask_files s)) \<and> path_contains (path_append (homepath s) m) c"
    using f by (metis (no_types, lifting) find_Some_iff nth_mem)
  ultimately show ?thesis by blast
qed

theorem masked_cwd_refused_witness:
  "fst (generate_sandbox_profile (sample_world\<lparr>w_current_path := ''/Users/u/.ssh/keys''\<rparr>) sample_jail) =
     Inl (refusal ''/Users/u/.ssh/keys'' ''/Users/u/.ssh'')"
proof -
  let ?w = "sample_world\<lparr>w_current_path := ''/Users/u/.ssh/keys''\<rparr>"
  let ?s = "sample_jail"
  have g: "grant_cwd ?s" "private_tmp ?s \<noteq> []" by (simp_all add: sample_eval)
  have c: "cwd ?w ?s = (Inr ''/Users/u/.ssh/keys'', ?s\<lparr>cwd_path := ''/Users/u/.ssh/keys''\<rparr>)"
    by (simp add: cwd_def sample_world_def sample_eval)
  obtain h where h: "home_access ?s = (Inr h, ?s)"
    using sample_profile generate_parts by metis
  have "masked_under ?s (homepath ?s) ''/Users/u/.ssh/keys''"
    by (simp add: masked_under_def sample_eval path_eval)
  from masked_cwd_refused [OF g(1) c g(2) h this] show ?thesis
    by (auto simp: sample_eval path_eval)
qed

section \<open>Gaps\<close>

text \<open>C37: Every profile that is generated lets everything under \<open>/private/var\<close> be read, in every mode,
  masks or not: the rule for the system directories covers the per-user cache and temporary
  directories, and with them the overlay mount point and the masked files seen through it.\<close>

theorem private_var_readable:
  assumes "generate_sandbox_profile w s = (Inr profile, s')" and "read_op op"
    and "path_contains ''/private/var'' p"
  shows "permits profile op p"
  using permits_policy [OF assms(1) read_file_op [OF assms(2)], of p] assms(2,3)
  by (auto simp: system_path_def system_dirs_def)

theorem private_var_readable_witness:
  "\<exists>profile. fst (generate_sandbox_profile sample_world sample_jail) = Inr profile \<and>
     permits profile ''file-read-data'' ''/private/var/c/jaim/d.mount/.ssh/id_rsa''"
proof -
  obtain profile where p: "generate_sandbox_profile sample_world sample_jail =
      (Inr profile, sample_jail\<lparr>cwd_path := ''/Users/u/proj''\<rparr>)"
    using sample_profile by blast
  have "permits profile ''file-read-data'' ''/private/var/c/jaim/d.mount/.ssh/id_rsa''"
    by (rule private_var_readable [OF p]) (simp_all add: read_op_def path_eval)
  with p show ?thesis by simp
qed





end
