(* ===== verification/Kernel.thy ===== *)
theory Kernel
  imports Paths "HOL-Library.Word"
begin

unbundle bit_operations_syntax

text \<open>
  The POSIX file system that the overlay works on: the system calls of
  \<open>src/overlay.cc\<close> as operations on a store of directory entries, inodes and open
  descriptors.  A location is the list of names from the root.  Every call first consults
  a plan: the environment may make it fail with any errno, or cut a write short.  So what is
  proved of the overlay holds for permission errors, full disks and interrupts as well.
\<close>

section \<open>Store\<close>

type_synonym loc = "string list"
type_synonym ino = nat

datatype fkind = Reg string | Dir | Lnk string | Chr nat nat | Special

record inode =
  i_kind :: fkind
  i_mode :: nat
  i_uid :: nat
  i_gid :: nat
  i_atime :: "int \<times> int"
  i_mtime :: "int \<times> int"
  i_xattr :: "(string \<times> string) list"

datatype plan = Pass | Fail nat | Short nat

record kernel =
  dir_table :: "(loc \<times> ino) list"
  inodes :: "ino \<Rightarrow> inode option"
  next_ino :: ino
  fds :: "nat \<Rightarrow> (ino \<times> bool) option"
  next_fd :: nat
  plans :: "plan list"

type_synonym ('z, 'a) sys = "('z kernel_scheme, nat, 'a) estep"

type_synonym flags = "32 word"

definition has_flag :: "flags \<Rightarrow> flags \<Rightarrow> bool" where
  "has_flag flags f \<longleftrightarrow> flags AND f \<noteq> 0"

definition EPERM :: nat where "EPERM = 1"
definition EINTR :: nat where "EINTR = 4"
definition EBADF :: nat where "EBADF = 9"
definition EEXIST :: nat where "EEXIST = 17"
definition ENOTDIR :: nat where "ENOTDIR = 20"
definition EISDIR :: nat where "EISDIR = 21"
definition EINVAL :: nat where "EINVAL = 22"
definition ERANGE :: nat where "ERANGE = 34"
definition ELOOP :: nat where "ELOOP = 62"
definition ENOTEMPTY :: nat where "ENOTEMPTY = 66"
definition ENOATTR :: nat where "ENOATTR = 93"

definition entry :: "'z kernel_scheme \<Rightarrow> loc \<Rightarrow> ino option" where
  "entry k l = map_of (dir_table k) l"

definition node :: "'z kernel_scheme \<Rightarrow> loc \<Rightarrow> inode option" where
  "node k l = Option.bind (entry k l) (inodes k)"

definition kind_at :: "'z kernel_scheme \<Rightarrow> loc \<Rightarrow> fkind option" where
  "kind_at k l = map_option i_kind (node k l)"

definition is_dir_at :: "'z kernel_scheme \<Rightarrow> loc \<Rightarrow> bool" where
  "is_dir_at k l \<longleftrightarrow> kind_at k l = Some Dir"

text \<open>The names in a directory.\<close>

definition children :: "'z kernel_scheme \<Rightarrow> loc \<Rightarrow> string list" where
  "children k d =
     remdups (map (\<lambda>(l, i). last l) (filter (\<lambda>(l, i). l \<noteq> [] \<and> butlast l = d) (dir_table k)))"

section \<open>Name resolution\<close>

definition maxsymlinks :: nat where "maxsymlinks = 32"

text \<open>
  \<open>walk n kinds d names follow\<close>: resolve the names from the directory \<open>d\<close>, following symbolic
  links on the way, and at the end if \<open>follow\<close>; at most \<open>n\<close> links.  The last name need not exist.
\<close>

function walk :: "nat \<Rightarrow> (loc \<Rightarrow> fkind option) \<Rightarrow> loc \<Rightarrow> string list \<Rightarrow> bool \<Rightarrow> nat + loc" where
  "walk n kinds d [] follow = Inr d"
| "walk n kinds d (c # cs) follow =
     (if kinds d \<noteq> Some Dir then Inl ENOTDIR
      else if c = ''.'' then walk n kinds d cs follow
      else if c = ''..'' then walk n kinds (butlast d) cs follow
      else case kinds (d @ [c]) of
        None \<Rightarrow> if cs = [] then Inr (d @ [c]) else Inl ENOENT
      | Some (Lnk target) \<Rightarrow>
          if cs = [] \<and> \<not> follow then Inr (d @ [c])
          else if n = 0 then Inl ELOOP
          else walk (n - 1) kinds (if is_absolute target then [] else d) (path_names target @ cs) follow
      | Some _ \<Rightarrow> walk n kinds (d @ [c]) cs follow)"
  by pat_completeness auto
termination
  by (relation "measures [\<lambda>(n, kinds, d, cs, f). n, \<lambda>(n, kinds, d, cs, f). length cs]") auto

declare walk.simps(2) [simp del]

definition lookup_path :: "'z kernel_scheme \<Rightarrow> path \<Rightarrow> bool \<Rightarrow> nat + loc" where
  "lookup_path k p follow = walk maxsymlinks (kind_at k) [] (path_names p) follow"

section \<open>System calls\<close>

definition syscall :: "('z, 'a) sys \<Rightarrow> ('z, 'a) sys" where
  "syscall m k =
     (case plans k of
        [] \<Rightarrow> m k
      | Fail e # ps \<Rightarrow> (Inl e, k\<lparr>plans := ps\<rparr>)
      | _ # ps \<Rightarrow> m (k\<lparr>plans := ps\<rparr>))"

text \<open>A call on a path, and a call on an existing node.\<close>

definition at_path :: "path \<Rightarrow> bool \<Rightarrow> (loc \<Rightarrow> ('z, 'a) sys) \<Rightarrow> ('z, 'a) sys" where
  "at_path p follow f =
     syscall (\<lambda>k. case lookup_path k p follow of Inl e \<Rightarrow> (Inl e, k) | Inr l \<Rightarrow> f l k)"

definition at_node :: "path \<Rightarrow> bool \<Rightarrow> (loc \<Rightarrow> ino \<Rightarrow> inode \<Rightarrow> ('z, 'a) sys) \<Rightarrow> ('z, 'a) sys" where
  "at_node p follow f =
     at_path p follow (\<lambda>l k.
       case entry k l of
         None \<Rightarrow> (Inl ENOENT, k)
       | Some i \<Rightarrow> (case inodes k i of None \<Rightarrow> (Inl ENOENT, k) | Some nd \<Rightarrow> f l i nd k))"

definition set_inode :: "ino \<Rightarrow> inode \<Rightarrow> 'z kernel_scheme \<Rightarrow> 'z kernel_scheme" where
  "set_inode i nd k = k\<lparr>inodes := (inodes k)(i := Some nd)\<rparr>"

definition new_inode :: "fkind \<Rightarrow> nat \<Rightarrow> inode" where
  "new_inode kind mode =
     \<lparr>i_kind = kind, i_mode = mode, i_uid = 0, i_gid = 0, i_atime = (0, 0), i_mtime = (0, 0), i_xattr = []\<rparr>"

text \<open>Making a node at a location that has none.\<close>

definition add_node :: "loc \<Rightarrow> inode \<Rightarrow> 'z kernel_scheme \<Rightarrow> 'z kernel_scheme" where
  "add_node l nd k =
     k\<lparr>dir_table := (l, next_ino k) # dir_table k,
       inodes := (inodes k)(next_ino k := Some nd),
       next_ino := Suc (next_ino k)\<rparr>"

definition remove_entry :: "loc \<Rightarrow> 'z kernel_scheme \<Rightarrow> 'z kernel_scheme" where
  "remove_entry l k = k\<lparr>dir_table := filter (\<lambda>(l', i). l' \<noteq> l) (dir_table k)\<rparr>"

definition make :: "path \<Rightarrow> inode \<Rightarrow> ('z, unit) sys" where
  "make p nd =
     at_path p False (\<lambda>l k.
       if entry k l \<noteq> None then (Inl EEXIST, k) else (Inr (), add_node l nd k))"

definition sys_lstat :: "path \<Rightarrow> ('z, inode) sys" where
  "sys_lstat p = at_node p False (\<lambda>l i nd k. (Inr nd, k))"

definition sys_mkdir :: "path \<Rightarrow> nat \<Rightarrow> ('z, unit) sys" where
  "sys_mkdir p mode = make p (new_inode Dir mode)"

definition sys_mknod_whiteout :: "path \<Rightarrow> ('z, unit) sys" where
  "sys_mknod_whiteout p = make p (new_inode (Chr 0 0) 0)"

definition sys_symlink :: "string \<Rightarrow> path \<Rightarrow> ('z, unit) sys" where
  "sys_symlink target p = make p (new_inode (Lnk target) 511)"

definition sys_unlink :: "path \<Rightarrow> ('z, unit) sys" where
  "sys_unlink p =
     at_node p False (\<lambda>l i nd k.
       if i_kind nd = Dir then (Inl EPERM, k) else (Inr (), remove_entry l k))"

definition sys_rmdir :: "path \<Rightarrow> ('z, unit) sys" where
  "sys_rmdir p =
     at_node p False (\<lambda>l i nd k.
       if i_kind nd \<noteq> Dir then (Inl ENOTDIR, k)
       else if children k l \<noteq> [] then (Inl ENOTEMPTY, k)
       else (Inr (), remove_entry l k))"

text \<open>\<open>rename\<close>: the destination, if any, is replaced and the source moves with its subtree.\<close>

definition move_loc :: "loc \<Rightarrow> loc \<Rightarrow> loc \<Rightarrow> loc" where
  "move_loc a b l = (if prefix a l then b @ drop (length a) l else l)"

definition move_entries :: "loc \<Rightarrow> loc \<Rightarrow> 'z kernel_scheme \<Rightarrow> 'z kernel_scheme" where
  "move_entries a b k = k\<lparr>dir_table := map (\<lambda>(l, i). (move_loc a b l, i)) (dir_table k)\<rparr>"

definition rename_at :: "loc \<Rightarrow> loc \<Rightarrow> ('z, unit) sys" where
  "rename_at a b k =
     (case (node k a, node k b) of
        (None, _) \<Rightarrow> (Inl ENOENT, k)
      | (Some na, None) \<Rightarrow>
          if prefix a b then (Inl EINVAL, k) else (Inr (), move_entries a b k)
      | (Some na, Some nb) \<Rightarrow>
          if entry k a = entry k b then (Inr (), k)
          else if prefix a b then (Inl EINVAL, k)
          else if i_kind na = Dir \<and> i_kind nb \<noteq> Dir then (Inl ENOTDIR, k)
          else if i_kind na \<noteq> Dir \<and> i_kind nb = Dir then (Inl EISDIR, k)
          else if children k b \<noteq> [] then (Inl ENOTEMPTY, k)
          else (Inr (), move_entries a b (remove_entry b k)))"

definition sys_rename :: "path \<Rightarrow> path \<Rightarrow> ('z, unit) sys" where
  "sys_rename p q =
     syscall (\<lambda>k.
       case (lookup_path k p False, lookup_path k q False) of
         (Inl e, _) \<Rightarrow> (Inl e, k)
       | (Inr a, Inl e) \<Rightarrow> (Inl e, k)
       | (Inr a, Inr b) \<Rightarrow> rename_at a b k)"

text \<open>\<open>link\<close> follows a symbolic link at its first path.\<close>

definition sys_link :: "path \<Rightarrow> path \<Rightarrow> ('z, unit) sys" where
  "sys_link p q =
     syscall (\<lambda>k.
       case (lookup_path k p True, lookup_path k q False) of
         (Inl e, _) \<Rightarrow> (Inl e, k)
       | (Inr a, Inl e) \<Rightarrow> (Inl e, k)
       | (Inr a, Inr b) \<Rightarrow>
           (case entry k a of
              None \<Rightarrow> (Inl ENOENT, k)
            | Some i \<Rightarrow>
                if is_dir_at k a then (Inl EPERM, k)
                else if entry k b \<noteq> None then (Inl EEXIST, k)
                else (Inr (), k\<lparr>dir_table := (b, i) # dir_table k\<rparr>)))"

definition sys_readlink :: "path \<Rightarrow> ('z, string) sys" where
  "sys_readlink p =
     at_node p False (\<lambda>l i nd k.
       case i_kind nd of Lnk t \<Rightarrow> (Inr t, k) | _ \<Rightarrow> (Inl EINVAL, k))"

text \<open>\<open>opendir\<close> and the \<open>readdir\<close> calls up to the end of the directory.\<close>

definition sys_listdir :: "path \<Rightarrow> ('z, string list) sys" where
  "sys_listdir p =
     at_node p True (\<lambda>l i nd k.
       if i_kind nd \<noteq> Dir then (Inl ENOTDIR, k) else (Inr ([''.'', ''..''] @ children k l), k))"

text \<open>Permissions are the environment's: a refusal is a failure of the plan.\<close>

definition sys_access :: "path \<Rightarrow> nat \<Rightarrow> ('z, unit) sys" where
  "sys_access p m = at_node p True (\<lambda>l i nd k. (Inr (), k))"

definition sys_stat :: "path \<Rightarrow> ('z, inode) sys" where
  "sys_stat p = at_node p True (\<lambda>l i nd k. (Inr nd, k))"

text \<open>\<open>statvfs\<close> describes the file system of a location, \<open>realpath\<close> prints one.\<close>

definition sys_statvfs :: "path \<Rightarrow> ('z, loc) sys" where
  "sys_statvfs p = at_node p True (\<lambda>l i nd k. (Inr l, k))"

definition show_loc :: "loc \<Rightarrow> path" where
  "show_loc l = (if l = [] then ''/'' else concat (map ((#) SLASH) l))"

definition sys_realpath :: "path \<Rightarrow> ('z, path) sys" where
  "sys_realpath p = at_node p True (\<lambda>l i nd k. (Inr (show_loc l), k))"

definition perm_bits :: "nat \<Rightarrow> nat" where
  "perm_bits mode = mode mod 4096"

text \<open>Changes of a node: of the target of a symbolic link, or (\<open>lchown\<close>) of the link.\<close>

definition change_node :: "path \<Rightarrow> bool \<Rightarrow> (inode \<Rightarrow> nat + inode) \<Rightarrow> ('z, unit) sys" where
  "change_node p follow f =
     at_node p follow (\<lambda>l i nd k.
       case f nd of Inl e \<Rightarrow> (Inl e, k) | Inr nd' \<Rightarrow> (Inr (), set_inode i nd' k))"

definition sys_chmod :: "path \<Rightarrow> nat \<Rightarrow> ('z, unit) sys" where
  "sys_chmod p mode = change_node p True (\<lambda>nd. Inr (nd\<lparr>i_mode := mode\<rparr>))"

definition sys_lchown :: "path \<Rightarrow> nat \<Rightarrow> nat \<Rightarrow> ('z, unit) sys" where
  "sys_lchown p uid gid = change_node p False (\<lambda>nd. Inr (nd\<lparr>i_uid := uid, i_gid := gid\<rparr>))"

definition sys_utimes :: "path \<Rightarrow> int \<times> int \<Rightarrow> int \<times> int \<Rightarrow> ('z, unit) sys" where
  "sys_utimes p t mt = change_node p True (\<lambda>nd. Inr (nd\<lparr>i_atime := t, i_mtime := mt\<rparr>))"

definition resize :: "nat \<Rightarrow> string \<Rightarrow> string" where
  "resize n s = take n s @ replicate (n - length s) (CHR 0x00)"

definition truncate_node :: "nat \<Rightarrow> inode \<Rightarrow> nat + inode" where
  "truncate_node n nd =
     (case i_kind nd of
        Reg s \<Rightarrow> Inr (nd\<lparr>i_kind := Reg (resize n s)\<rparr>)
      | Dir \<Rightarrow> Inl EISDIR
      | _ \<Rightarrow> Inl EINVAL)"

text \<open>\<open>off_t\<close> is signed: a negative length is refused before anything is looked up.\<close>

definition at_length :: "int \<Rightarrow> (nat \<Rightarrow> ('z, unit) sys) \<Rightarrow> ('z, unit) sys" where
  "at_length n f = (if n < 0 then syscall (\<lambda>k. (Inl EINVAL, k)) else f (nat n))"

definition sys_truncate :: "path \<Rightarrow> int \<Rightarrow> ('z, unit) sys" where
  "sys_truncate p n = at_length n (\<lambda>n. change_node p True (truncate_node n))"

text \<open>Extended attributes: of a symbolic link itself if the flags say so.\<close>

definition XATTR_NOFOLLOW :: flags where "XATTR_NOFOLLOW = 1"
definition XATTR_CREATE :: flags where "XATTR_CREATE = 2"
definition XATTR_REPLACE :: flags where "XATTR_REPLACE = 4"

definition has_xattr :: "string \<Rightarrow> inode \<Rightarrow> bool" where
  "has_xattr name nd \<longleftrightarrow> map_of (i_xattr nd) name \<noteq> None"

definition drop_xattr :: "string \<Rightarrow> inode \<Rightarrow> inode" where
  "drop_xattr name nd = nd\<lparr>i_xattr := filter (\<lambda>(n, _). n \<noteq> name) (i_xattr nd)\<rparr>"

definition sys_setxattr :: "path \<Rightarrow> string \<Rightarrow> string \<Rightarrow> nat \<Rightarrow> flags \<Rightarrow> ('z, unit) sys" where
  "sys_setxattr p name v pos flags =
     change_node p (\<not> has_flag flags XATTR_NOFOLLOW) (\<lambda>nd.
       if pos \<noteq> 0 then Inl EINVAL
       else if has_flag flags XATTR_CREATE \<and> has_xattr name nd then Inl EEXIST
       else if has_flag flags XATTR_REPLACE \<and> \<not> has_xattr name nd then Inl ENOATTR
       else Inr (i_xattr_update ((#) (name, v)) (drop_xattr name nd)))"

definition sys_removexattr :: "path \<Rightarrow> string \<Rightarrow> flags \<Rightarrow> ('z, unit) sys" where
  "sys_removexattr p name flags =
     change_node p (\<not> has_flag flags XATTR_NOFOLLOW) (\<lambda>nd.
       if has_xattr name nd then Inr (drop_xattr name nd) else Inl ENOATTR)"

text \<open>A buffer of size 0 asks for the length only; the length is that of the result.\<close>

definition fits :: "nat \<Rightarrow> nat \<Rightarrow> bool" where
  "fits n len \<longleftrightarrow> n = 0 \<or> len \<le> n"

definition sys_getxattr :: "path \<Rightarrow> string \<Rightarrow> nat \<Rightarrow> flags \<Rightarrow> ('z, string) sys" where
  "sys_getxattr p name n flags =
     at_node p (\<not> has_flag flags XATTR_NOFOLLOW) (\<lambda>l i nd k.
       case map_of (i_xattr nd) name of
         None \<Rightarrow> (Inl ENOATTR, k)
       | Some v \<Rightarrow> if fits n (length v) then (Inr v, k) else (Inl ERANGE, k))"

definition sys_listxattr :: "path \<Rightarrow> nat \<Rightarrow> flags \<Rightarrow> ('z, string list) sys" where
  "sys_listxattr p n flags =
     at_node p (\<not> has_flag flags XATTR_NOFOLLOW) (\<lambda>l i nd k.
       if fits n (sum_list (map (\<lambda>(a, _). length a + 1) (i_xattr nd)))
       then (Inr (map fst (i_xattr nd)), k) else (Inl ERANGE, k))"

section \<open>Descriptors\<close>

definition O_RDONLY :: flags where "O_RDONLY = 0"
definition O_WRONLY :: flags where "O_WRONLY = 1"
definition O_RDWR :: flags where "O_RDWR = 2"
definition O_APPEND :: flags where "O_APPEND = 8"
definition O_NOFOLLOW :: flags where "O_NOFOLLOW = 0x100"
definition O_CREAT :: flags where "O_CREAT = 0x200"
definition O_TRUNC :: flags where "O_TRUNC = 0x400"
definition O_EXCL :: flags where "O_EXCL = 0x800"

definition writable_flags :: "flags \<Rightarrow> bool" where
  "writable_flags flags \<longleftrightarrow> has_flag flags (O_WRONLY OR O_RDWR)"

definition new_fd :: "ino \<Rightarrow> bool \<Rightarrow> ('z, nat) sys" where
  "new_fd i wr k =
     (Inr (next_fd k), k\<lparr>fds := (fds k)(next_fd k := Some (i, wr)), next_fd := Suc (next_fd k)\<rparr>)"

text \<open>The last link is followed unless the caller or the creation of a new file forbids it.\<close>

definition follows :: "flags \<Rightarrow> bool" where
  "follows flags \<longleftrightarrow>
     \<not> has_flag flags O_NOFOLLOW \<and> \<not> (has_flag flags O_CREAT \<and> has_flag flags O_EXCL)"

definition sys_open :: "path \<Rightarrow> flags \<Rightarrow> nat \<Rightarrow> ('z, nat) sys" where
  "sys_open p flags mode =
     at_path p (follows flags) (\<lambda>l k.
       case entry k l of
         None \<Rightarrow>
           if has_flag flags O_CREAT
           then new_fd (next_ino k) (writable_flags flags) (add_node l (new_inode (Reg []) mode) k)
           else (Inl ENOENT, k)
       | Some i \<Rightarrow>
           (case inodes k i of
              None \<Rightarrow> (Inl ENOENT, k)
            | Some nd \<Rightarrow>
                if has_flag flags O_CREAT \<and> has_flag flags O_EXCL then (Inl EEXIST, k)
                else case i_kind nd of
                  Lnk t \<Rightarrow> (Inl ELOOP, k)
                | Dir \<Rightarrow>
                    if writable_flags flags \<or> has_flag flags O_TRUNC then (Inl EISDIR, k)
                    else new_fd i False k
                | Reg s \<Rightarrow>
                    new_fd i (writable_flags flags)
                      (if has_flag flags O_TRUNC then set_inode i (nd\<lparr>i_kind := Reg []\<rparr>) k else k)
                | _ \<Rightarrow> new_fd i (writable_flags flags) k))"

definition sys_close :: "nat \<Rightarrow> ('z, unit) sys" where
  "sys_close fd = syscall (\<lambda>k. (Inr (), k\<lparr>fds := (fds k)(fd := None)\<rparr>))"

definition at_fd :: "nat \<Rightarrow> (ino \<Rightarrow> bool \<Rightarrow> inode \<Rightarrow> ('z, 'a) sys) \<Rightarrow> ('z, 'a) sys" where
  "at_fd fd f =
     syscall (\<lambda>k.
       case fds k fd of
         None \<Rightarrow> (Inl EBADF, k)
       | Some (i, wr) \<Rightarrow>
           (case inodes k i of None \<Rightarrow> (Inl EBADF, k) | Some nd \<Rightarrow> f i wr nd k))"

definition sys_fstat :: "nat \<Rightarrow> ('z, inode) sys" where
  "sys_fstat fd = at_fd fd (\<lambda>i wr nd k. (Inr nd, k))"

text \<open>
  A call may move fewer bytes than it is asked to: the plan says how many.  A read of at least
  one byte before the end of the file returns at least one.
\<close>

definition transferred :: "'z kernel_scheme \<Rightarrow> nat \<Rightarrow> nat" where
  "transferred k n = (case plans k of Short m # _ \<Rightarrow> min m n | _ \<Rightarrow> n)"

definition sys_pread :: "nat \<Rightarrow> nat \<Rightarrow> nat \<Rightarrow> ('z, string) sys" where
  "sys_pread fd n off k =
     at_fd fd (\<lambda>i wr nd k'.
       case i_kind nd of
         Reg s \<Rightarrow> (Inr (take (max 1 (transferred k n)) (take n (drop off s))), k')
       | Dir \<Rightarrow> (Inl EISDIR, k')
       | _ \<Rightarrow> (Inl EINVAL, k')) k"

definition write_at :: "nat \<Rightarrow> string \<Rightarrow> string \<Rightarrow> string" where
  "write_at off d s = resize off (take off s) @ d @ drop (off + length d) s"

definition sys_pwrite :: "nat \<Rightarrow> string \<Rightarrow> nat \<Rightarrow> ('z, nat) sys" where
  "sys_pwrite fd d off k =
     at_fd fd (\<lambda>i wr nd k'.
       if \<not> wr then (Inl EBADF, k')
       else case i_kind nd of
         Reg s \<Rightarrow>
           (let n = transferred k (length d)
            in (Inr n, set_inode i (nd\<lparr>i_kind := Reg (write_at off (take n d) s)\<rparr>) k'))
       | _ \<Rightarrow> (Inl EINVAL, k')) k"

definition sys_ftruncate :: "nat \<Rightarrow> int \<Rightarrow> ('z, unit) sys" where
  "sys_ftruncate fd n =
     at_length n (\<lambda>n. at_fd fd (\<lambda>i wr nd k.
       if \<not> wr then (Inl EINVAL, k)
       else case truncate_node n nd of Inl e \<Rightarrow> (Inl e, k) | Inr nd' \<Rightarrow> (Inr (), set_inode i nd' k)))"

text \<open>Times and owner of an open file; the overlay calls them on descriptors open for writing.\<close>

definition sys_futimes :: "nat \<Rightarrow> int \<times> int \<Rightarrow> int \<times> int \<Rightarrow> ('z, unit) sys" where
  "sys_futimes fd t mt =
     at_fd fd (\<lambda>i wr nd k.
       if \<not> wr then (Inl EPERM, k) else (Inr (), set_inode i (nd\<lparr>i_atime := t, i_mtime := mt\<rparr>) k))"

definition sys_fchown :: "nat \<Rightarrow> nat \<Rightarrow> nat \<Rightarrow> ('z, unit) sys" where
  "sys_fchown fd uid gid =
     at_fd fd (\<lambda>i wr nd k.
       if \<not> wr then (Inl EPERM, k) else (Inr (), set_inode i (nd\<lparr>i_uid := uid, i_gid := gid\<rparr>) k))"

definition sys_fsync :: "nat \<Rightarrow> ('z, unit) sys" where
  "sys_fsync fd = at_fd fd (\<lambda>i wr nd k. (Inr (), k))"

definition sys_fullfsync :: "nat \<Rightarrow> ('z, unit) sys" where
  "sys_fullfsync fd = at_fd fd (\<lambda>i wr nd k. (Inr (), k))"

definition sys_dup :: "nat \<Rightarrow> ('z, nat) sys" where
  "sys_dup fd = at_fd fd (\<lambda>i wr nd k. new_fd i wr k)"

end
