(* ===== verification/Kernel_Facts.thy ===== *)
theory Kernel_Facts
  imports Kernel
begin

text \<open>
  Facts of the file system: its well-formedness, the elementary changes (add, remove, move,
  rewrite) that keep it, and paths without symbolic links.
\<close>

section \<open>What the elementary changes leave alone\<close>

lemma entry_simps [simp]:
  "entry (inodes_update f k) = entry k"
  "entry (next_ino_update g k) = entry k"
  "entry (fds_update h k) = entry k"
  "entry (next_fd_update g k) = entry k"
  "entry (plans_update q k) = entry k"
  by (simp_all add: entry_def fun_eq_iff)

lemma kind_simps [simp]:
  "kind_at (fds_update h k) = kind_at k"
  "kind_at (next_fd_update g k) = kind_at k"
  "kind_at (plans_update q k) = kind_at k"
  "kind_at (next_ino_update g k) = kind_at k"
  by (simp_all add: kind_at_def node_def fun_eq_iff)

lemma is_dir_simps [simp]:
  "is_dir_at (fds_update h k) = is_dir_at k"
  "is_dir_at (next_fd_update g k) = is_dir_at k"
  "is_dir_at (plans_update q k) = is_dir_at k"
  "is_dir_at (next_ino_update g k) = is_dir_at k"
  by (simp_all add: is_dir_at_def fun_eq_iff)

lemma lookup_path_simps [simp]:
  "lookup_path (fds_update h k) = lookup_path k"
  "lookup_path (next_fd_update g k) = lookup_path k"
  "lookup_path (plans_update q k) = lookup_path k"
  by (simp_all add: lookup_path_def fun_eq_iff)

section \<open>Well-formed file systems\<close>

text \<open>
  Every location has one entry, its inode exists and is older than the next one, its names are
  names of files, and only directories have entries below them.
\<close>

definition file_name :: "string \<Rightarrow> bool" where
  "file_name n \<longleftrightarrow> n \<noteq> [] \<and> SLASH \<notin> set n \<and> n \<noteq> ''.'' \<and> n \<noteq> ''..''"

definition placeable :: "'z kernel_scheme \<Rightarrow> loc \<Rightarrow> bool" where
  "placeable k l \<longleftrightarrow> list_all file_name l \<and> (l \<noteq> [] \<longrightarrow> is_dir_at k (butlast l))"

definition wf_kernel :: "'z kernel_scheme \<Rightarrow> bool" where
  "wf_kernel k \<longleftrightarrow>
     distinct (map fst (dir_table k)) \<and>
     (\<forall>l i. (l, i) \<in> set (dir_table k) \<longrightarrow>
        inodes k i \<noteq> None \<and> i < next_ino k \<and> placeable k l) \<and>
     (\<forall>fd i w. fds k fd = Some (i, w) \<longrightarrow> i < next_ino k)"

lemma wf_kernelD:
  assumes "wf_kernel k"
  shows "distinct (map fst (dir_table k))"
    and "(l, i) \<in> set (dir_table k) \<Longrightarrow> inodes k i \<noteq> None"
    and "(l, i) \<in> set (dir_table k) \<Longrightarrow> i < next_ino k"
    and "(l, i) \<in> set (dir_table k) \<Longrightarrow> placeable k l"
    and "fds k fd = Some (i, w) \<Longrightarrow> i < next_ino k"
  using assms unfolding wf_kernel_def by blast+

lemma entry_mem: "entry k l = Some i \<Longrightarrow> (l, i) \<in> set (dir_table k)"
  by (simp add: entry_def map_of_SomeD)

lemma mem_entry: "wf_kernel k \<Longrightarrow> (l, i) \<in> set (dir_table k) \<Longrightarrow> entry k l = Some i"
  using wf_kernelD(1) [of k] by (simp add: entry_def)

lemma entry_node: "wf_kernel k \<Longrightarrow> entry k l = Some i \<Longrightarrow> \<exists>nd. inodes k i = Some nd \<and> node k l = Some nd"
  using wf_kernelD(2) [of k l i] by (auto simp: node_def dest: entry_mem)

lemma is_dir_entry: "is_dir_at k l \<Longrightarrow> \<exists>i. entry k l = Some i"
  by (auto simp: is_dir_at_def kind_at_def node_def split: bind_splits)

lemma entry_parent: "wf_kernel k \<Longrightarrow> entry k l = Some i \<Longrightarrow> l \<noteq> [] \<Longrightarrow> is_dir_at k (butlast l)"
  using wf_kernelD(4) [of k l i] entry_mem unfolding placeable_def by blast

lemma entry_names: "wf_kernel k \<Longrightarrow> entry k l = Some i \<Longrightarrow> list_all file_name l"
  using wf_kernelD(4) [of k l i] entry_mem unfolding placeable_def by blast

lemma children_iff: "c \<in> set (children k d) \<longleftrightarrow> (\<exists>i. (d @ [c], i) \<in> set (dir_table k))"
proof
  assume "c \<in> set (children k d)"
  then obtain l i where "(l, i) \<in> set (dir_table k)" "l \<noteq> []" "butlast l = d" "last l = c"
    by (auto simp: children_def)
  moreover from this have "l = d @ [c]" using append_butlast_last_id by fastforce
  ultimately show "\<exists>i. (d @ [c], i) \<in> set (dir_table k)" by auto
next
  assume "\<exists>i. (d @ [c], i) \<in> set (dir_table k)"
  then show "c \<in> set (children k d)"
    by (force simp: children_def)
qed

lemma children_entry: "wf_kernel k \<Longrightarrow> c \<in> set (children k d) \<longleftrightarrow> entry k (d @ [c]) \<noteq> None"
  using mem_entry entry_mem unfolding children_iff by fastforce

text \<open>What is below a location makes it a directory that is not empty.\<close>

lemma below_dir:
  assumes "wf_kernel k"
  shows "entry k (d @ c # s) = Some i \<Longrightarrow> is_dir_at k d \<and> c \<in> set (children k d)"
proof (induction s arbitrary: i rule: rev_induct)
  case Nil
  with entry_parent [OF assms, of "d @ [c]"] assms show ?case by (simp add: children_entry)
next
  case (snoc x s)
  then have "is_dir_at k (d @ c # s)"
    using entry_parent [OF assms, of "d @ c # s @ [x]"] by (simp add: butlast_append)
  with is_dir_entry snoc.IH show ?case by blast
qed

lemma strict_below:
  assumes "wf_kernel k" and "entry k l = Some i" and "strict_prefix d l"
  shows "is_dir_at k d" and "children k d \<noteq> []"
proof -
  from assms(3) obtain c s where "l = d @ c # s"
    by (metis append_Nil2 neq_Nil_conv prefix_def strict_prefix_def)
  with below_dir [OF assms(1), of d c s i] assms(2) show "is_dir_at k d" "children k d \<noteq> []"
    by auto
qed

section \<open>Elementary changes\<close>

lemma placeable_simps [simp]:
  "placeable (fds_update h k) = placeable k" "placeable (next_fd_update n k) = placeable k"
  "placeable (plans_update q k) = placeable k"
  by (simp_all add: placeable_def fun_eq_iff)

lemma wf_plans [simp]: "wf_kernel (plans_update q k) = wf_kernel k"
  by (simp add: wf_kernel_def)

lemma wf_fds:
  "wf_kernel k \<Longrightarrow> i < next_ino k \<Longrightarrow> wf_kernel (k\<lparr>fds := (fds k)(fd := Some (i, w)), next_fd := n\<rparr>)"
  by (simp add: wf_kernel_def)

lemma wf_close: "wf_kernel k \<Longrightarrow> wf_kernel (k\<lparr>fds := (fds k)(fd := None)\<rparr>)"
  by (simp add: wf_kernel_def)

lemma node_add_node:
  "wf_kernel k \<Longrightarrow> node (add_node l nd k) l' = (if l' = l then Some nd else node k l')"
  using wf_kernelD(3) [of k l'] entry_mem [of k l']
  by (fastforce simp: add_node_def node_def entry_def split: bind_splits)

lemma entry_add_node [simp]:
  "entry (add_node l nd k) l' = (if l' = l then Some (next_ino k) else entry k l')"
  by (simp add: add_node_def entry_def)

lemma kind_add_node:
  "wf_kernel k \<Longrightarrow> kind_at (add_node l nd k) l' = (if l' = l then Some (i_kind nd) else kind_at k l')"
  by (simp add: kind_at_def node_add_node)

lemma wf_add_node:
  assumes "wf_kernel k" and "entry k l = None" and "placeable k l"
  shows "wf_kernel (add_node l nd k)"
proof -
  have new: "(l, i) \<notin> set (dir_table k)" for i using assms(1,2) mem_entry by fastforce
  have "is_dir_at (add_node l nd k) d" if "is_dir_at k d" for d
    using that is_dir_entry [OF that] assms(1,2) by (auto simp: is_dir_at_def kind_add_node)
  then have "placeable (add_node l nd k) l'" if "placeable k l'" for l'
    using that by (simp add: placeable_def)
  with assms new show ?thesis
    unfolding wf_kernel_def by (fastforce simp: add_node_def)
qed

lemma entry_remove [simp]: "entry (remove_entry l k) l' = (if l' = l then None else entry k l')"
proof -
  have "map_of (filter (\<lambda>(l', i). l' \<noteq> l) xs) l' = (if l' = l then None else map_of xs l')"
    for xs :: "(loc \<times> ino) list"
    by (induction xs) auto
  then show ?thesis by (simp add: remove_entry_def entry_def)
qed

lemma node_remove: "node (remove_entry l k) l' = (if l' = l then None else node k l')"
  using entry_remove [of l k l'] by (auto simp: node_def remove_entry_def)

lemma kind_remove: "kind_at (remove_entry l k) l' = (if l' = l then None else kind_at k l')"
  by (simp add: kind_at_def node_remove)

lemma wf_remove:
  assumes "wf_kernel k" and "children k l = []"
  shows "wf_kernel (remove_entry l k)"
proof -
  have "butlast l' \<noteq> l" if "(l', i) \<in> set (dir_table k)" "l' \<noteq> []" for l' i
  proof
    assume "butlast l' = l"
    with that have "(l @ [last l'], i) \<in> set (dir_table k)" by auto
    then have "last l' \<in> set (children k l)" unfolding children_iff ..
    with assms(2) show False by simp
  qed
  moreover have "is_dir_at (remove_entry l k) d" if "is_dir_at k d" "d \<noteq> l" for d
    using that by (simp add: is_dir_at_def kind_remove)
  ultimately have "placeable (remove_entry l k) l'" if "(l', i) \<in> set (dir_table k)" for l' i
    using that wf_kernelD(4) [OF assms(1) that] by (auto simp: placeable_def)
  moreover have "distinct (map fst (filter p xs))" if "distinct (map fst xs)" for p and xs :: "(loc \<times> ino) list"
    using that by (induction xs) auto
  ultimately show ?thesis
    using assms(1) unfolding wf_kernel_def by (auto simp: remove_entry_def)
qed

lemma children_not_dir: "wf_kernel k \<Longrightarrow> \<not> is_dir_at k l \<Longrightarrow> children k l = []"
  using below_dir [of k l _ "[]"] children_entry [of k _ l] by (metis empty_iff ex_in_conv list.set(1) not_Some_eq set_empty)

lemma wf_set_inode:
  assumes "wf_kernel k" and "inodes k i = Some nd" and "i_kind nd' = Dir \<longleftrightarrow> i_kind nd = Dir"
  shows "wf_kernel (set_inode i nd' k)"
proof -
  have "is_dir_at (set_inode i nd' k) d = is_dir_at k d" for d
    using assms(2,3) by (auto simp: is_dir_at_def kind_at_def node_def set_inode_def split: bind_splits)
  then have "placeable (set_inode i nd' k) = placeable k" by (simp add: placeable_def fun_eq_iff)
  with assms(1) show ?thesis unfolding wf_kernel_def by (auto simp: set_inode_def)
qed

section \<open>Moving a subtree\<close>

lemma move_loc_under: "prefix a l \<Longrightarrow> move_loc a b l = b @ drop (length a) l"
  by (simp add: move_loc_def)

lemma move_loc_other: "\<not> prefix a l \<Longrightarrow> move_loc a b l = l"
  by (simp add: move_loc_def)

text \<open>What the source of a move may be, and its destination: free, or an entry without content.\<close>

definition movable :: "loc \<Rightarrow> loc \<Rightarrow> 'z kernel_scheme \<Rightarrow> bool" where
  "movable a b k \<longleftrightarrow>
     \<not> prefix a b \<and> entry k a \<noteq> None \<and> entry k b = None \<and> placeable k b"

lemma movable_free:
  assumes "wf_kernel k" and "movable a b k" and "entry k l = Some i"
  shows "\<not> prefix b l"
proof
  assume "prefix b l"
  with assms(2,3) have "strict_prefix b l" by (auto simp: movable_def strict_prefix_def)
  with strict_below(1) [OF assms(1,3)] is_dir_entry assms(2) show False
    by (fastforce simp: movable_def)
qed

lemma move_loc_inj:
  assumes "wf_kernel k" and "movable a b k"
    and "entry k l = Some i" and "entry k l' = Some i'"
    and "move_loc a b l = move_loc a b l'"
  shows "l = l'"
proof -
  note free = movable_free [OF assms(1,2,3)] movable_free [OF assms(1,2,4)]
  show ?thesis
    using assms(5) free by (auto simp: move_loc_def prefix_def split: if_splits)
qed

lemma distinct_move:
  assumes wf: "wf_kernel k" and mv: "movable a b k"
  shows "distinct (map fst (dir_table (move_entries a b k)))"
proof -
  have "inj_on (move_loc a b) (fst ` set (dir_table k))"
    using move_loc_inj [OF wf mv] mem_entry [OF wf] by (fastforce intro!: inj_onI)
  then show ?thesis
    using wf_kernelD(1) [OF wf]
    by (simp add: move_entries_def case_prod_beta comp_def distinct_map inj_on_def)
qed

lemma entry_move:
  assumes wf: "wf_kernel k" and mv: "movable a b k"
  shows "entry (move_entries a b k) l =
    (if prefix b l then entry k (a @ drop (length b) l)
     else if prefix a l then None else entry k l)"
proof (rule option_eqI)
  fix i
  have moved: "(\<exists>l'. (l', i) \<in> set (dir_table k) \<and> l = move_loc a b l') \<longleftrightarrow>
      (if prefix b l then entry k (a @ drop (length b) l)
       else if prefix a l then None else entry k l) = Some i" (is "?L \<longleftrightarrow> ?R")
  proof
    assume ?L
    then obtain l' where l': "entry k l' = Some i" "l = move_loc a b l'"
      using mem_entry [OF wf] by blast
    with movable_free [OF wf mv l'(1)] show ?R
      by (auto simp: move_loc_def prefix_def split: if_splits)
  next
    assume r: ?R
    show ?L
    proof (cases "prefix b l")
      case True
      with r have "(a @ drop (length b) l, i) \<in> set (dir_table k)" by (simp add: entry_mem)
      moreover have "l = move_loc a b (a @ drop (length b) l)"
        using True by (auto simp: move_loc_def prefix_def)
      ultimately show ?thesis by blast
    next
      case False
      with r have "(l, i) \<in> set (dir_table k)" "l = move_loc a b l"
        by (auto simp: entry_mem move_loc_def split: if_splits)
      then show ?thesis by blast
    qed
  qed
  have d: "distinct (map fst (dir_table (move_entries a b k)))"
    using wf mv by (rule distinct_move)
  have "entry (move_entries a b k) l = Some i \<longleftrightarrow> (l, i) \<in> set (dir_table (move_entries a b k))"
    using d by (simp add: entry_def)
  also have "\<dots> \<longleftrightarrow> (\<exists>l'. (l', i) \<in> set (dir_table k) \<and> l = move_loc a b l')"
    by (auto simp: move_entries_def)
  also have "\<dots> \<longleftrightarrow> (if prefix b l then entry k (a @ drop (length b) l)
      else if prefix a l then None else entry k l) = Some i"
    by (rule moved)
  finally show "entry (move_entries a b k) l = Some i \<longleftrightarrow> \<dots>" .
qed

lemma kind_move:
  assumes "wf_kernel k" and "movable a b k"
  shows "kind_at (move_entries a b k) l =
    (if prefix b l then kind_at k (a @ drop (length b) l)
     else if prefix a l then None else kind_at k l)"
proof -
  have "inodes (move_entries a b k) = inodes k" by (simp add: move_entries_def)
  with entry_move [OF assms, of l] show ?thesis by (simp add: kind_at_def node_def)
qed

lemma wf_move:
  assumes wf: "wf_kernel k" and mv: "movable a b k"
  shows "wf_kernel (move_entries a b k)"
proof -
  have parent: "is_dir_at (move_entries a b k) (butlast (move_loc a b l))"
    if l: "entry k l = Some i" and ne: "move_loc a b l \<noteq> []" for l i
  proof (cases "prefix a l")
    case False
    with ne have "l \<noteq> []" and m: "move_loc a b l = l" by (simp_all add: move_loc_def)
    with entry_parent [OF wf l] have dir: "is_dir_at k (butlast l)" by simp
    have "\<not> prefix a (butlast l)" "\<not> prefix b (butlast l)"
      using False movable_free [OF wf mv l] prefix_order.trans prefixeq_butlast by blast+
    with dir m show ?thesis by (simp add: is_dir_at_def kind_move [OF wf mv])
  next
    case True
    then obtain s where s: "l = a @ s" by (auto simp: prefix_def)
    show ?thesis
    proof (cases "s = []")
      case True
      with s ne have m: "move_loc a b l = b" and "b \<noteq> []" by (simp_all add: move_loc_def)
      have "\<not> prefix b (butlast b)"
        using \<open>b \<noteq> []\<close> prefix_length_le [of b "butlast b"] by (cases b) auto
      moreover have "is_dir_at k (butlast b)" "\<not> prefix a (butlast b)"
        using mv \<open>b \<noteq> []\<close> prefix_order.trans [OF _ prefixeq_butlast]
        by (auto simp: movable_def placeable_def)
      ultimately have "is_dir_at k (butlast b)" "\<not> prefix a (butlast b)" "\<not> prefix b (butlast b)"
        by simp_all
      with m show ?thesis by (simp add: is_dir_at_def kind_move [OF wf mv])
    next
      case False
      then have "move_loc a b l = b @ s" and "is_dir_at k (a @ butlast s)"
        using entry_parent [OF wf l] s by (simp_all add: move_loc_def butlast_append)
      with False show ?thesis by (simp add: is_dir_at_def kind_move [OF wf mv] butlast_append)
    qed
  qed
  have names: "list_all file_name (move_loc a b l)" if "entry k l = Some i" for l i
    using mv entry_names [OF wf that]
    by (auto simp: move_loc_def movable_def placeable_def list_all_iff dest: in_set_dropD)
  have "placeable (move_entries a b k) (fst x)"
    "inodes k (snd x) \<noteq> None" "snd x < next_ino k"
    if "x \<in> set (dir_table (move_entries a b k))" for x
    using that parent names mem_entry [OF wf] wf_kernelD(2,3) [OF wf]
    unfolding placeable_def by (fastforce simp: move_entries_def)+
  then show ?thesis
    using distinct_move [OF wf mv] wf
    unfolding wf_kernel_def by (force simp: move_entries_def)
qed

section \<open>Name resolution\<close>

lemma walk_parent:
  assumes "wf_kernel k"
  shows "d \<noteq> [] \<longrightarrow> is_dir_at k (butlast d) \<Longrightarrow> walk n (kind_at k) d ns follow = Inr l \<Longrightarrow>
    l \<noteq> [] \<longrightarrow> is_dir_at k (butlast l)"
proof (induction n "kind_at k" d ns follow rule: walk.induct)
  case (2 n d c cs follow)
  have up: "is_dir_at k (butlast d)" if "d \<noteq> []" "is_dir_at k d"
    using entry_parent [OF assms] is_dir_entry that by blast
  from 2(9) have dir: "is_dir_at k d"
    by (auto simp: walk.simps(2) is_dir_at_def split: if_splits)
  have "butlast d \<noteq> [] \<longrightarrow> is_dir_at k (butlast (butlast d))"
    using up dir entry_parent [OF assms] is_dir_entry by (metis butlast.simps(1))
  with 2 dir show ?case
    by (auto simp: walk.simps(2) [of n] is_dir_at_def split: if_splits option.splits fkind.splits)
qed simp

lemma walk_names:
  "list_all file_name d \<Longrightarrow> \<forall>n \<in> set ns. n \<noteq> [] \<and> SLASH \<notin> set n \<Longrightarrow>
   walk n kinds d ns follow = Inr l \<Longrightarrow> list_all file_name l"
proof (induction n kinds d ns follow rule: walk.induct)
  case (2 n kinds d c cs follow)
  have "list_all file_name (butlast d)" using 2(8) by (auto simp: list_all_iff dest: in_set_butlastD)
  moreover have "file_name c" if "c \<noteq> ''.''" "c \<noteq> ''..''"
    using that 2(9) by (simp add: file_name_def)
  ultimately show ?case
    using 2 path_names_elem
    by (auto simp: walk.simps(2) [of n] split: if_splits option.splits fkind.splits)
qed simp

lemma lookup_placeable:
  "wf_kernel k \<Longrightarrow> lookup_path k p follow = Inr l \<Longrightarrow> placeable k l"
  unfolding lookup_path_def placeable_def
  by (intro conjI, rule walk_names [of "[]" "path_names p"])
    (auto dest: path_names_elem walk_parent)

text \<open>
  A path without dots whose strict prefixes are not symbolic links leads to the location with
  its names; if the last name is followed, it must not be a link either.
\<close>

definition no_links :: "loc set \<Rightarrow> 'z kernel_scheme \<Rightarrow> bool" where
  "no_links A k \<longleftrightarrow> (\<forall>l \<in> A. \<forall>t. kind_at k l \<noteq> Some (Lnk t))"

definition plain_names :: "string list \<Rightarrow> bool" where
  "plain_names ns \<longleftrightarrow> ''.'' \<notin> set ns \<and> ''..'' \<notin> set ns"

definition ancestors :: "loc \<Rightarrow> loc set" where
  "ancestors l = {q. strict_prefix q l}"

lemma walk_direct:
  "plain_names ns \<Longrightarrow> (\<And>q. q \<noteq> [] \<Longrightarrow> prefix q ns \<Longrightarrow> follow \<or> q \<noteq> ns \<Longrightarrow> \<forall>t. kinds (d @ q) \<noteq> Some (Lnk t)) \<Longrightarrow>
   walk n kinds d ns follow = Inr l \<Longrightarrow> l = d @ ns"
proof (induction ns arbitrary: d)
  case (Cons c cs)
  have c: "c \<noteq> ''.''" "c \<noteq> ''..''" "plain_names cs" using Cons.prems(1) by (auto simp: plain_names_def)
  have link: "\<forall>t. kinds (d @ [c]) \<noteq> Some (Lnk t)" if "follow \<or> cs \<noteq> []"
    using Cons.prems(2) [of "[c]"] that by auto
  have rest: "l = d @ [c] @ cs" if "walk n kinds (d @ [c]) cs follow = Inr l"
    using Cons.IH [of "d @ [c]"] c(3) Cons.prems(2) [of "c # _"] that by simp
  show ?case
    using Cons.prems(3) c(1,2) link rest
    by (auto simp: walk.simps(2) [of n] split: if_splits option.splits fkind.splits)
qed simp

lemma lookup_direct:
  assumes "plain_names (path_names p)" and "no_links A k" and "ancestors (path_names p) \<subseteq> A"
    and "follow \<longrightarrow> path_names p \<in> A" and "lookup_path k p follow = Inr l"
  shows "l = path_names p"
  using walk_direct [OF assms(1), of follow "kind_at k" "[]" maxsymlinks l] assms(2-5)
  by (auto simp: lookup_path_def no_links_def ancestors_def strict_prefix_def subset_iff)

end
