(* ===== verification/Upper_Guard.thy ===== *)
theory Upper_Guard
  imports Kernel_Facts
begin

text \<open>
  Confinement of changes to the upper layer: an invariant of the file system that says nothing
  outside the upper directory has changed, and which system calls keep it on which paths.
\<close>

section \<open>The invariant\<close>

text \<open>What there is outside the directory \<open>U\<close>, and the inodes seen there.\<close>

definition outside :: "loc \<Rightarrow> 'z kernel_scheme \<Rightarrow> loc \<Rightarrow> (ino \<times> inode option) option" where
  "outside U k l = (if prefix U l then None else map_option (\<lambda>i. (i, inodes k i)) (entry k l))"

definition inos :: "(loc \<Rightarrow> (ino \<times> inode option) option) \<Rightarrow> ino set" where
  "inos V = {i. \<exists>l x. V l = Some (i, x)}"

text \<open>
  The part outside is \<open>V\<close>, no file is linked across the boundary or open for writing outside,
  and the locations \<open>A\<close> are not symbolic links.
\<close>

definition guarded ::
    "loc \<Rightarrow> (loc \<Rightarrow> (ino \<times> inode option) option) \<Rightarrow> loc set \<Rightarrow> 'z kernel_scheme \<Rightarrow> bool" where
  "guarded U V A k \<longleftrightarrow>
     wf_kernel k \<and> no_links A k \<and> outside U k = V \<and>
     (\<forall>l i. entry k l = Some i \<longrightarrow> prefix U l \<longrightarrow> i \<notin> inos V) \<and>
     (\<forall>fd i. fds k fd = Some (i, True) \<longrightarrow> i \<notin> inos V)"

lemma guardedD:
  assumes "guarded U V A k"
  shows "wf_kernel k" and "no_links A k" and "outside U k = V"
    and "entry k l = Some i \<Longrightarrow> prefix U l \<Longrightarrow> i \<notin> inos V"
    and "fds k fd = Some (i, True) \<Longrightarrow> i \<notin> inos V"
  using assms unfolding guarded_def by blast+

lemma guarded_antimono: "guarded U V A k \<Longrightarrow> B \<subseteq> A \<Longrightarrow> guarded U V B k"
  unfolding guarded_def no_links_def by blast

lemma no_links_kind: "no_links A k \<Longrightarrow> kind_at k' = kind_at k \<Longrightarrow> no_links A k'"
  by (simp add: no_links_def)

lemma guarded_plans [simp]: "guarded U V A (plans_update q k) = guarded U V A k"
  by (simp add: guarded_def outside_def fun_eq_iff no_links_def)

lemma inos_outside: "i \<in> inos (outside U k) \<longleftrightarrow> (\<exists>l. \<not> prefix U l \<and> entry k l = Some i)"
  by (auto simp: inos_def outside_def)

lemma inos_less: "guarded U V A k \<Longrightarrow> i \<in> inos V \<Longrightarrow> i < next_ino k"
  using wf_kernelD(3) [of k] guardedD(1,3) [of U V A k]
  by (metis entry_mem inos_outside)

lemma inos_entry: "guarded U V A k \<Longrightarrow> \<not> prefix U l \<Longrightarrow> entry k l = Some i \<Longrightarrow> i \<in> inos V"
  using guardedD(3) [of U V A k] inos_outside [of i U k] by blast

lemma outside_eqI:
  assumes "\<And>l. \<not> prefix U l \<Longrightarrow> entry k' l = entry k l"
    and "\<And>l i. \<not> prefix U l \<Longrightarrow> entry k l = Some i \<Longrightarrow> inodes k' i = inodes k i"
  shows "outside U k' = outside U k"
  using assms by (auto simp: outside_def fun_eq_iff map_option_case split: option.split)

section \<open>Elementary changes\<close>

lemma guarded_add:
  assumes g: "guarded U V A k" and "entry k l = None" and "prefix U l"
    and "placeable k l" and "l \<in> A \<longrightarrow> (\<forall>t. i_kind nd \<noteq> Lnk t)"
  shows "guarded U V A (add_node l nd k)"
proof -
  note wf = guardedD(1) [OF g]
  have fresh: "next_ino k \<notin> inos V" using inos_less [OF g] by blast
  have "outside U (add_node l nd k) = outside U k"
    using assms(3) wf_kernelD(3) [OF wf] entry_mem
    by (intro outside_eqI) (auto simp: add_node_def entry_def dest!: map_of_SomeD)
  then have "outside U (add_node l nd k) = V" using guardedD(3) [OF g] by simp
  moreover have "no_links A (add_node l nd k)"
    using guardedD(2) [OF g] assms(5) by (auto simp: no_links_def kind_add_node [OF wf])
  moreover have "fds (add_node l nd k) = fds k" by (simp add: add_node_def)
  ultimately show ?thesis
    using wf_add_node [OF wf assms(2,4)] fresh guardedD(4,5) [OF g]
    unfolding guarded_def by (auto split: if_splits)
qed

lemma guarded_remove:
  assumes g: "guarded U V A k" and "prefix U l" and "children k l = []"
  shows "guarded U V A (remove_entry l k)"
proof -
  have "outside U (remove_entry l k) = outside U k"
    using assms(2) by (intro outside_eqI) (auto, simp add: remove_entry_def)
  moreover have "no_links A (remove_entry l k)"
    using guardedD(2) [OF g] by (simp add: no_links_def kind_remove)
  moreover have "fds (remove_entry l k) = fds k" by (simp add: remove_entry_def)
  ultimately show ?thesis
    using wf_remove [OF guardedD(1) [OF g] assms(3)] g
    unfolding guarded_def by (auto split: if_splits)
qed

lemma guarded_set_inode:
  assumes g: "guarded U V A k" and "inodes k i = Some nd" and "i \<notin> inos V"
    and "i_kind nd' = Dir \<longleftrightarrow> i_kind nd = Dir"
    and "\<And>t. i_kind nd' = Lnk t \<Longrightarrow> \<exists>t'. i_kind nd = Lnk t'"
  shows "guarded U V A (set_inode i nd' k)"
proof -
  have "outside U (set_inode i nd' k) = outside U k"
    using inos_entry [OF g, of _ i] assms(3) by (intro outside_eqI) (auto simp: set_inode_def)
  then have "outside U (set_inode i nd' k) = V" using guardedD(3) [OF g] by simp
  moreover have "no_links A (set_inode i nd' k)"
    using guardedD(2) [OF g] assms(2,5)
    by (fastforce simp: no_links_def kind_at_def node_def set_inode_def split: bind_splits if_splits)
  moreover have "entry (set_inode i nd' k) = entry k" "fds (set_inode i nd' k) = fds k"
    by (simp_all add: set_inode_def)
  ultimately show ?thesis
    using wf_set_inode [OF guardedD(1) [OF g] assms(2,4)] g unfolding guarded_def by simp
qed

lemma guarded_move:
  assumes g: "guarded U V A k" and mv: "movable a b k" and "prefix U a" and "prefix U b"
    and links: "\<And>l t. l \<in> A \<Longrightarrow> prefix b l \<Longrightarrow> kind_at k (a @ drop (length b) l) \<noteq> Some (Lnk t)"
  shows "guarded U V A (move_entries a b k)"
proof -
  note wf = guardedD(1) [OF g]
  note em = entry_move [OF wf mv]
  have same: "inodes (move_entries a b k) = inodes k" "fds (move_entries a b k) = fds k"
    by (simp_all add: move_entries_def)
  have "outside U (move_entries a b k) = outside U k"
    using assms(3,4) by (intro outside_eqI) (auto simp: em same dest: prefix_order.trans)
  then have "outside U (move_entries a b k) = V" using guardedD(3) [OF g] by simp
  moreover have "no_links A (move_entries a b k)"
    using guardedD(2) [OF g] links by (auto simp: no_links_def kind_move [OF wf mv])
  moreover have "i \<notin> inos V" if "entry (move_entries a b k) l = Some i" "prefix U l" for l i
    using that guardedD(4) [OF g] assms(3) by (auto simp: em split: if_splits)
  ultimately show ?thesis
    using wf_move [OF wf mv] guardedD(5) [OF g] unfolding guarded_def by (auto simp: same)
qed

lemma outside_fds [simp]:
  "outside U (fds_update h k) = outside U k" "outside U (next_fd_update n k) = outside U k"
  by (simp_all add: outside_def fun_eq_iff)

lemma no_links_fds [simp]:
  "no_links A (fds_update h k) = no_links A k" "no_links A (next_fd_update n k) = no_links A k"
  by (simp_all add: no_links_def)

lemma guarded_open:
  assumes g: "guarded U V A k" and "i < next_ino k" and "w \<longrightarrow> i \<notin> inos V"
  shows "guarded U V A (k\<lparr>fds := (fds k)(fd := Some (i, w)), next_fd := n\<rparr>)"
  using assms wf_fds [OF _ assms(2)] by (auto simp: guarded_def)

lemma guarded_close: "guarded U V A k \<Longrightarrow> guarded U V A (k\<lparr>fds := (fds k)(fd := None)\<rparr>)"
  using wf_close [of k fd] by (auto simp: guarded_def)

section \<open>System calls that keep the invariant\<close>

text \<open>A call that uses up part of the plan and changes nothing else.\<close>

definition reads_only :: "('z, 'a) sys \<Rightarrow> bool" where
  "reads_only m \<longleftrightarrow> (\<forall>k. \<exists>ps. snd (m k) = k\<lparr>plans := ps\<rparr>)"

lemma plans_same: "k = k\<lparr>plans := plans k\<rparr>" by simp

lemma reads_onlyI: "(\<And>k. \<exists>ps. snd (m k) = k\<lparr>plans := ps\<rparr>) \<Longrightarrow> reads_only m"
  by (simp add: reads_only_def)

lemma reads_only_pure [intro!, simp]:
  "reads_only (return_s a)" "reads_only (throw_s e)" "reads_only (get_s f)"
  by (auto intro!: reads_onlyI plans_same simp: return_s_def throw_s_def get_s_def)

lemma reads_only_bind [intro]:
  assumes "reads_only m" and "\<And>a. reads_only (f a)"
  shows "reads_only (bind_s m f)"
proof (rule reads_onlyI)
  fix k
  obtain r ps where m: "m k = (r, k\<lparr>plans := ps\<rparr>)"
    using assms(1) unfolding reads_only_def by (metis prod.collapse)
  show "\<exists>ps. snd (bind_s m f k) = k\<lparr>plans := ps\<rparr>"
  proof (cases r)
    case (Inl e)
    with m show ?thesis by (auto simp: bind_s_def)
  next
    case (Inr a)
    with m assms(2) [of a] show ?thesis
      unfolding reads_only_def by (auto simp: bind_s_def) (metis kernel.surjective kernel.update_convs(6))
  qed
qed

lemma reads_only_attempt [intro]: "reads_only m \<Longrightarrow> reads_only (attempt m)"
  by (simp add: reads_only_def attempt_def case_prod_beta)

lemma reads_only_keeps: "reads_only m \<Longrightarrow> keeps (guarded U V A) m"
  by (rule keepsI) (metis guarded_plans reads_only_def)

lemma reads_only_syscall:
  assumes "\<And>k. snd (m k) = k"
  shows "reads_only (syscall m)"
  using assms by (auto intro!: reads_onlyI plans_same simp: syscall_def split: list.split plan.split)

lemma reads_only_at_path:
  "(\<And>l k. snd (f l k) = k) \<Longrightarrow> reads_only (at_path p follow f)"
  unfolding at_path_def by (rule reads_only_syscall) (simp split: sum.split)

lemma reads_only_at_node:
  "(\<And>l i nd k. snd (f l i nd k) = k) \<Longrightarrow> reads_only (at_node p follow f)"
  unfolding at_node_def by (rule reads_only_at_path) (simp split: option.split)

lemma reads_only_at_fd:
  "(\<And>i w nd k. snd (f i w nd k) = k) \<Longrightarrow> reads_only (at_fd fd f)"
  unfolding at_fd_def by (rule reads_only_syscall) (simp split: option.split)

lemma reads_only_calls [intro!, simp]:
  "reads_only (sys_lstat p)" "reads_only (sys_stat p)" "reads_only (sys_readlink p)"
  "reads_only (sys_listdir p)" "reads_only (sys_access p m)" "reads_only (sys_statvfs p)"
  "reads_only (sys_realpath p)" "reads_only (sys_getxattr p name n flags)"
  "reads_only (sys_listxattr p n flags)" "reads_only (sys_fstat fd)"
  "reads_only (sys_fsync fd)" "reads_only (sys_fullfsync fd)"
  unfolding sys_lstat_def sys_stat_def sys_readlink_def sys_listdir_def sys_access_def
    sys_statvfs_def sys_realpath_def sys_getxattr_def sys_listxattr_def sys_fstat_def
    sys_fsync_def sys_fullfsync_def
  by (auto intro!: reads_only_at_node reads_only_at_fd split: fkind.split option.split)

lemma reads_only_pread [intro!, simp]: "reads_only (sys_pread fd n off)"
  by (rule reads_onlyI)
    (auto simp: sys_pread_def at_fd_def syscall_def intro!: plans_same
      split: list.split plan.split option.split fkind.split)

lemma keeps_syscall:
  "(\<And>k. guarded U V A k \<Longrightarrow> guarded U V A (snd (m k))) \<Longrightarrow> keeps (guarded U V A) (syscall m)"
  by (rule keepsI) (simp add: syscall_def split: list.split plan.split)

lemma keeps_at_path:
  "(\<And>k l. guarded U V A k \<Longrightarrow> lookup_path k p follow = Inr l \<Longrightarrow> guarded U V A (snd (f l k))) \<Longrightarrow>
   keeps (guarded U V A) (at_path p follow f)"
  unfolding at_path_def by (rule keeps_syscall) (simp split: sum.split)

lemma keeps_at_node:
  assumes "\<And>k l i nd. guarded U V A k \<Longrightarrow> lookup_path k p follow = Inr l \<Longrightarrow> entry k l = Some i \<Longrightarrow>
      inodes k i = Some nd \<Longrightarrow> guarded U V A (snd (f l i nd k))"
  shows "keeps (guarded U V A) (at_node p follow f)"
  unfolding at_node_def by (rule keeps_at_path) (use assms in \<open>simp split: option.split\<close>)

lemma keeps_at_fd:
  assumes "\<And>k i w nd. guarded U V A k \<Longrightarrow> fds k fd = Some (i, w) \<Longrightarrow> inodes k i = Some nd \<Longrightarrow>
      guarded U V A (snd (f i w nd k))"
  shows "keeps (guarded U V A) (at_fd fd f)"
  unfolding at_fd_def by (rule keeps_syscall) (use assms in \<open>simp split: option.split prod.split\<close>)

text \<open>The paths on which changes are allowed.\<close>

definition inside :: "loc \<Rightarrow> loc set \<Rightarrow> path \<Rightarrow> bool" where
  "inside U A p \<longleftrightarrow>
     plain_names (path_names p) \<and> prefix U (path_names p) \<and> ancestors (path_names p) \<subseteq> A"

lemma lookup_inside:
  assumes "inside U A p" and "guarded U V A k" and "follow \<longrightarrow> path_names p \<in> A"
    and "lookup_path k p follow = Inr l"
  shows "l = path_names p" and "prefix U l" and "placeable k l"
proof -
  note g = guardedD(1,2) [OF assms(2)]
  show l: "l = path_names p"
    using lookup_direct [OF _ g(2) _ assms(3,4)] assms(1) by (simp add: inside_def)
  show "prefix U l" using l assms(1) by (simp add: inside_def)
  show "placeable k l" using g(1) assms(4) by (rule lookup_placeable)
qed

lemma leaf_below: "inside U A p \<Longrightarrow> guarded U V A k \<Longrightarrow> lookup_path k p False = Inr l \<Longrightarrow> prefix U l"
  by (rule lookup_inside(2)) simp_all

lemma keeps_make:
  assumes "inside U A p" and "path_names p \<in> A \<longrightarrow> (\<forall>t. i_kind nd \<noteq> Lnk t)"
  shows "keeps (guarded U V A) (make p nd)"
  unfolding make_def
proof (rule keeps_at_path)
  fix k l
  assume g: "guarded U V A k" and l: "lookup_path k p False = Inr l"
  from lookup_inside [OF assms(1) g _ l] assms(2) guarded_add [OF g] g
  show "guarded U V A (snd (if entry k l \<noteq> None then (Inl EEXIST, k) else (Inr (), add_node l nd k)))"
    by simp
qed

lemma keeps_mkdir: "inside U A p \<Longrightarrow> keeps (guarded U V A) (sys_mkdir p mode)"
  unfolding sys_mkdir_def by (rule keeps_make) (simp_all add: new_inode_def)

lemma keeps_mknod: "inside U A p \<Longrightarrow> keeps (guarded U V A) (sys_mknod_whiteout p)"
  unfolding sys_mknod_whiteout_def by (rule keeps_make) (simp_all add: new_inode_def)

lemma keeps_symlink:
  "inside U A p \<Longrightarrow> path_names p \<notin> A \<Longrightarrow> keeps (guarded U V A) (sys_symlink t p)"
  unfolding sys_symlink_def by (rule keeps_make) simp_all

lemma kind_entry: "entry k l = Some i \<Longrightarrow> inodes k i = Some nd \<Longrightarrow> kind_at k l = Some (i_kind nd)"
  by (simp add: kind_at_def node_def)

lemma keeps_unlink: "inside U A p \<Longrightarrow> keeps (guarded U V A) (sys_unlink p)"
  unfolding sys_unlink_def
  by (rule keeps_at_node)
    (auto simp: leaf_below is_dir_at_def kind_entry guardedD(1)
      intro!: guarded_remove children_not_dir)

lemma keeps_rmdir: "inside U A p \<Longrightarrow> keeps (guarded U V A) (sys_rmdir p)"
  unfolding sys_rmdir_def
  by (rule keeps_at_node) (auto simp: leaf_below intro!: guarded_remove)

lemma keeps_change:
  assumes "inside U A p" and "follow \<longrightarrow> path_names p \<in> A"
    and "\<And>nd nd'. f nd = Inr nd' \<Longrightarrow> (i_kind nd' = Dir \<longleftrightarrow> i_kind nd = Dir) \<and>
      (\<forall>t. i_kind nd' = Lnk t \<longrightarrow> i_kind nd = Lnk t)"
  shows "keeps (guarded U V A) (change_node p follow f)"
  unfolding change_node_def
proof (rule keeps_at_node)
  fix k l i nd
  assume g: "guarded U V A k" and l: "lookup_path k p follow = Inr l"
    and e: "entry k l = Some i" "inodes k i = Some nd"
  have "i \<notin> inos V" using guardedD(4) [OF g e(1)] lookup_inside(2) [OF assms(1) g assms(2) l] .
  with guarded_set_inode [OF g e(2)] assms(3) g
  show "guarded U V A (snd (case f nd of Inl e \<Rightarrow> (Inl e, k) | Inr nd' \<Rightarrow> (Inr (), set_inode i nd' k)))"
    by (auto split: sum.split)
qed

lemma truncate_node_kind:
  "truncate_node n nd = Inr nd' \<Longrightarrow>
   (i_kind nd' = Dir \<longleftrightarrow> i_kind nd = Dir) \<and> (\<forall>t. i_kind nd' = Lnk t \<longrightarrow> i_kind nd = Lnk t)"
  by (auto simp: truncate_node_def split: fkind.splits)

lemma keeps_at_length: "(\<And>m. keeps (guarded U V A) (f m)) \<Longrightarrow> keeps (guarded U V A) (at_length n f)"
  by (simp add: at_length_def keeps_syscall)

lemma keeps_changes:
  assumes "inside U A p"
  shows "path_names p \<in> A \<Longrightarrow> keeps (guarded U V A) (sys_chmod p mode)"
    and "path_names p \<in> A \<Longrightarrow> keeps (guarded U V A) (sys_utimes p t t')"
    and "path_names p \<in> A \<Longrightarrow> keeps (guarded U V A) (sys_truncate p n)"
    and "keeps (guarded U V A) (sys_lchown p uid gid)"
    and "has_flag flags XATTR_NOFOLLOW \<Longrightarrow> keeps (guarded U V A) (sys_setxattr p name v pos flags)"
    and "has_flag flags XATTR_NOFOLLOW \<Longrightarrow> keeps (guarded U V A) (sys_removexattr p name flags)"
  unfolding sys_chmod_def sys_utimes_def sys_truncate_def sys_lchown_def sys_setxattr_def
    sys_removexattr_def
  by ((rule keeps_at_length)?, rule keeps_change [OF assms];
      auto simp: drop_xattr_def truncate_node_kind split: if_splits)+

text \<open>A move may put on a location of \<open>A\<close> only what was on one.\<close>

lemma guarded_rename_free:
  assumes g: "guarded U V A k" and mv: "movable a b k" and "prefix U a" and "prefix U b"
    and A: "\<And>l. l \<in> A \<Longrightarrow> prefix b l \<Longrightarrow> a @ drop (length b) l \<in> A \<or> strict_prefix b a"
  shows "guarded U V A (move_entries a b k)"
proof (rule guarded_move [OF g mv assms(3,4)])
  fix l t
  assume l: "l \<in> A" "prefix b l"
  from mv obtain i where "entry k a = Some i" "\<not> prefix b a"
    using movable_free [OF guardedD(1) [OF g] mv] by (auto simp: movable_def)
  with A [OF l] have "a @ drop (length b) l \<in> A" by (auto simp: strict_prefix_def)
  then show "kind_at k (a @ drop (length b) l) \<noteq> Some (Lnk t)"
    using guardedD(2) [OF g] by (simp add: no_links_def)
qed

lemma guarded_rename:
  assumes g: "guarded U V A k" and "prefix U a" and "prefix U b"
    and parent: "placeable k b"
    and A: "\<And>l. l \<in> A \<Longrightarrow> prefix b l \<Longrightarrow> a @ drop (length b) l \<in> A \<or> strict_prefix b a"
  shows "guarded U V A (snd (rename_at a b k))"
proof -
  note wf = guardedD(1) [OF g]
  have free: "guarded U V A (move_entries a b k)"
    if "node k a \<noteq> None" "node k b = None" "\<not> prefix a b"
  proof -
    have "entry k a \<noteq> None" using that(1) by (cases "entry k a") (simp_all add: node_def)
    moreover have "entry k b = None" using that(2) entry_node [OF wf, of b] by fastforce
    ultimately have "movable a b k" using that(3) parent by (simp add: movable_def)
    then show ?thesis using guarded_rename_free [OF g _ assms(2,3) A] by blast
  qed
  have replace: "guarded U V A (move_entries a b (remove_entry b k))"
    if "node k a \<noteq> None" "\<not> prefix a b" "children k b = []"
  proof -
    have ab: "a \<noteq> b" using that(2) by auto
    have "butlast b \<noteq> b" if "b \<noteq> []"
      using that by (metis append_butlast_last_id not_Cons_self2 self_append_conv)
    then have "placeable (remove_entry b k) b"
      using parent by (auto simp: placeable_def is_dir_at_def kind_remove)
    moreover have "entry k a \<noteq> None" using that(1) by (cases "entry k a") (simp_all add: node_def)
    ultimately have "movable a b (remove_entry b k)"
      using that(2) ab by (auto simp: movable_def)
    then show ?thesis
      using guarded_rename_free [OF guarded_remove [OF g assms(3) that(3)] _ assms(2,3) A] by blast
  qed
  show ?thesis
    using g free replace by (auto simp: rename_at_def split: option.split)
qed

lemma keeps_rename:
  assumes "inside U A p" and "inside U A q"
    and "\<And>l. l \<in> A \<Longrightarrow> prefix (path_names q) l \<Longrightarrow>
      path_names p @ drop (length (path_names q)) l \<in> A \<or> strict_prefix (path_names q) (path_names p)"
  shows "keeps (guarded U V A) (sys_rename p q)"
  unfolding sys_rename_def
proof (rule keeps_syscall)
  fix k
  assume g: "guarded U V A k"
  show "guarded U V A (snd (case (lookup_path k p False, lookup_path k q False) of
       (Inl e, _) \<Rightarrow> (Inl e, k) | (Inr a, Inl e) \<Rightarrow> (Inl e, k) | (Inr a, Inr b) \<Rightarrow> rename_at a b k))"
  proof (cases "lookup_path k p False"; cases "lookup_path k q False")
    fix a b
    assume l: "lookup_path k p False = Inr a" "lookup_path k q False = Inr b"
    have a: "a = path_names p" "prefix U a" using lookup_inside [OF assms(1) g _ l(1)] by simp_all
    have b: "b = path_names q" "prefix U b" "placeable k b"
      using lookup_inside [OF assms(2) g _ l(2)] by simp_all
    show ?thesis
      using guarded_rename [OF g a(2) b(2,3)] assms(3) a(1) b(1) l by simp
  qed (use g in simp_all)
qed

lemma guarded_link:
  assumes g: "guarded U V A k" and "entry k b = None" and "prefix U b"
    and "placeable k b" and "entry k a = Some i" and "prefix U a" and "a \<in> A"
  shows "guarded U V A (k\<lparr>dir_table := (b, i) # dir_table k\<rparr>)" (is "guarded U V A ?k")
proof -
  note wf = guardedD(1) [OF g]
  have e: "entry ?k l = (if l = b then Some i else entry k l)" for l by (simp add: entry_def)
  have kind: "kind_at ?k l = (if l = b then kind_at k a else kind_at k l)" for l
    using assms(5) by (simp add: kind_at_def node_def e)
  have new: "(b, j) \<notin> set (dir_table k)" for j using assms(2) mem_entry [OF wf] by fastforce
  have dir: "is_dir_at ?k d" if "is_dir_at k d" for d
    using that is_dir_entry [OF that] assms(2) by (auto simp: is_dir_at_def kind)
  have i: "inodes k i \<noteq> None" "i < next_ino k"
    using entry_mem [OF assms(5)] wf_kernelD(2,3) [OF wf] by blast+
  have "placeable ?k l" if "placeable k l" for l using that dir by (simp add: placeable_def)
  then have "wf_kernel ?k"
    using wf assms(4) i new unfolding wf_kernel_def by fastforce
  moreover have "outside U ?k = outside U k" using assms(3) by (intro outside_eqI) (auto simp: e)
  moreover have "no_links A ?k" using guardedD(2) [OF g] assms(7) by (simp add: no_links_def kind)
  ultimately show ?thesis
    using g guardedD(4) [OF g assms(5,6)] unfolding guarded_def by (auto simp: e)
qed

lemma keeps_link:
  assumes "inside U A p" and "path_names p \<in> A" and "inside U A q"
  shows "keeps (guarded U V A) (sys_link p q)"
  unfolding sys_link_def
proof (rule keeps_syscall)
  fix k
  assume g: "guarded U V A k"
  show "guarded U V A (snd (case (lookup_path k p True, lookup_path k q False) of
         (Inl e, _) \<Rightarrow> (Inl e, k) | (Inr a, Inl e) \<Rightarrow> (Inl e, k)
       | (Inr a, Inr b) \<Rightarrow>
           (case entry k a of
              None \<Rightarrow> (Inl ENOENT, k)
            | Some i \<Rightarrow>
                if is_dir_at k a then (Inl EPERM, k)
                else if entry k b \<noteq> None then (Inl EEXIST, k)
                else (Inr (), k\<lparr>dir_table := (b, i) # dir_table k\<rparr>))))"
  proof (cases "lookup_path k p True"; cases "lookup_path k q False")
    fix a b
    assume l: "lookup_path k p True = Inr a" "lookup_path k q False = Inr b"
    have a: "a = path_names p" "prefix U a" using lookup_inside [OF assms(1) g _ l(1)] assms(2) by simp_all
    have b: "prefix U b" "placeable k b"
      using lookup_inside [OF assms(3) g _ l(2)] by simp_all
    show ?thesis
      using guarded_link [OF g _ b _ a(2)] a(1) assms(2) l g by (simp split: option.split)
  qed (use g in simp_all)
qed

text \<open>Opening: without a change for reading, inside otherwise.\<close>

definition changes :: "flags \<Rightarrow> bool" where
  "changes flags \<longleftrightarrow> writable_flags flags \<or> has_flag flags O_TRUNC \<or> has_flag flags O_CREAT"

lemma guarded_new_fd:
  "guarded U V A k \<Longrightarrow> i < next_ino k \<Longrightarrow> w \<longrightarrow> i \<notin> inos V \<Longrightarrow> guarded U V A (snd (new_fd i w k))"
  unfolding new_fd_def by (simp add: guarded_open)

lemma entry_old: "guarded U V A k \<Longrightarrow> entry k l = Some i \<Longrightarrow> i < next_ino k"
  using wf_kernelD(3) [OF guardedD(1)] entry_mem by blast

lemma keeps_open_reading: "\<not> changes flags \<Longrightarrow> keeps (guarded U V A) (sys_open p flags mode)"
  unfolding sys_open_def
  by (auto intro!: keeps_at_path guarded_new_fd entry_old simp: changes_def
      split: option.split fkind.split)

lemma guarded_create:
  assumes g: "guarded U V A k" and "entry k l = None" and "prefix U l"
    and "placeable k l"
  shows "guarded U V A (snd (new_fd (next_ino k) w (add_node l (new_inode (Reg s) mode) k)))"
proof (rule guarded_new_fd)
  show "guarded U V A (add_node l (new_inode (Reg s) mode) k)"
    using assms by (intro guarded_add) (simp_all add: new_inode_def)
  show "next_ino k < next_ino (add_node l (new_inode (Reg s) mode) k)" by (simp add: add_node_def)
  show "w \<longrightarrow> next_ino k \<notin> inos V" using inos_less [OF g] by blast
qed

lemma guarded_reopen:
  assumes g: "guarded U V A k" and e: "entry k l = Some i" "inodes k i = Some nd" and "prefix U l"
    and "i_kind nd = Reg s"
  shows "guarded U V A (snd (new_fd i w (set_inode i (nd\<lparr>i_kind := Reg t\<rparr>) k)))"
proof (rule guarded_new_fd)
  have i: "i \<notin> inos V" using guardedD(4) [OF g e(1) assms(4)] .
  show "guarded U V A (set_inode i (nd\<lparr>i_kind := Reg t\<rparr>) k)"
    using assms(5) by (intro guarded_set_inode [OF g e(2) i]) simp_all
  show "i < next_ino (set_inode i (nd\<lparr>i_kind := Reg t\<rparr>) k)"
    using wf_kernelD(3) [OF guardedD(1) [OF g] entry_mem [OF e(1)]] by (simp add: set_inode_def)
  show "w \<longrightarrow> i \<notin> inos V" using i by simp
qed

lemma keeps_open:
  assumes "inside U A p" and "follows flags \<longrightarrow> path_names p \<in> A"
  shows "keeps (guarded U V A) (sys_open p flags mode)"
  unfolding sys_open_def
proof (rule keeps_at_path)
  fix k l
  assume g: "guarded U V A k" and l: "lookup_path k p (follows flags) = Inr l"
  note i = lookup_inside [OF assms(1) g assms(2) l]
  have new: "guarded U V A (snd (new_fd (next_ino k) w (add_node l (new_inode (Reg []) mode) k)))"
    if "entry k l = None" for w
    using guarded_create [OF g that i(2,3)] .
  have trunc: "guarded U V A (snd (new_fd i w (set_inode i (nd\<lparr>i_kind := Reg []\<rparr>) k)))"
    if "entry k l = Some i" "inodes k i = Some nd" "i_kind nd = Reg s" for i nd s w
    using guarded_reopen [OF g that(1,2) i(2) that(3)] .
  have fd: "guarded U V A (snd (new_fd i w k))" if "entry k l = Some i" for i w
    using guarded_new_fd [OF g] guardedD(4) [OF g that i(2)]
      wf_kernelD(3) [OF guardedD(1) [OF g] entry_mem [OF that]] by blast
  show "guarded U V A (snd (case entry k l of
         None \<Rightarrow>
           if has_flag flags O_CREAT
           then new_fd (next_ino k) (writable_flags flags) (add_node l (new_inode (Reg []) mode) k)
           else (Inl ENOENT, k)
       | Some i \<Rightarrow>
           (case inodes k i of
              None \<Rightarrow> (Inl ENOENT, k)
            | Some nd \<Rightarrow>
                if has_flag flags O_CREAT \<and> has_flag flags O_EXCL then (Inl EEXIST, k)
                else case i_kind nd of
                  Lnk t \<Rightarrow> (Inl ELOOP, k)
                | Dir \<Rightarrow>
                    if writable_flags flags \<or> has_flag flags O_TRUNC then (Inl EISDIR, k)
                    else new_fd i False k
                | Reg s \<Rightarrow>
                    new_fd i (writable_flags flags)
                      (if has_flag flags O_TRUNC then set_inode i (nd\<lparr>i_kind := Reg []\<rparr>) k else k)
                | _ \<Rightarrow> new_fd i (writable_flags flags) k)))"
    using g new trunc fd by (simp split: option.split fkind.split)
qed

text \<open>A file that the call has made is not a symbolic link, and there is nothing below it.\<close>

lemma below_file:
  "wf_kernel k \<Longrightarrow> kind_at k a = Some (Reg s) \<Longrightarrow> prefix a l \<Longrightarrow> kind_at k l \<noteq> Some (Lnk t)"
  using strict_below(1) [of k l _ a]
  by (cases "l = a") (auto simp: kind_at_def node_def is_dir_at_def strict_prefix_def split: bind_splits)

lemma open_exclusive:
  assumes "inside U A p" and "has_flag flags O_CREAT" and "has_flag flags O_EXCL"
  shows "triple (guarded U V A) (sys_open p flags mode)
           (\<lambda>fd. guarded U V (A \<union> {l. prefix (path_names p) l})) (guarded U V A)"
proof (rule tripleI)
  have nf: "\<not> follows flags" using assms(2,3) by (simp add: follows_def)
  fix k and fd :: nat and t
  assume g: "guarded U V A k" and o: "sys_open p flags mode k = (Inr fd, t)"
  have gt: "guarded U V A t" using keepsD [OF keeps_open [OF assms(1)] g, of flags mode] nf o by simp
  obtain ps l where l: "lookup_path (k\<lparr>plans := ps\<rparr>) p False = Inr l" and e: "entry k l = None"
    and t: "t = snd (new_fd (next_ino k) (writable_flags flags)
               (add_node l (new_inode (Reg []) mode) (k\<lparr>plans := ps\<rparr>)))"
    using o assms(2,3) nf
    by (auto simp: sys_open_def at_path_def syscall_def split: list.splits plan.splits sum.splits option.splits fkind.splits)
      (metis (no_types, lifting) kernel.surjective kernel.update_convs(6) snd_conv)+
  have "l = path_names p" using lookup_inside(1) [OF assms(1) _ _ l] g by simp
  with t guardedD(1) [OF g] have "kind_at t (path_names p) = Some (Reg [])"
    by (simp add: new_fd_def kind_add_node new_inode_def)
  with gt below_file [OF guardedD(1) [OF gt]]
  show "guarded U V (A \<union> {l. prefix (path_names p) l}) t"
    by (auto simp: guarded_def no_links_def)
next
  fix k e t
  assume "guarded U V A k" "sys_open p flags mode k = (Inl e, t)"
  then show "guarded U V A t"
    using keepsD [OF keeps_open [OF assms(1)], of flags V k mode] assms(2,3)
    by (simp add: follows_def)
qed

text \<open>Open files.\<close>

lemma keeps_close: "keeps (guarded U V A) (sys_close fd)"
  unfolding sys_close_def by (rule keeps_syscall) (simp add: guarded_close)

lemma keeps_fd_calls:
  "keeps (guarded U V A) (sys_ftruncate fd n)" "keeps (guarded U V A) (sys_futimes fd t t')"
  "keeps (guarded U V A) (sys_fchown fd uid gid)"
  unfolding sys_ftruncate_def sys_futimes_def sys_fchown_def
  by ((rule keeps_at_length)?, rule keeps_at_fd;
      auto split: sum.split intro!: guarded_set_inode dest: guardedD(5) truncate_node_kind)+

lemma keeps_pwrite: "keeps (guarded U V A) (sys_pwrite fd d off)"
proof (rule keepsI)
  fix k
  assume g: "guarded U V A k"
  have "keeps (guarded U V A) (at_fd fd (\<lambda>i wr nd k'.
       if \<not> wr then (Inl EBADF, k')
       else case i_kind nd of
         Reg s \<Rightarrow>
           (let n = transferred k (length d)
            in (Inr n, set_inode i (nd\<lparr>i_kind := Reg (write_at off (take n d) s)\<rparr>) k'))
       | _ \<Rightarrow> (Inl EINVAL, k')))"
    by (rule keeps_at_fd) (auto simp: Let_def split: fkind.split intro!: guarded_set_inode dest: guardedD(5))
  with g show "guarded U V A (snd (sys_pwrite fd d off k))"
    unfolding sys_pwrite_def by (rule keepsD [rotated])
qed

lemma keeps_dup: "keeps (guarded U V A) (sys_dup fd)"
  unfolding sys_dup_def
  by (rule keeps_at_fd) (auto intro!: guarded_new_fd dest: guardedD(1,5) wf_kernelD(5))

lemmas keeps_calls = keeps_close keeps_fd_calls keeps_pwrite keeps_dup

text \<open>What has been made as a directory is not a link.\<close>

lemma triple_mkdir:
  assumes "inside U A p"
  shows "triple (guarded U V A) (sys_mkdir p mode)
           (\<lambda>_. guarded U V (insert (path_names p) A)) (guarded U V A)"
proof (rule tripleI)
  fix k t and a :: unit
  assume g: "guarded U V A k" and m: "sys_mkdir p mode k = (Inr a, t)"
  have gt: "guarded U V A t" using keepsD [OF keeps_mkdir [OF assms] g, of mode] m by simp
  obtain ps l where l: "lookup_path (k\<lparr>plans := ps\<rparr>) p False = Inr l"
    and t: "t = add_node l (new_inode Dir mode) (k\<lparr>plans := ps\<rparr>)"
    using m
    by (auto simp: sys_mkdir_def make_def at_path_def syscall_def split: list.splits plan.splits sum.splits if_splits)
      (metis (no_types, lifting) kernel.surjective kernel.update_convs(6))+
  have "l = path_names p" using lookup_inside(1) [OF assms _ _ l] g by simp
  with t guardedD(1) [OF g] have "kind_at t (path_names p) = Some Dir"
    by (simp add: kind_add_node new_inode_def)
  with gt show "guarded U V (insert (path_names p) A) t" by (auto simp: guarded_def no_links_def)
next
  fix k e t
  assume "guarded U V A k" "sys_mkdir p mode k = (Inl e, t)"
  then show "guarded U V A t" using keepsD [OF keeps_mkdir [OF assms]] by (metis snd_conv)
qed

end
