(* ===== verification/Overlay.thy ===== *)
theory Overlay
  imports Kernel
begin

text \<open>
  The copy-on-write layers of \<open>src/overlay.cc\<close>: path resolution over the two layers, the
  whiteout markers and copy-up.  The paths are strings as in the C++, cut at slashes the way
  \<open>strchr\<close> and \<open>find_last_of\<close> cut them.  An operation returns a value (\<open>Inr\<close>) or the errno
  whose negation the C++ returns (\<open>Inl\<close>).
\<close>

section \<open>State\<close>

text \<open>
  \<open>struct Overlay\<close>: the two layers do not change after the start and are arguments; the sticky
  flag is part of the state, beside the file system.
\<close>

record layers =
  lower :: path
  upper :: path
  pid :: nat

record overlay = kernel +
  can_mknod_whiteout :: bool

type_synonym 'a op = "(overlay, nat, 'a) estep"

definition WH_PREFIX :: string where "WH_PREFIX = ''.wh.''"
definition OPAQUE_MARKER :: string where "OPAQUE_MARKER = ''.wh..wh..opq''"

section \<open>Paths\<close>

text \<open>The result of \<open>join\<close> for a path that starts with a slash, and for others.\<close>

definition join :: "path \<Rightarrow> path \<Rightarrow> path" where
  "join base rel =
     (if rel = [] \<or> rel = ''/'' then base
      else if hd rel \<noteq> SLASH then base @ SLASH # rel
      else base @ rel)"

definition under :: "path \<Rightarrow> string \<Rightarrow> path" where
  "under dir name = dir @ SLASH # name"

definition split :: "path \<Rightarrow> path \<times> string" where
  "split p =
     (if p = [] \<or> p = ''/'' then ([], [])
      else if SLASH \<notin> set p then ([], p)
      else let name = rev (takeWhile (\<lambda>c. c \<noteq> SLASH) (rev p));
               parent = take (length p - length name - 1) p
           in if parent = [] then (''/'', name) else (parent, name))"

section \<open>Resolution\<close>

definition is_dir :: "inode \<Rightarrow> bool" where
  "is_dir nd \<longleftrightarrow> i_kind nd = Dir"

definition is_reg :: "inode \<Rightarrow> bool" where
  "is_reg nd = (case i_kind nd of Reg _ \<Rightarrow> True | _ \<Rightarrow> False)"

definition is_lnk :: "inode \<Rightarrow> bool" where
  "is_lnk nd = (case i_kind nd of Lnk _ \<Rightarrow> True | _ \<Rightarrow> False)"

definition is_whiteout_dev :: "inode \<Rightarrow> bool" where
  "is_whiteout_dev nd \<longleftrightarrow> i_kind nd = Chr 0 0"

fun succeeded :: "'e + 'a \<Rightarrow> bool" where
  "succeeded (Inr _) = True"
| "succeeded (Inl _) = False"

fun result_is :: "('a \<Rightarrow> bool) \<Rightarrow> 'e + 'a \<Rightarrow> bool" where
  "result_is P (Inr a) = P a"
| "result_is P (Inl _) = False"

definition is_opaque_dir :: "path \<Rightarrow> bool op" where
  "is_opaque_dir dir =
     bind_s (attempt (sys_lstat (under dir OPAQUE_MARKER))) (\<lambda>r. return_s (succeeded r))"

text \<open>\<open>Resolved\<close>: the layer, with the path in it and the result of \<open>lstat\<close>.\<close>

datatype resolved = kNone | kUpper path inode | kLower path inode | kWhiteout

text \<open>What the callers test first: the entry is there, in one of the layers.\<close>

fun visible :: "resolved \<Rightarrow> (path \<times> inode) option" where
  "visible (kUpper p sb) = Some (p, sb)"
| "visible (kLower p sb) = Some (p, sb)"
| "visible kNone = None"
| "visible kWhiteout = None"

definition uninitialised :: inode where
  "uninitialised = new_inode Special 0"

text \<open>
  The end of \<open>resolve\<close>: a path that ends in a slash is the root, whose status may be missing.
\<close>

definition resolve_end :: "layers \<Rightarrow> resolved op" where
  "resolve_end ls =
     bind_s (attempt (sys_lstat (upper ls)))
       (\<lambda>r. return_s (kUpper (upper ls) (case r of Inr sb \<Rightarrow> sb | Inl _ \<Rightarrow> uninitialised)))"

text \<open>The loop: \<open>up\<close> and \<open>lo\<close> are where the walk stands in the layers, \<open>p\<close> is what is left.\<close>

function resolve_from :: "layers \<Rightarrow> bool \<Rightarrow> path \<Rightarrow> path \<Rightarrow> string \<Rightarrow> resolved op" where
  "resolve_from ls opaque_above up lo p =
     (let comp = before_char SLASH p;
          slash = (SLASH \<in> set p);
          up_full = under up comp;
          lo_full = under lo comp
      in if comp = [] then resolve_end ls
         else bind_s (attempt (sys_lstat (under up (WH_PREFIX @ comp)))) (\<lambda>wh.
           if result_is is_reg wh then return_s kWhiteout
           else bind_s (attempt (sys_lstat up_full)) (\<lambda>in_upper.
             if result_is is_whiteout_dev in_upper then return_s kWhiteout
             else bind_s (if opaque_above then return_s (Inl 0) else attempt (sys_lstat lo_full))
               (\<lambda>in_lower.
                 case in_upper of
                   Inr up_sb \<Rightarrow>
                     bind_s (if is_dir up_sb then is_opaque_dir up_full else return_s False)
                       (\<lambda>opq.
                         if \<not> slash then return_s (kUpper up_full up_sb)
                         else resolve_from ls (opaque_above \<or> opq) up_full lo_full (after_char SLASH p))
                 | Inl _ \<Rightarrow>
                     (case in_lower of
                        Inr lo_sb \<Rightarrow>
                          if \<not> slash then return_s (kLower lo_full lo_sb)
                          else resolve_from ls opaque_above up_full lo_full (after_char SLASH p)
                      | Inl _ \<Rightarrow> return_s kNone)))))"
  by pat_completeness auto

termination
  by (relation "measure (\<lambda>(ls, opq, up, lo, p). length p)") (auto simp: length_after_char)

declare resolve_from.simps [simp del]

definition resolve :: "layers \<Rightarrow> path \<Rightarrow> resolved op" where
  "resolve ls path =
     (if path = [] then return_s kNone
      else if path = ''/'' then
        bind_s (attempt (sys_lstat (upper ls))) (\<lambda>u.
          case u of
            Inr sb \<Rightarrow> return_s (kUpper (upper ls) sb)
          | Inl _ \<Rightarrow>
              bind_s (attempt (sys_lstat (lower ls))) (\<lambda>l.
                case l of
                  Inr sb \<Rightarrow> return_s (kLower (lower ls) sb)
                | Inl _ \<Rightarrow> return_s kNone))
      else resolve_from ls False (upper ls) (lower ls) (tl path))"

section \<open>Whiteouts and parents\<close>

text \<open>The mode of a directory made in the upper layer.\<close>

definition parent_mode :: "nat + inode \<Rightarrow> nat" where
  "parent_mode r =
     (case r of Inr lsb \<Rightarrow> if is_dir lsb then perm_bits (i_mode lsb) else 493 | Inl _ \<Rightarrow> 493)"

function ensure_from :: "path \<Rightarrow> path \<Rightarrow> string \<Rightarrow> unit op" where
  "ensure_from up lo p =
     (if SLASH \<notin> set p then return_s ()
      else let up' = under up (before_char SLASH p);
               lo' = under lo (before_char SLASH p)
           in bind_s (attempt (sys_lstat up')) (\<lambda>r.
                case r of
                  Inr sb \<Rightarrow>
                    if \<not> is_dir sb then throw_s ENOTDIR
                    else ensure_from up' lo' (after_char SLASH p)
                | Inl _ \<Rightarrow>
                    bind_s (attempt (sys_lstat lo')) (\<lambda>l.
                      bind_s (sys_mkdir up' (parent_mode l)) (\<lambda>_.
                        ensure_from up' lo' (after_char SLASH p)))))"
  by pat_completeness auto
termination
  by (relation "measure (\<lambda>(up, lo, p). length p)") (auto simp: length_after_char)

declare ensure_from.simps [simp del]

definition ensure_upper_parents :: "layers \<Rightarrow> path \<Rightarrow> unit op" where
  "ensure_upper_parents ls fuse_path = ensure_from (upper ls) (lower ls) (tl fuse_path)"

text \<open>\<open>unlink(p) != 0 && errno != ENOENT\<close>.\<close>

definition unlink_if_present :: "path \<Rightarrow> unit op" where
  "unlink_if_present p =
     bind_s (attempt (sys_unlink p)) (\<lambda>r.
       case r of
         Inr _ \<Rightarrow> return_s ()
       | Inl e \<Rightarrow> if e = ENOENT then return_s () else throw_s e)"

definition upper_leaf :: "layers \<Rightarrow> path \<Rightarrow> path" where
  "upper_leaf ls fuse_path =
     (let (parent, name) = split fuse_path in under (join (upper ls) parent) name)"

definition sidecar :: "layers \<Rightarrow> path \<Rightarrow> path" where
  "sidecar ls fuse_path =
     (let (parent, name) = split fuse_path in under (join (upper ls) parent) (WH_PREFIX @ name))"

definition clear_whiteout :: "layers \<Rightarrow> path \<Rightarrow> unit op" where
  "clear_whiteout ls fuse_path =
     bind_s (attempt (sys_lstat (upper_leaf ls fuse_path))) (\<lambda>r.
     bind_s (if result_is is_whiteout_dev r
             then unlink_if_present (upper_leaf ls fuse_path) else return_s ()) (\<lambda>_.
     bind_s (attempt (sys_lstat (sidecar ls fuse_path))) (\<lambda>s.
       if succeeded s then unlink_if_present (sidecar ls fuse_path) else return_s ())))"

text \<open>The sidecar form: an empty regular file.\<close>

definition touch :: "path \<Rightarrow> unit op" where
  "touch p =
     bind_s (sys_open p (O_WRONLY OR O_CREAT OR O_TRUNC) 384) (\<lambda>fd.
     bind_s (attempt (sys_close fd)) (\<lambda>_. return_s ()))"

definition remove_leaf :: "path \<Rightarrow> unit op" where
  "remove_leaf p =
     bind_s (attempt (sys_lstat p)) (\<lambda>r.
       case r of
         Inl _ \<Rightarrow> return_s ()
       | Inr sb \<Rightarrow> if is_dir sb then sys_rmdir p else sys_unlink p)"

definition place_whiteout :: "layers \<Rightarrow> path \<Rightarrow> unit op" where
  "place_whiteout ls fuse_path =
     bind_s (remove_leaf (upper_leaf ls fuse_path)) (\<lambda>_.
     bind_s (get_s can_mknod_whiteout) (\<lambda>can.
       if \<not> can then touch (sidecar ls fuse_path)
       else bind_s (attempt (sys_mknod_whiteout (upper_leaf ls fuse_path))) (\<lambda>r.
         case r of
           Inr _ \<Rightarrow> return_s ()
         | Inl e \<Rightarrow>
             if e \<noteq> EPERM \<and> e \<noteq> EACCES then throw_s e
             else bind_s (update_s (can_mknod_whiteout_update (\<lambda>_. False))) (\<lambda>_.
               touch (sidecar ls fuse_path)))))"

section \<open>Copy-up\<close>

text \<open>\<open>close(fd); return -errno\<close>: the errno is that of a failed close, if it fails.\<close>

definition close_and_fail :: "nat \<Rightarrow> nat \<Rightarrow> 'a op" where
  "close_and_fail fd e =
     bind_s (attempt (sys_close fd)) (\<lambda>r. throw_s (case r of Inr _ \<Rightarrow> e | Inl e' \<Rightarrow> e'))"

text \<open>\<open>close\<close> or \<open>unlink\<close> with the result ignored.\<close>

definition ignoring :: "('z, 'a) sys \<Rightarrow> ('z, unit) sys" where
  "ignoring m = bind_s (attempt m) (\<lambda>_. return_s ())"

definition tmp_name :: "layers \<Rightarrow> path \<Rightarrow> nat \<Rightarrow> path" where
  "tmp_name ls dst n = dst @ ''.jaim-cu.'' @ show_nat (pid ls) @ ''.'' @ show_nat n"

text \<open>The attempts to make the temporary file; the source descriptor is closed on failure.\<close>

fun open_tmp :: "layers \<Rightarrow> nat \<Rightarrow> path \<Rightarrow> nat \<Rightarrow> nat list \<Rightarrow> (path \<times> nat) op" where
  "open_tmp ls sfd dst mode [] =
     bind_s (ignoring (sys_close sfd)) (\<lambda>_. throw_s EEXIST)"
| "open_tmp ls sfd dst mode (n # ns) =
     bind_s (attempt (sys_open (tmp_name ls dst n) (O_WRONLY OR O_CREAT OR O_EXCL OR O_NOFOLLOW) mode))
       (\<lambda>r. case r of
          Inr dfd \<Rightarrow> return_s (tmp_name ls dst n, dfd)
        | Inl e \<Rightarrow>
            if e \<noteq> EEXIST then close_and_fail sfd e else open_tmp ls sfd dst mode ns)"

text \<open>The inner loop of the copy: \<open>write\<close> until nothing is left, again after an interrupt.\<close>

lemma syscall_plans:
  "syscall m k = (r, k') \<Longrightarrow>
   (plans k = [] \<and> m k = (r, k')) \<or>
   (\<exists>e ps. plans k = Fail e # ps \<and> r = Inl e \<and> k' = k\<lparr>plans := ps\<rparr>) \<or>
   (\<exists>p ps. plans k = p # ps \<and> m (k\<lparr>plans := ps\<rparr>) = (r, k'))"
  by (auto simp: syscall_def split: list.splits plan.splits)

lemma pwrite_progress:
  assumes "sys_pwrite fd d off k = (r, k')"
  shows "length (plans k') < length (plans k) \<or>
    plans k' = plans k \<and> (\<forall>e. r = Inl e \<longrightarrow> e \<noteq> EINTR) \<and> (\<forall>w. r = Inr w \<longrightarrow> w = length d)"
  using assms
  by (auto simp: sys_pwrite_def at_fd_def syscall_def set_inode_def transferred_def Let_def
      EBADF_def EINTR_def EINVAL_def split: list.splits plan.splits option.splits if_splits fkind.splits)

function write_all :: "nat \<Rightarrow> string \<Rightarrow> nat \<Rightarrow> unit op" where
  "write_all dfd d off k =
     (if d = [] then (Inr (), k)
      else case sys_pwrite dfd d off k of
        (Inl e, k') \<Rightarrow> if e = EINTR then write_all dfd d off k' else (Inl e, k')
      | (Inr w, k') \<Rightarrow> write_all dfd (drop w d) (off + w) k')"
  by pat_completeness auto

termination
  by (relation "measure (\<lambda>(dfd, d, off, k). length (plans k) + length d)")
    (auto dest!: pwrite_progress [OF sym] pwrite_progress simp flip: length_greater_0_conv)

declare write_all.simps [simp del]

text \<open>
  The outer loop ends because a write at an offset does not make a file longer than the data
  written to it, and every interrupt uses up a failure of the plan.
\<close>

definition data_of :: "inode \<Rightarrow> string" where
  "data_of nd = (case i_kind nd of Reg s \<Rightarrow> s | _ \<Rightarrow> [])"

definition open_data :: "'z kernel_scheme \<Rightarrow> nat \<Rightarrow> string" where
  "open_data k fd =
     (case fds k fd of
        None \<Rightarrow> []
      | Some (i, wr) \<Rightarrow> (case inodes k i of None \<Rightarrow> [] | Some nd \<Rightarrow> data_of nd))"

lemma length_write_at: "length (write_at off d s) = max (length s) (off + length d)"
  by (auto simp: write_at_def resize_def)

lemma pwrite_effect:
  assumes "sys_pwrite fd d off k = (r, k')"
  shows "fds k' = fds k \<and>
    (inodes k' = inodes k \<or>
     (\<exists>i nd s n. inodes k i = Some nd \<and> i_kind nd = Reg s \<and> n \<le> length d \<and>
        inodes k' = (inodes k)(i \<mapsto> nd\<lparr>i_kind := Reg (write_at off (take n d) s)\<rparr>)))"
proof -
  have le: "transferred k (length d) \<le> length d"
    by (simp add: transferred_def split: list.split plan.split)
  show ?thesis
    using assms le
    by (auto simp: sys_pwrite_def at_fd_def syscall_def set_inode_def Let_def
        split: list.splits plan.splits option.splits if_splits fkind.splits) blast+
qed

lemma pwrite_size:
  assumes "sys_pwrite fd d off k = (r, k')" and "off + length d \<le> n"
    and "length (open_data k sfd) \<le> n"
  shows "length (open_data k' sfd) \<le> n"
  using pwrite_effect [OF assms(1)] assms(2,3)
  by (auto simp: open_data_def data_of_def length_write_at split: option.splits if_splits)

lemma pwrite_plans: "sys_pwrite fd d off k = (r, k') \<Longrightarrow> length (plans k') \<le> length (plans k)"
  using pwrite_progress [of fd d off k r k'] by auto

lemma pwrite_accepts: "sys_pwrite fd d off k = (Inr w, k') \<Longrightarrow> w \<le> length d"
  by (auto simp: sys_pwrite_def at_fd_def syscall_def set_inode_def transferred_def Let_def
      split: list.splits plan.splits option.splits if_splits fkind.splits)

lemma write_all_size:
  assumes "write_all dfd d off k = (r, k')" and "off + length d \<le> n"
    and "length (open_data k sfd) \<le> n"
  shows "length (open_data k' sfd) \<le> n \<and> length (plans k') \<le> length (plans k)"
  using assms
proof (induction dfd d off k rule: write_all.induct)
  case (1 dfd d off k)
  show ?case
  proof (cases "d = []")
    case True
    with 1(3-5) show ?thesis by (simp add: write_all.simps)
  next
    case False
    obtain q k1 where q: "sys_pwrite dfd d off k = (q, k1)" by fastforce
    note size = pwrite_size [OF q 1(4) 1(5)] and plans = pwrite_plans [OF q]
    show ?thesis
    proof (cases q)
      case (Inl e)
      show ?thesis
      proof (cases "e = EINTR")
        case True
        with 1(3) False q Inl have "write_all dfd d off k1 = (r, k')"
          by (simp add: write_all.simps [of dfd d off k])
        from 1(1) [OF False q [symmetric, unfolded Inl] refl True this 1(4) size] plans show ?thesis
          by simp
      next
        case False
        with 1(3) \<open>d \<noteq> []\<close> q Inl size plans show ?thesis
          by (simp add: write_all.simps [of dfd d off k])
      qed
    next
      case (Inr w)
      with pwrite_accepts q 1(4) have le: "off + w + length (drop w d) \<le> n" by fastforce
      from 1(3) False q Inr have "write_all dfd (drop w d) (off + w) k1 = (r, k')"
        by (simp add: write_all.simps [of dfd d off k])
      from 1(2) [OF False q [symmetric, unfolded Inr] refl this le size] plans show ?thesis by simp
    qed
  qed
qed

definition BUF :: nat where "BUF = 65536"

lemma pread_progress:
  fixes k :: "'z kernel_scheme"
  assumes "sys_pread fd n off k = (r, k')"
  shows "open_data k' sfd = open_data k sfd"
    and "length (plans k') < length (plans k) \<or> plans k' = plans k \<and> r \<noteq> Inl EINTR"
    and "r = Inr s \<Longrightarrow> s = [] \<or> off + length s \<le> length (open_data k fd)"
  using assms
  by (auto simp: sys_pread_def at_fd_def syscall_def transferred_def open_data_def data_of_def
      EBADF_def EINTR_def EINVAL_def EISDIR_def
      split: list.splits plan.splits option.splits if_splits fkind.splits)

lemma copy_step:
  assumes "sys_pread sfd BUF off k = (Inr s, k1)" and "s \<noteq> []"
    and "write_all dfd s off k1 = (r, k2)"
  shows "length (plans k2) + (length (open_data k2 sfd) - (off + length s))
       < length (plans k) + (length (open_data k sfd) - off)"
  using pread_progress(1) [OF assms(1)] pread_progress(2) [OF assms(1)]
    pread_progress(3) [OF assms(1) refl]
    write_all_size [OF assms(3), of "length (open_data k sfd)" sfd] assms(2)
  by (cases s) auto

lemma copy_retry:
  assumes "sys_pread sfd BUF off k = (Inl EINTR, k1)"
  shows "length (plans k1) + (length (open_data k1 sfd) - off)
       < length (plans k) + (length (open_data k sfd) - off)"
  using pread_progress(1,2) [OF assms] by auto

function copy_loop :: "nat \<Rightarrow> nat \<Rightarrow> nat \<Rightarrow> unit op" where
  "copy_loop sfd dfd off k =
     (case sys_pread sfd BUF off k of
        (Inl e, k1) \<Rightarrow> if e = EINTR then copy_loop sfd dfd off k1 else (Inl e, k1)
      | (Inr s, k1) \<Rightarrow>
          if s = [] then (Inr (), k1)
          else case write_all dfd s off k1 of
            (Inl e, k2) \<Rightarrow> (Inl e, k2)
          | (Inr _, k2) \<Rightarrow> copy_loop sfd dfd (off + length s) k2)"
  by pat_completeness auto

termination
  by (relation "measure (\<lambda>(sfd, dfd, off, k). length (plans k) + (length (open_data k sfd) - off))")
    (auto simp: copy_step [OF sym _ sym] copy_retry [OF sym])

declare copy_loop.simps [simp del]

text \<open>The errors after the copy has started remove the temporary file and keep their errno.\<close>

definition discard :: "nat list \<Rightarrow> path \<Rightarrow> nat \<Rightarrow> 'a op" where
  "discard opened tmp e =
     foldr (\<lambda>fd m. bind_s (ignoring (sys_close fd)) (\<lambda>_. m)) opened
       (bind_s (ignoring (sys_unlink tmp)) (\<lambda>_. throw_s e))"

definition seconds :: "int \<times> int \<Rightarrow> int \<times> int" where
  "seconds t = (fst t, 0)"

text \<open>From the first read to the rename, with the temporary file open.\<close>

definition copy_into :: "path \<Rightarrow> nat \<Rightarrow> nat \<Rightarrow> path \<Rightarrow> inode \<Rightarrow> unit op" where
  "copy_into tmp sfd dfd dst src_sb =
     bind_s (attempt (copy_loop sfd dfd 0)) (\<lambda>r.
       case r of
         Inl e \<Rightarrow> discard [sfd, dfd] tmp e
       | Inr _ \<Rightarrow>
           bind_s (ignoring (sys_close sfd)) (\<lambda>_.
           bind_s (ignoring (sys_futimes dfd (seconds (i_atime src_sb)) (seconds (i_mtime src_sb)))) (\<lambda>_.
           bind_s (ignoring (sys_fchown dfd (i_uid src_sb) (i_gid src_sb))) (\<lambda>_.
           bind_s (ignoring (sys_close dfd)) (\<lambda>_.
           bind_s (attempt (sys_rename tmp dst)) (\<lambda>q.
             case q of Inl e \<Rightarrow> discard [] tmp e | Inr _ \<Rightarrow> return_s ()))))))"

definition copy_regular :: "layers \<Rightarrow> path \<Rightarrow> path \<Rightarrow> inode \<Rightarrow> unit op" where
  "copy_regular ls src dst src_sb =
     bind_s (sys_open src (O_RDONLY OR O_NOFOLLOW) 0) (\<lambda>sfd.
     bind_s (open_tmp ls sfd dst (perm_bits (i_mode src_sb)) [0..<100]) (\<lambda>(tmp, dfd).
       copy_into tmp sfd dfd dst src_sb))"

text \<open>The buffer has the size that \<open>lstat\<close> gave, which is that of the target.\<close>

definition link_size :: "inode \<Rightarrow> nat" where
  "link_size nd = (case i_kind nd of Lnk t \<Rightarrow> length t | _ \<Rightarrow> 0)"

definition copy_symlink :: "path \<Rightarrow> path \<Rightarrow> inode \<Rightarrow> unit op" where
  "copy_symlink src dst src_sb =
     bind_s (sys_readlink src) (\<lambda>t. sys_symlink (take (link_size src_sb) t) dst)"

definition copy_up :: "layers \<Rightarrow> path \<Rightarrow> unit op" where
  "copy_up ls fuse_path =
     bind_s (resolve ls fuse_path) (\<lambda>r.
       case r of
         kUpper p sb \<Rightarrow> return_s ()
       | kWhiteout \<Rightarrow> throw_s ENOENT
       | kNone \<Rightarrow> throw_s ENOENT
       | kLower p sb \<Rightarrow>
           bind_s (ensure_upper_parents ls fuse_path) (\<lambda>_.
             let lo_full = join (lower ls) fuse_path;
                 up_full = join (upper ls) fuse_path
             in if is_reg sb then copy_regular ls lo_full up_full sb
                else if is_lnk sb then copy_symlink lo_full up_full sb
                else if is_dir sb then
                  bind_s (attempt (sys_mkdir up_full (perm_bits (i_mode sb)))) (\<lambda>q.
                    case q of
                      Inr _ \<Rightarrow> return_s ()
                    | Inl e \<Rightarrow> if e \<noteq> EEXIST then throw_s e else return_s ())
                else throw_s EPERM))"

end
