(* ===== verification/Overlay_Ops.thy ===== *)
theory Overlay_Ops
  imports Overlay "HOL-Library.Signed_Division"
begin

text \<open>
  The FUSE operations of \<open>src/overlay.cc\<close>, \<open>op_getattr\<close> to \<open>op_removexattr\<close>, as steps on the
  file system: what they return is the value (\<open>Inr\<close>) or the errno (\<open>Inl\<close>).  A file handle is
  the \<open>fh\<close> field of \<open>fuse_file_info\<close>, 0 where there is none.
\<close>

section \<open>Reading\<close>

text \<open>\<open>resolve\<close>, with ENOENT for what is not visible.\<close>

definition resolved_or_enoent :: "layers \<Rightarrow> path \<Rightarrow> (path \<times> inode) op" where
  "resolved_or_enoent ls path =
     bind_s (resolve ls path) (\<lambda>r.
       case visible r of None \<Rightarrow> throw_s ENOENT | Some x \<Rightarrow> return_s x)"

definition op_getattr :: "layers \<Rightarrow> path \<Rightarrow> inode op" where
  "op_getattr ls path = bind_s (resolved_or_enoent ls path) (\<lambda>(p, sb). return_s sb)"

definition op_fgetattr :: "layers \<Rightarrow> path \<Rightarrow> nat \<Rightarrow> inode op" where
  "op_fgetattr ls path fh = (if fh \<noteq> 0 then sys_fstat fh else op_getattr ls path)"

definition op_access :: "layers \<Rightarrow> path \<Rightarrow> nat \<Rightarrow> unit op" where
  "op_access ls path amode = bind_s (resolved_or_enoent ls path) (\<lambda>(p, sb). sys_access p amode)"

text \<open>A target longer than the buffer is cut; the last byte is the terminator's.\<close>

definition op_readlink :: "layers \<Rightarrow> path \<Rightarrow> nat \<Rightarrow> string op" where
  "op_readlink ls path n =
     bind_s (resolved_or_enoent ls path) (\<lambda>(p, sb).
       bind_s (sys_readlink p) (\<lambda>t. return_s (take (n - 1) t)))"

text \<open>The entries of a directory; none if it cannot be opened.\<close>

definition entries :: "path \<Rightarrow> string list op" where
  "entries dir =
     bind_s (attempt (sys_listdir dir)) (\<lambda>r.
       return_s (case r of Inl _ \<Rightarrow> [] | Inr ns \<Rightarrow> ns))"

definition is_dot :: "string \<Rightarrow> bool" where
  "is_dot nm \<longleftrightarrow> nm = ''.'' \<or> nm = ''..''"

definition is_sidecar :: "string \<Rightarrow> bool" where
  "is_sidecar nm \<longleftrightarrow> length nm > length WH_PREFIX \<and> take (length WH_PREFIX) nm = WH_PREFIX"

text \<open>The loop over the upper directory: the names shown and the names whited out.\<close>

fun scan_upper :: "path \<Rightarrow> string list \<Rightarrow> string list \<Rightarrow> string list \<Rightarrow>
    (string list \<times> string list) op" where
  "scan_upper dir [] seen whited = return_s (seen, whited)"
| "scan_upper dir (nm # ns) seen whited =
     (if is_dot nm \<or> nm = OPAQUE_MARKER then scan_upper dir ns seen whited
      else if is_sidecar nm then scan_upper dir ns seen (whited @ [drop (length WH_PREFIX) nm])
      else bind_s (attempt (sys_lstat (under dir nm))) (\<lambda>r.
        if result_is is_whiteout_dev r then scan_upper dir ns seen (whited @ [nm])
        else scan_upper dir ns (seen @ [nm]) whited))"

definition scan_lower :: "string list \<Rightarrow> string list \<Rightarrow> string list \<Rightarrow> string list" where
  "scan_lower seen whited ns =
     filter (\<lambda>nm. \<not> is_dot nm \<and> nm \<notin> set whited \<and> nm \<notin> set seen) ns"

text \<open>The names given to the filler, in their order.\<close>

definition op_readdir :: "layers \<Rightarrow> path \<Rightarrow> string list op" where
  "op_readdir ls path =
     bind_s (resolved_or_enoent ls path) (\<lambda>(p, sb).
       if \<not> is_dir sb then throw_s ENOTDIR
       else
         let up_dir = join (upper ls) path;
             lo_dir = join (lower ls) path
         in bind_s (attempt (sys_lstat up_dir)) (\<lambda>u.
            bind_s (if result_is is_dir u
                    then bind_s (is_opaque_dir up_dir) (\<lambda>opq.
                         bind_s (entries up_dir) (\<lambda>ns.
                         bind_s (scan_upper up_dir ns [] []) (\<lambda>(seen, whited).
                           return_s (opq, seen, whited))))
                    else return_s (False, [], [])) (\<lambda>(opq, seen, whited).
            bind_s (if opq then return_s [] else entries lo_dir) (\<lambda>ns.
              return_s ([''.'', ''..''] @ seen @ scan_lower seen whited ns)))))"

section \<open>Making and removing\<close>

definition op_mkdir :: "layers \<Rightarrow> path \<Rightarrow> nat \<Rightarrow> unit op" where
  "op_mkdir ls path mode =
     bind_s (ensure_upper_parents ls path) (\<lambda>_.
     bind_s (clear_whiteout ls path) (\<lambda>_.
     bind_s (sys_mkdir (join (upper ls) path) (perm_bits mode)) (\<lambda>_.
     bind_s (attempt (sys_lstat (join (lower ls) path))) (\<lambda>r.
       if result_is is_dir r
       then ignoring (touch (under (join (upper ls) path) OPAQUE_MARKER))
       else return_s ()))))"

text \<open>The last steps of removals: a whiteout where the lower layer has an entry.\<close>

definition hide_lower :: "layers \<Rightarrow> path \<Rightarrow> unit op" where
  "hide_lower ls path =
     bind_s (attempt (sys_lstat (join (lower ls) path))) (\<lambda>r.
       if succeeded r
       then bind_s (ensure_upper_parents ls path) (\<lambda>_. place_whiteout ls path)
       else return_s ())"

definition op_unlink :: "layers \<Rightarrow> path \<Rightarrow> unit op" where
  "op_unlink ls path =
     bind_s (resolved_or_enoent ls path) (\<lambda>(p, sb).
       if is_dir sb then throw_s EISDIR
       else
         bind_s (attempt (sys_lstat (join (upper ls) path))) (\<lambda>r.
         bind_s (if succeeded r then sys_unlink (join (upper ls) path) else return_s ()) (\<lambda>_.
           hide_lower ls path)))"

text \<open>Removing what an upper directory still holds: the markers, one by one.\<close>

fun purge :: "path \<Rightarrow> string list \<Rightarrow> unit op" where
  "purge dir [] = return_s ()"
| "purge dir (nm # ns) =
     (if is_dot nm then purge dir ns
      else bind_s (ignoring (sys_unlink (under dir nm))) (\<lambda>_. purge dir ns))"

definition listing_or_nil :: "nat + string list \<Rightarrow> string list" where
  "listing_or_nil r = (case r of Inl _ \<Rightarrow> [] | Inr ns \<Rightarrow> ns)"

definition op_rmdir :: "layers \<Rightarrow> path \<Rightarrow> unit op" where
  "op_rmdir ls path =
     bind_s (resolved_or_enoent ls path) (\<lambda>(p, sb).
       if \<not> is_dir sb then throw_s ENOTDIR
       else
         bind_s (attempt (op_readdir ls path)) (\<lambda>names.
           if \<exists>nm \<in> set (listing_or_nil names). \<not> is_dot nm then throw_s ENOTEMPTY
           else
             let up = join (upper ls) path
             in bind_s (attempt (sys_lstat up)) (\<lambda>r.
                bind_s (if succeeded r
                        then bind_s (entries up) (\<lambda>ns. bind_s (purge up ns) (\<lambda>_. sys_rmdir up))
                        else return_s ()) (\<lambda>_.
                  hide_lower ls path))))"

definition op_symlink :: "layers \<Rightarrow> string \<Rightarrow> path \<Rightarrow> unit op" where
  "op_symlink ls target path =
     bind_s (ensure_upper_parents ls path) (\<lambda>_.
     bind_s (clear_whiteout ls path) (\<lambda>_.
       sys_symlink target (join (upper ls) path)))"

definition op_rename :: "layers \<Rightarrow> path \<Rightarrow> path \<Rightarrow> unit op" where
  "op_rename ls src dst =
     bind_s (resolve ls src) (\<lambda>rf.
       if visible rf = None then throw_s ENOENT
       else
         bind_s (case rf of kLower _ _ \<Rightarrow> copy_up ls src | _ \<Rightarrow> return_s ()) (\<lambda>_.
         bind_s (ensure_upper_parents ls dst) (\<lambda>_.
         bind_s (clear_whiteout ls dst) (\<lambda>_.
           let up_from = join (upper ls) src;
               up_to = join (upper ls) dst
           in bind_s (attempt (sys_lstat up_to)) (\<lambda>r.
              bind_s (if result_is is_dir r then ignoring (sys_rmdir up_to) else return_s ()) (\<lambda>_.
              bind_s (sys_rename up_from up_to) (\<lambda>_.
                hide_lower ls src)))))))"

definition op_link :: "layers \<Rightarrow> path \<Rightarrow> path \<Rightarrow> unit op" where
  "op_link ls src dst =
     bind_s (copy_up ls src) (\<lambda>_.
     bind_s (ensure_upper_parents ls dst) (\<lambda>_.
     bind_s (clear_whiteout ls dst) (\<lambda>_.
       sys_link (join (upper ls) src) (join (upper ls) dst))))"

section \<open>Changing\<close>

definition op_chmod :: "layers \<Rightarrow> path \<Rightarrow> nat \<Rightarrow> unit op" where
  "op_chmod ls path mode =
     bind_s (copy_up ls path) (\<lambda>_. sys_chmod (join (upper ls) path) (perm_bits mode))"

definition op_chown :: "layers \<Rightarrow> path \<Rightarrow> nat \<Rightarrow> nat \<Rightarrow> unit op" where
  "op_chown ls path uid gid =
     bind_s (copy_up ls path) (\<lambda>_. sys_lchown (join (upper ls) path) uid gid)"

definition op_truncate :: "layers \<Rightarrow> path \<Rightarrow> int \<Rightarrow> unit op" where
  "op_truncate ls path n =
     bind_s (copy_up ls path) (\<lambda>_. sys_truncate (join (upper ls) path) n)"

definition op_ftruncate :: "layers \<Rightarrow> path \<Rightarrow> int \<Rightarrow> nat \<Rightarrow> unit op" where
  "op_ftruncate ls path n fh = (if fh \<noteq> 0 then sys_ftruncate fh n else op_truncate ls path n)"

text \<open>
  A \<open>timespec\<close> (seconds, nanoseconds) becomes a \<open>timeval\<close> (seconds, microseconds).  The division of C
  rounds towards 0; the nanoseconds may be negative, as \<open>UTIME_NOW\<close> and \<open>UTIME_OMIT\<close> are.
\<close>

definition timeval :: "int \<times> int \<Rightarrow> int \<times> int" where
  "timeval t = (fst t, snd t sdiv 1000)"

definition op_utimens :: "layers \<Rightarrow> path \<Rightarrow> int \<times> int \<Rightarrow> int \<times> int \<Rightarrow> unit op" where
  "op_utimens ls path atime mtime =
     bind_s (copy_up ls path) (\<lambda>_.
       sys_utimes (join (upper ls) path) (timeval atime) (timeval mtime))"

definition op_setxattr :: "layers \<Rightarrow> path \<Rightarrow> string \<Rightarrow> string \<Rightarrow> flags \<Rightarrow> nat \<Rightarrow> unit op" where
  "op_setxattr ls path name v flags pos =
     bind_s (copy_up ls path) (\<lambda>_.
       sys_setxattr (join (upper ls) path) name v pos (flags OR XATTR_NOFOLLOW))"

definition op_getxattr :: "layers \<Rightarrow> path \<Rightarrow> string \<Rightarrow> nat \<Rightarrow> string op" where
  "op_getxattr ls path name n =
     bind_s (resolved_or_enoent ls path) (\<lambda>(p, sb). sys_getxattr p name n XATTR_NOFOLLOW)"

definition op_listxattr :: "layers \<Rightarrow> path \<Rightarrow> nat \<Rightarrow> string list op" where
  "op_listxattr ls path n =
     bind_s (resolved_or_enoent ls path) (\<lambda>(p, sb). sys_listxattr p n XATTR_NOFOLLOW)"

definition op_removexattr :: "layers \<Rightarrow> path \<Rightarrow> string \<Rightarrow> unit op" where
  "op_removexattr ls path name =
     bind_s (copy_up ls path) (\<lambda>_.
       sys_removexattr (join (upper ls) path) name XATTR_NOFOLLOW)"

section \<open>Open files\<close>

definition wants_write :: "flags \<Rightarrow> bool" where
  "wants_write flags \<longleftrightarrow> has_flag flags (O_WRONLY OR O_RDWR OR O_TRUNC OR O_APPEND)"

definition op_open :: "layers \<Rightarrow> path \<Rightarrow> flags \<Rightarrow> nat op" where
  "op_open ls path flags =
     (if wants_write flags
      then bind_s (copy_up ls path) (\<lambda>_.
             sys_open (join (upper ls) path) (flags AND NOT O_NOFOLLOW) 0)
      else bind_s (resolved_or_enoent ls path) (\<lambda>(p, sb). sys_open p flags 0))"

definition op_create :: "layers \<Rightarrow> path \<Rightarrow> nat \<Rightarrow> flags \<Rightarrow> nat op" where
  "op_create ls path mode flags =
     bind_s (ensure_upper_parents ls path) (\<lambda>_.
     bind_s (clear_whiteout ls path) (\<lambda>_.
       sys_open (join (upper ls) path) (flags OR O_CREAT) (perm_bits mode)))"

definition op_read :: "nat \<Rightarrow> nat \<Rightarrow> nat \<Rightarrow> string op" where
  "op_read n off fh = (if fh = 0 then throw_s EBADF else sys_pread fh n off)"

definition op_write :: "string \<Rightarrow> nat \<Rightarrow> nat \<Rightarrow> nat op" where
  "op_write d off fh = (if fh = 0 then throw_s EBADF else sys_pwrite fh d off)"

definition op_release :: "nat \<Rightarrow> unit op" where
  "op_release fh = (if fh \<noteq> 0 then ignoring (sys_close fh) else return_s ())"

definition op_flush :: "nat \<Rightarrow> unit op" where
  "op_flush fh =
     (if fh \<noteq> 0 then bind_s (sys_dup fh) (\<lambda>d. ignoring (sys_close d)) else return_s ())"

definition op_fsync :: "bool \<Rightarrow> nat \<Rightarrow> unit op" where
  "op_fsync datasync fh =
     (if fh = 0 then throw_s EBADF
      else if datasync then sys_fullfsync fh else sys_fsync fh)"

text \<open>The file system of what is visible, of the upper layer otherwise.\<close>

definition op_statfs :: "layers \<Rightarrow> path \<Rightarrow> loc op" where
  "op_statfs ls path =
     bind_s (resolve ls path) (\<lambda>r.
       sys_statvfs (case visible r of None \<Rightarrow> upper ls | Some (p, sb) \<Rightarrow> p))"

section \<open>The table of operations\<close>

text \<open>
  A request of the FUSE library, one constructor per entry of the table that \<open>main\<close> fills, and
  the value of its reply.
\<close>

datatype request =
    Getattr path | Fgetattr path nat | Access path nat | Readlink path nat | Readdir path
  | Mkdir path nat | Symlink string path | Unlink path | Rmdir path | Rename path path | Link path path
  | Chmod path nat | Chown path nat nat | Truncate path int | Ftruncate path int nat
  | Utimens path "int \<times> int" "int \<times> int" | Open path flags | Create path nat flags
  | Read nat nat nat | Write string nat nat | Release nat | Flush nat | Fsync bool nat | Statfs path
  | Setxattr path string string flags nat | Getxattr path string nat | Listxattr path nat
  | Removexattr path string

datatype reply = Done | Attributes inode | Text string | Names "string list" | Number nat | Place loc

definition replies :: "('a \<Rightarrow> reply) \<Rightarrow> 'a op \<Rightarrow> reply op" where
  "replies f m = bind_s m (\<lambda>a. return_s (f a))"

abbreviation finish :: "unit op \<Rightarrow> reply op" where
  "finish m \<equiv> replies (\<lambda>_. Done) m"

fun serve :: "layers \<Rightarrow> request \<Rightarrow> reply op" where
  "serve ls (Getattr p) = replies Attributes (op_getattr ls p)"
| "serve ls (Fgetattr p fh) = replies Attributes (op_fgetattr ls p fh)"
| "serve ls (Access p m) = finish (op_access ls p m)"
| "serve ls (Readlink p n) = replies Text (op_readlink ls p n)"
| "serve ls (Readdir p) = replies Names (op_readdir ls p)"
| "serve ls (Mkdir p m) = finish (op_mkdir ls p m)"
| "serve ls (Symlink t p) = finish (op_symlink ls t p)"
| "serve ls (Unlink p) = finish (op_unlink ls p)"
| "serve ls (Rmdir p) = finish (op_rmdir ls p)"
| "serve ls (Rename p q) = finish (op_rename ls p q)"
| "serve ls (Link p q) = finish (op_link ls p q)"
| "serve ls (Chmod p m) = finish (op_chmod ls p m)"
| "serve ls (Chown p u g) = finish (op_chown ls p u g)"
| "serve ls (Truncate p n) = finish (op_truncate ls p n)"
| "serve ls (Ftruncate p n fh) = finish (op_ftruncate ls p n fh)"
| "serve ls (Utimens p t t') = finish (op_utimens ls p t t')"
| "serve ls (Open p f) = replies Number (op_open ls p f)"
| "serve ls (Create p m f) = replies Number (op_create ls p m f)"
| "serve ls (Read n off fh) = replies Text (op_read n off fh)"
| "serve ls (Write d off fh) = replies Number (op_write d off fh)"
| "serve ls (Release fh) = finish (op_release fh)"
| "serve ls (Flush fh) = finish (op_flush fh)"
| "serve ls (Fsync b fh) = finish (op_fsync b fh)"
| "serve ls (Statfs p) = replies Place (op_statfs ls p)"
| "serve ls (Setxattr p a v f n) = finish (op_setxattr ls p a v f n)"
| "serve ls (Getxattr p a n) = replies Text (op_getxattr ls p a n)"
| "serve ls (Listxattr p n) = replies Names (op_listxattr ls p n)"
| "serve ls (Removexattr p a) = finish (op_removexattr ls p a)"

end
