(* ===== verification/Fuse_Paths.thy ===== *)
theory Fuse_Paths
  imports Upper_Guard Overlay_Ops
begin

text \<open>
  The paths that FUSE hands to the operations, as lists of names: how \<open>join\<close>, \<open>split\<close> and the
  loops of \<open>src/overlay.cc\<close> cut them, and where they lead in the two layers.
\<close>

section \<open>Names\<close>

definition fuse_names :: "string list \<Rightarrow> bool" where
  "fuse_names ns \<longleftrightarrow> plain_names ns \<and> (\<forall>n \<in> set ns. n \<noteq> [] \<and> SLASH \<notin> set n)"

lemma fuse_names_Cons [simp]:
  "fuse_names (n # ns) \<longleftrightarrow>
     n \<noteq> ''.'' \<and> n \<noteq> ''..'' \<and> n \<noteq> [] \<and> SLASH \<notin> set n \<and> fuse_names ns"
  by (auto simp: fuse_names_def plain_names_def)

lemma fuse_names_Nil [simp]: "fuse_names []"
  by (simp add: fuse_names_def plain_names_def)

lemma fuse_names_append [simp]: "fuse_names (a @ b) \<longleftrightarrow> fuse_names a \<and> fuse_names b"
  by (auto simp: fuse_names_def plain_names_def)

lemma fuse_names_plain: "fuse_names ns \<Longrightarrow> plain_names ns"
  by (simp add: fuse_names_def)

lemma plain_names_append [simp]: "plain_names (a @ b) \<longleftrightarrow> plain_names a \<and> plain_names b"
  by (auto simp: plain_names_def)

lemma path_names_under: "n \<noteq> [] \<Longrightarrow> SLASH \<notin> set n \<Longrightarrow> path_names (under d n) = path_names d @ [n]"
  by (simp add: under_def path_names_append path_names_single)

lemma path_names_concat:
  "fuse_names ns \<Longrightarrow> path_names (b @ concat (map ((#) SLASH) ns)) = path_names b @ ns"
proof (induction ns arbitrary: b)
  case (Cons n ns)
  then have "path_names ((b @ SLASH # n) @ concat (map ((#) SLASH) ns)) = path_names (b @ SLASH # n) @ ns"
    by (intro Cons.IH) simp
  with Cons.prems show ?case by (simp add: path_names_append path_names_single)
qed simp

lemma path_names_show_loc: "fuse_names ns \<Longrightarrow> path_names (show_loc ns) = ns"
  using path_names_concat [of ns "[]"] by (simp add: show_loc_def)

lemma path_names_join: "fuse_names ns \<Longrightarrow> path_names (join b (show_loc ns)) = path_names b @ ns"
  using path_names_concat [of ns b] by (cases ns) (auto simp: join_def show_loc_def)

text \<open>The loops: the first name, and what is left of the path.\<close>

lemma tl_show_loc:
  assumes "fuse_names (n # ns)"
  shows "before_char SLASH (tl (show_loc (n # ns))) = n"
    and "SLASH \<in> set (tl (show_loc (n # ns))) \<longleftrightarrow> ns \<noteq> []"
    and "ns \<noteq> [] \<Longrightarrow> after_char SLASH (tl (show_loc (n # ns))) = tl (show_loc ns)"
  using assms by (cases ns; auto simp: show_loc_def)+

lemma tl_show_loc_Nil [simp]: "tl (show_loc []) = []"
  by (simp add: show_loc_def)

lemma split_root [simp]: "split (show_loc []) = ([], [])"
  by (simp add: split_def show_loc_def)

lemma split_show_loc:
  assumes "fuse_names (ns @ [n])"
  shows "split (show_loc (ns @ [n])) = (show_loc ns, n)"
proof -
  have n: "n \<noteq> []" "SLASH \<notin> set n" using assms by simp_all
  define p where "p = concat (map ((#) SLASH) ns)"
  have path: "show_loc (ns @ [n]) = p @ SLASH # n" by (simp add: show_loc_def p_def)
  have "takeWhile (\<lambda>c. c \<noteq> SLASH) (rev n @ SLASH # rev p) = rev n"
    using n(2) by (simp add: takeWhile_append)
  moreover have "p @ SLASH # n \<noteq> ''/''" using n(1) by (cases p) auto
  moreover have "p = [] \<longleftrightarrow> ns = []" by (simp add: p_def)
  ultimately show ?thesis
    by (auto simp: split_def path Let_def show_loc_def [of ns] p_def)
qed

lemma path_names_upper_leaf:
  "fuse_names ns \<Longrightarrow> path_names (upper_leaf ls (show_loc ns)) = path_names (upper ls) @ ns"
proof (cases ns rule: rev_cases)
  case Nil
  then show ?thesis by (simp add: upper_leaf_def join_def under_def path_names_snoc_slash)
next
  case (snoc ms m)
  assume "fuse_names ns"
  with snoc show ?thesis
    by (simp add: upper_leaf_def split_show_loc path_names_under path_names_join)
qed

definition sidecar_loc :: "loc \<Rightarrow> string list \<Rightarrow> loc" where
  "sidecar_loc U ns = (if ns = [] then U @ [WH_PREFIX] else U @ butlast ns @ [WH_PREFIX @ last ns])"

lemma path_names_sidecar:
  "fuse_names ns \<Longrightarrow> path_names (sidecar ls (show_loc ns)) = sidecar_loc (path_names (upper ls)) ns"
proof (cases ns rule: rev_cases)
  case Nil
  then show ?thesis by (simp add: sidecar_def join_def path_names_under WH_PREFIX_def sidecar_loc_def)
next
  case (snoc ms m)
  assume "fuse_names ns"
  with snoc show ?thesis
    by (simp add: sidecar_def split_show_loc path_names_under path_names_join sidecar_loc_def
        WH_PREFIX_def)
qed

text \<open>The temporary file of a copy is a sibling of the destination.\<close>

lemma show_nat_digit: "SLASH \<notin> set (show_nat n)"
proof (induction n rule: show_nat.induct)
  case (1 n)
  have "char_of (48 + d) \<noteq> SLASH" if "d < 10" for d :: nat
  proof
    assume "char_of (48 + d) = SLASH"
    then have "of_char (char_of (48 + d) :: char) = (of_char SLASH :: nat)" by simp
    with that show False by simp
  qed
  from this [of n] this [of "n mod 10"] 1 show ?case
    by (subst show_nat.simps) (simp split: if_split, metis)
qed

lemma path_names_extend:
  assumes "n \<noteq> []" "SLASH \<notin> set n" "SLASH \<notin> set s"
  shows "path_names (b @ SLASH # n @ s) = path_names b @ [n @ s]"
  using assms by (simp add: path_names_append path_names_single)

lemma path_names_tmp:
  assumes "fuse_names (ns @ [n])"
  shows "\<exists>t. path_names (tmp_name ls (join b (show_loc (ns @ [n]))) i) = path_names b @ ns @ [t] \<and>
    t \<noteq> ''.'' \<and> t \<noteq> ''..''"
proof -
  define s where "s = ''.jaim-cu.'' @ show_nat (pid ls) @ ''.'' @ show_nat i"
  have s: "SLASH \<notin> set s" "length s > 2" by (simp_all add: s_def show_nat_digit)
  have "hd (show_loc (ns @ [n])) = SLASH" "show_loc (ns @ [n]) \<noteq> []" "show_loc (ns @ [n]) \<noteq> ''/''"
    using assms by (cases ns; auto simp: show_loc_def)+
  then have "join b (show_loc (ns @ [n])) = (b @ concat (map ((#) SLASH) ns)) @ SLASH # n"
    unfolding join_def by (simp add: show_loc_def)
  then have "tmp_name ls (join b (show_loc (ns @ [n]))) i =
      (b @ concat (map ((#) SLASH) ns)) @ SLASH # n @ s"
    by (simp add: tmp_name_def s_def)
  moreover have "length (n @ s) > 2" using s(2) by simp
  then have "n @ s \<noteq> ''.''" "n @ s \<noteq> ''..''" by (metis One_nat_def list.size(3,4) add_0 not_less_iff_gr_or_eq numeral_2_eq_2 plus_1_eq_Suc less_Suc_eq)+
  ultimately show ?thesis
    using assms s(1) path_names_extend [of n s "b @ concat (map ((#) SLASH) ns)"]
      path_names_concat [of ns b] by auto
qed

end
