(* ===== verification/Confinement.thy ===== *)
theory Confinement
  imports Fuse_Paths
begin

text \<open>
  The operations of the overlay change nothing outside the upper directory: each keeps the
  invariant of \<open>Upper_Guard\<close> when no ancestor of its paths is a symbolic link and no name of them
  is that of a marker.
\<close>

section \<open>Requests\<close>

text \<open>The locations of markers; their names start with \<open>.wh.\<close>.\<close>

definition markers :: "loc \<Rightarrow> loc set" where
  "markers U = {l. strict_prefix U l \<and> prefix WH_PREFIX (last l)}"

definition base :: "loc \<Rightarrow> loc \<Rightarrow> loc set" where
  "base U L = {q. prefix q U} \<union> {q. prefix q L} \<union> markers U"

definition layers_ok :: "layers \<Rightarrow> loc \<Rightarrow> loc \<Rightarrow> bool" where
  "layers_ok ls U L \<longleftrightarrow>
     path_names (upper ls) = U \<and> path_names (lower ls) = L \<and>
     plain_names U \<and> plain_names L \<and> \<not> prefix U L"

definition unmarked :: "string list \<Rightarrow> bool" where
  "unmarked ns \<longleftrightarrow> fuse_names ns \<and> (\<forall>n \<in> set ns. \<not> prefix WH_PREFIX n)"

definition covers :: "loc \<Rightarrow> loc \<Rightarrow> loc set \<Rightarrow> string list \<Rightarrow> bool" where
  "covers U L A ns \<longleftrightarrow> unmarked ns \<and> base U L \<subseteq> A \<and> ancestors (U @ ns) \<subseteq> A"

lemma coversD:
  assumes "covers U L A ns"
  shows "fuse_names ns" and "unmarked ns" and "base U L \<subseteq> A" and "ancestors (U @ ns) \<subseteq> A"
  using assms by (auto simp: covers_def unmarked_def)

lemma ancestors_snoc: "ancestors (l @ [x]) = insert l (ancestors l)"
  by (auto simp: ancestors_def strict_prefix_def)

lemma ancestors_mono: "prefix l m \<Longrightarrow> ancestors l \<subseteq> ancestors m"
  by (auto simp: ancestors_def intro: prefix_order.less_le_trans)

lemma prefix_ancestors: "prefix q l \<Longrightarrow> q = l \<or> q \<in> ancestors l"
  by (auto simp: ancestors_def strict_prefix_def)

lemma covers_upper: "covers U L A ns \<Longrightarrow> U \<in> A"
  by (auto simp: covers_def base_def)

lemma inside_upper:
  assumes "layers_ok ls U L" and "covers U L A ns" and "path_names p = U @ ns'" and "prefix ns' ns"
  shows "inside U A p"
proof -
  have "plain_names ns'"
    using assms(4) coversD(1) [OF assms(2)] by (auto simp: prefix_def dest: fuse_names_plain)
  moreover have "ancestors (U @ ns') \<subseteq> A"
    using ancestors_mono [of "U @ ns'" "U @ ns"] assms(4) coversD(4) [OF assms(2)] by auto
  ultimately show ?thesis using assms(1,3) by (simp add: inside_def layers_ok_def)
qed

text \<open>The paths of an operation.\<close>

lemma inside_join:
  assumes "layers_ok ls U L" and "covers U L A ns"
  shows "inside U A (join (upper ls) (show_loc ns))"
  using inside_upper [OF assms, of _ ns] coversD(1) [OF assms(2)] assms(1)
  by (simp add: path_names_join layers_ok_def)

lemma inside_leaf:
  assumes "layers_ok ls U L" and "covers U L A ns"
  shows "inside U A (upper_leaf ls (show_loc ns))"
  using inside_upper [OF assms, of _ ns] coversD(1) [OF assms(2)] assms(1)
  by (simp add: path_names_upper_leaf layers_ok_def)

lemma sidecar_marker: "sidecar_loc U ns \<in> markers U"
  by (simp add: sidecar_loc_def markers_def strict_prefix_def)

lemma inside_sidecar:
  assumes "layers_ok ls U L" and c: "covers U L A ns"
  shows "inside U A (sidecar ls (show_loc ns))" and "path_names (sidecar ls (show_loc ns)) \<in> A"
proof -
  have U: "path_names (upper ls) = U" "plain_names U" using assms(1) by (simp_all add: layers_ok_def)
  note p = path_names_sidecar [OF coversD(1) [OF c], of ls, unfolded U(1)]
  show "path_names (sidecar ls (show_loc ns)) \<in> A"
    using sidecar_marker [of U ns] coversD(3) [OF c] by (auto simp: p base_def)
  have "ancestors (sidecar_loc U ns) \<subseteq> A"
    using coversD(4) [OF c] covers_upper [OF c]
    by (cases ns rule: rev_cases)
      (simp_all add: sidecar_loc_def ancestors_snoc flip: append_assoc)
  moreover have "plain_names (sidecar_loc U ns)"
    using U(2) fuse_names_plain [OF coversD(1) [OF c]]
    by (cases ns rule: rev_cases) (auto simp: sidecar_loc_def plain_names_def WH_PREFIX_def)
  ultimately show "inside U A (sidecar ls (show_loc ns))"
    by (simp add: inside_def p) (simp add: sidecar_loc_def)
qed

section \<open>Resolution reads only\<close>

lemma reads_only_opaque [intro!, simp]: "reads_only (is_opaque_dir d)"
  by (auto simp: is_opaque_dir_def)

lemma reads_only_resolve_from [intro!, simp]: "reads_only (resolve_from ls opq up lo p)"
proof (induction "length p" arbitrary: opq up lo p rule: less_induct)
  case less
  have "reads_only (resolve_from ls opq' up' lo' (after_char SLASH p))" if "SLASH \<in> set p" for opq' up' lo'
    using that by (intro less) simp
  then show ?case
    unfolding resolve_from.simps [of ls opq up lo p] Let_def resolve_end_def
    by (auto intro!: reads_only_bind reads_only_attempt split: sum.split)
qed

lemma reads_only_resolve [intro!, simp]: "reads_only (resolve ls path)"
  by (auto simp: resolve_def intro!: reads_only_bind reads_only_attempt split: sum.split)

lemma reads_only_visible [intro!, simp]: "reads_only (resolved_or_enoent ls path)"
  by (auto simp: resolved_or_enoent_def intro!: reads_only_bind split: option.split)

lemma reads_only_entries [intro!, simp]: "reads_only (entries d)"
  by (auto simp: entries_def intro!: reads_only_bind reads_only_attempt)

lemma reads_only_scan [intro!, simp]: "reads_only (scan_upper d ns seen whited)"
  by (induction d ns seen whited rule: scan_upper.induct)
    (auto intro!: reads_only_bind reads_only_attempt)

lemma reads_only_readdir [intro!, simp]: "reads_only (op_readdir ls path)"
  unfolding op_readdir_def Let_def
  by (auto intro!: reads_only_bind reads_only_attempt split: prod.split)

lemmas keeps_reads =
  reads_only_calls [THEN reads_only_keeps] reads_only_pread [THEN reads_only_keeps]
  reads_only_resolve [THEN reads_only_keeps] reads_only_visible [THEN reads_only_keeps]
  reads_only_entries [THEN reads_only_keeps] reads_only_readdir [THEN reads_only_keeps]

section \<open>Helpers that write\<close>

lemma keeps_ignoring: "keeps I m \<Longrightarrow> keeps I (ignoring m)"
  by (auto simp: ignoring_def)

lemma keeps_ensure_from:
  "path_names up = u \<Longrightarrow> prefix U u \<Longrightarrow> plain_names u \<Longrightarrow> fuse_names ns \<Longrightarrow> ancestors (u @ ns) \<subseteq> A \<Longrightarrow>
   keeps (guarded U V A) (ensure_from up lo (tl (show_loc ns)))"
proof (induction ns arbitrary: up lo u)
  case Nil
  then show ?case by (simp add: ensure_from.simps)
next
  case (Cons n ns)
  note p = tl_show_loc [OF Cons.prems(4)]
  show ?case
  proof (cases "ns = []")
    case True
    with p show ?thesis by (simp add: ensure_from.simps)
  next
    case False
    have up: "path_names (under up n) = u @ [n]" using Cons.prems(1,4) by (simp add: path_names_under)
    have u: "prefix U (u @ [n])" "plain_names (u @ [n])" "ancestors ((u @ [n]) @ ns) \<subseteq> A"
      using Cons.prems(2-5) by (auto simp: plain_names_def)
    have ins: "inside U A (under up n)"
      using u ancestors_mono [of "u @ [n]" "u @ n # ns"] by (auto simp: inside_def up)
    have ih: "keeps (guarded U V A) (ensure_from (under up n) lo' (tl (show_loc ns)))" for lo'
      using Cons.IH [OF up u(1,2) _ u(3)] Cons.prems(4) by simp
    show ?thesis
      unfolding ensure_from.simps [of up lo "tl (show_loc (n # ns))"] Let_def p
      using False
      by (auto simp: p(3) ih intro!: keeps_bind keeps_attempt keeps_mkdir [OF ins] keeps_reads
          split: sum.split)
  qed
qed

lemma keeps_ensure:
  assumes "layers_ok ls U L" and "covers U L A ns"
  shows "keeps (guarded U V A) (ensure_upper_parents ls (show_loc ns))"
  unfolding ensure_upper_parents_def
  using assms by (intro keeps_ensure_from [where u = U]) (simp_all add: layers_ok_def covers_def unmarked_def)

lemma keeps_unlink_if_present: "inside U A p \<Longrightarrow> keeps (guarded U V A) (unlink_if_present p)"
  unfolding unlink_if_present_def by (auto intro!: keeps_bind keeps_unlink split: sum.split)

lemma keeps_clear:
  assumes "layers_ok ls U L" and "covers U L A ns"
  shows "keeps (guarded U V A) (clear_whiteout ls (show_loc ns))"
  unfolding clear_whiteout_def
  using inside_leaf [OF assms] inside_sidecar [OF assms]
  by (auto intro!: keeps_bind keeps_attempt keeps_reads keeps_unlink_if_present)

lemma keeps_touch: "inside U A p \<Longrightarrow> path_names p \<in> A \<Longrightarrow> keeps (guarded U V A) (touch p)"
  unfolding touch_def by (auto intro!: keeps_bind keeps_open keeps_close)

lemma guarded_flag [simp]: "guarded U V A (can_mknod_whiteout_update f k) = guarded U V A k"
  by (simp add: guarded_def wf_kernel_def placeable_def no_links_def kind_at_def is_dir_at_def
      node_def outside_def entry_def fun_eq_iff)

lemma keeps_flag: "keeps (guarded U V A) (update_s (can_mknod_whiteout_update f))"
  by (rule keeps_update) simp

lemma keeps_place:
  assumes "layers_ok ls U L" and "covers U L A ns"
  shows "keeps (guarded U V A) (place_whiteout ls (show_loc ns))"
  unfolding place_whiteout_def remove_leaf_def
  using inside_leaf [OF assms] inside_sidecar [OF assms]
  by (auto intro!: keeps_bind keeps_attempt keeps_reads keeps_unlink keeps_rmdir keeps_touch
      keeps_mknod keeps_flag keeps_get split: sum.split simp del: bind_get)

lemma keeps_hide:
  assumes "layers_ok ls U L" and "covers U L A ns"
  shows "keeps (guarded U V A) (hide_lower ls (show_loc ns))"
  unfolding hide_lower_def
  by (auto intro!: keeps_bind keeps_attempt keeps_reads keeps_ensure keeps_place assms)

section \<open>Copy-up\<close>

lemma keeps_write_all: "keeps (guarded U V A) (write_all dfd d off)"
proof (rule keepsI)
  fix k
  show "guarded U V A k \<Longrightarrow> guarded U V A (snd (write_all dfd d off k))"
  proof (induction dfd d off k rule: write_all.induct)
    case (1 dfd d off k)
    obtain q k1 where q: "sys_pwrite dfd d off k = (q, k1)" by fastforce
    have g: "guarded U V A k1" using keepsD [OF keeps_pwrite 1(3), of dfd d off] by (simp add: q)
    show ?case
    proof (cases "d = []")
      case True
      with 1(3) show ?thesis by (simp add: write_all.simps)
    next
      case False
      with 1(1) [OF False q [symmetric]] 1(2) [OF False q [symmetric]] q g show ?thesis
        by (cases q) (simp_all add: write_all.simps [of dfd d off k])
    qed
  qed
qed

lemma keeps_copy_loop: "keeps (guarded U V A) (copy_loop sfd dfd off)"
proof (rule keepsI)
  fix k
  show "guarded U V A k \<Longrightarrow> guarded U V A (snd (copy_loop sfd dfd off k))"
  proof (induction sfd dfd off k rule: copy_loop.induct)
    case (1 sfd dfd off k)
    obtain q k1 where q: "sys_pread sfd BUF off k = (q, k1)" by fastforce
    have g: "guarded U V A k1"
      using keepsD [OF reads_only_keeps [OF reads_only_pread] 1(3), of sfd BUF off] by (simp add: q)
    show ?case
    proof (cases q)
      case (Inl e)
      with 1(1) [OF q [symmetric] Inl] q g show ?thesis by (simp add: copy_loop.simps [of sfd dfd off k])
    next
      case (Inr s)
      obtain r k2 where r: "write_all dfd s off k1 = (r, k2)" by fastforce
      have g2: "guarded U V A k2" using keepsD [OF keeps_write_all g, of dfd s off] by (simp add: r)
      show ?thesis
        using 1(2) [OF q [symmetric] Inr _ r [symmetric]] g g2 q r Inr
        by (cases r) (simp_all add: copy_loop.simps [of sfd dfd off k])
    qed
  qed
qed

lemma keeps_discard: "inside U A tmp \<Longrightarrow> keeps (guarded U V A) (discard opened tmp e)"
  unfolding discard_def
  by (induction opened) (auto intro!: keeps_bind keeps_ignoring keeps_close keeps_unlink)

lemma keeps_close_and_fail: "keeps (guarded U V A) (close_and_fail fd e)"
  unfolding close_and_fail_def by (auto intro!: keeps_bind keeps_attempt keeps_close)

lemma inside_mono: "inside U A p \<Longrightarrow> A \<subseteq> B \<Longrightarrow> inside U B p"
  by (auto simp: inside_def)

lemma exclusive_flags:
  "has_flag (O_WRONLY OR O_CREAT OR O_EXCL OR O_NOFOLLOW) O_CREAT"
  "has_flag (O_WRONLY OR O_CREAT OR O_EXCL OR O_NOFOLLOW) O_EXCL"
  by (simp_all add: has_flag_def O_WRONLY_def O_CREAT_def O_EXCL_def O_NOFOLLOW_def)

text \<open>A fresh file: the locations at and below it are free of links.\<close>

definition fresh_file :: "loc set \<Rightarrow> path \<Rightarrow> loc set" where
  "fresh_file A tmp = A \<union> {l. prefix (path_names tmp) l}"

lemma triple_open_tmp:
  assumes ins: "\<And>i. inside U A (tmp_name ls dst i)"
  shows "triple (guarded U V A) (open_tmp ls sfd dst mode is)
           (\<lambda>(tmp, dfd) k. inside U A tmp \<and> guarded U V (fresh_file A tmp) k) (guarded U V A)"
proof (induction "is")
  case Nil
  show ?case
    unfolding open_tmp.simps
    by (rule triple_bind [OF keeps_ignoring [OF keeps_close, unfolded keeps_iff_triple]])
      (rule triple_throw)
next
  case (Cons i "is")
  let ?P = "\<lambda>r k. case r of Inl e \<Rightarrow> guarded U V A k
      | Inr (dfd :: nat) \<Rightarrow> guarded U V (fresh_file A (tmp_name ls dst i)) k"
  have op: "triple (guarded U V A)
      (attempt (sys_open (tmp_name ls dst i) (O_WRONLY OR O_CREAT OR O_EXCL OR O_NOFOLLOW) mode)) ?P (guarded U V A)"
    unfolding fresh_file_def by (rule triple_attempt [OF open_exclusive [OF ins exclusive_flags]])
  show ?case
    unfolding open_tmp.simps
  proof (rule triple_bind [OF op])
    fix r :: "nat + nat"
    have fail: "triple (guarded U V A) (close_and_fail sfd e :: (path \<times> nat) op) Q (guarded U V A)" for e Q
      unfolding close_and_fail_def
      by (rule triple_bind [OF keeps_attempt [OF keeps_close, unfolded keeps_iff_triple]])
        (rule triple_throw)
    show "triple (?P r)
        (case r of Inr dfd \<Rightarrow> return_s (tmp_name ls dst i, dfd)
         | Inl e \<Rightarrow> if e \<noteq> EEXIST then close_and_fail sfd e else open_tmp ls sfd dst mode is)
        (\<lambda>(tmp, dfd) k. inside U A tmp \<and> guarded U V (fresh_file A tmp) k) (guarded U V A)"
      using fail Cons ins by (cases r) (auto intro!: triple_return)
  qed
qed

lemma triple_down:
  "keeps (guarded U V B) m \<Longrightarrow> A \<subseteq> B \<Longrightarrow> triple (guarded U V B) m (\<lambda>a. guarded U V A) (guarded U V A)"
  unfolding keeps_iff_triple by (erule triple_weaken) (auto elim: guarded_antimono)

lemma keeps_copy_into:
  assumes "inside U B tmp" and "inside U B dst"
    and "\<And>l. prefix (path_names tmp) l \<Longrightarrow> l \<in> B"
  shows "keeps (guarded U V B) (copy_into tmp sfd dfd dst sb)"
  unfolding copy_into_def
  using keeps_rename [OF assms(1,2)] assms(3)
  by (auto intro!: keeps_bind keeps_attempt keeps_ignoring keeps_copy_loop keeps_calls
      keeps_discard [OF assms(1)] split: sum.split)

lemma keeps_copy_regular:
  assumes dst: "inside U A dst" and tmp: "\<And>i. inside U A (tmp_name ls dst i)"
  shows "keeps (guarded U V A) (copy_regular ls src dst sb)"
  unfolding copy_regular_def
proof (rule keeps_bind)
  have "\<not> changes (O_RDONLY OR O_NOFOLLOW)"
    by (simp add: changes_def has_flag_def writable_flags_def O_RDONLY_def O_NOFOLLOW_def O_WRONLY_def
        O_RDWR_def O_TRUNC_def O_CREAT_def)
  then show "keeps (guarded U V A) (sys_open src (O_RDONLY OR O_NOFOLLOW) 0)"
    by (rule keeps_open_reading)
  fix sfd
  have into: "triple (guarded U V (fresh_file A t)) (copy_into t sfd dfd dst sb)
      (\<lambda>_. guarded U V A) (guarded U V A)" if "inside U A t" for t dfd
  proof -
    have B: "A \<subseteq> fresh_file A t" by (auto simp: fresh_file_def)
    show ?thesis
      by (rule triple_down [OF keeps_copy_into B], rule inside_mono [OF that B],
          rule inside_mono [OF dst B]) (simp add: fresh_file_def)
  qed
  show "keeps (guarded U V A)
      (bind_s (open_tmp ls sfd dst (perm_bits (i_mode sb)) [0..<100])
        (\<lambda>(tmp, dfd). copy_into tmp sfd dfd dst sb))"
    unfolding keeps_iff_triple
  proof (rule triple_bind [OF triple_open_tmp [OF tmp]])
    fix x :: "path \<times> nat"
    obtain t dfd where x: "x = (t, dfd)" by fastforce
    show "triple ((\<lambda>(tmp, dfd) k. inside U A tmp \<and> guarded U V (fresh_file A tmp) k) x)
        ((\<lambda>(tmp, dfd). copy_into tmp sfd dfd dst sb) x) (\<lambda>_. guarded U V A) (guarded U V A)"
      using into [of t dfd] by (cases "inside U A t") (simp_all add: x triple_absurd)
  qed
qed

section \<open>What resolution tells of the lower layer\<close>

text \<open>Reading the kinds \<open>K\<close> of the locations, \<open>m\<close> leaves them alone and returns what satisfies \<open>P\<close>.\<close>

definition yields :: "(loc \<Rightarrow> fkind option) \<Rightarrow> ('z, 'a) sys \<Rightarrow> ('a \<Rightarrow> bool) \<Rightarrow> bool" where
  "yields K m P \<longleftrightarrow> triple (\<lambda>k. kind_at k = K) m (\<lambda>a k. kind_at k = K \<and> P a) (\<lambda>k. kind_at k = K)"

lemma yields_return: "P a \<Longrightarrow> yields K (return_s a) P"
  unfolding yields_def by (rule triple_return) simp

lemma yields_bind:
  assumes "yields K m P" and "\<And>a. P a \<Longrightarrow> yields K (f a) Q"
  shows "yields K (bind_s m f) Q"
  unfolding yields_def
proof (rule triple_bind [OF assms(1) [unfolded yields_def]])
  fix a
  show "triple (\<lambda>k. kind_at k = K \<and> P a) (f a) (\<lambda>b k. kind_at k = K \<and> Q b) (\<lambda>k. kind_at k = K)"
    using assms(2) [of a] by (cases "P a") (simp_all add: yields_def triple_absurd)
qed

lemma yields_attempt: "yields K m P \<Longrightarrow> yields K (attempt m) (\<lambda>r. \<forall>a. r = Inr a \<longrightarrow> P a)"
proof -
  assume m: "yields K m P"
  show ?thesis
    unfolding yields_def
  proof (rule tripleI)
    fix s r t
    assume "kind_at s = K" and "attempt m s = (Inr r, t)"
    then have "m s = (r, t)" by (simp add: attempt_def split: prod.splits)
    then show "kind_at t = K \<and> (\<forall>a. r = Inr a \<longrightarrow> P a)"
      using triple_Inr [OF m [unfolded yields_def] \<open>kind_at s = K\<close>]
        triple_Inl [OF m [unfolded yields_def] \<open>kind_at s = K\<close>]
      by (cases r) blast+
  qed (simp add: attempt_def split: prod.splits)
qed

lemma yields_reads:
  assumes "reads_only m"
  shows "yields K m (\<lambda>a. True)"
  unfolding yields_def
proof (rule tripleI)
  fix s a t
  assume "kind_at s = K" "m s = (Inr a, t)"
  then show "kind_at t = K \<and> True" using assms unfolding reads_only_def by (metis kind_simps(3) snd_conv)
next
  fix s e t
  assume "kind_at s = K" "m s = (Inl e, t)"
  then show "kind_at t = K" using assms unfolding reads_only_def by (metis kind_simps(3) snd_conv)
qed

lemma yields_weaken: "yields K m P \<Longrightarrow> (\<And>a. P a \<Longrightarrow> Q a) \<Longrightarrow> yields K m Q"
  unfolding yields_def by (erule triple_weaken) auto

lemma yields_lstat:
  "yields K (sys_lstat p) (\<lambda>sb. \<exists>l. walk maxsymlinks K [] (path_names p) False = Inr l \<and> K l = Some (i_kind sb))"
  unfolding yields_def
  by (rule tripleI)
    (auto simp: sys_lstat_def at_node_def at_path_def syscall_def lookup_path_def kind_at_def node_def
      split: list.splits plan.splits sum.splits option.splits)

definition links_free :: "loc set \<Rightarrow> (loc \<Rightarrow> fkind option) \<Rightarrow> bool" where
  "links_free A K \<longleftrightarrow> (\<forall>l \<in> A. \<forall>t. K l \<noteq> Some (Lnk t))"

lemma yields_lstat_direct:
  assumes "plain_names (path_names p)" and "ancestors (path_names p) \<subseteq> A" and "links_free A K"
  shows "yields K (sys_lstat p) (\<lambda>sb. K (path_names p) = Some (i_kind sb))"
proof (rule yields_weaken [OF yields_lstat])
  fix sb
  assume "\<exists>l. walk maxsymlinks K [] (path_names p) False = Inr l \<and> K l = Some (i_kind sb)"
  moreover have "l = path_names p" if "walk maxsymlinks K [] (path_names p) False = Inr l" for l
    using walk_direct [OF assms(1), of False K "[]" maxsymlinks l] assms(2,3) that
    by (auto simp: links_free_def ancestors_def strict_prefix_def subset_iff)
  ultimately show "K (path_names p) = Some (i_kind sb)" by blast
qed

definition lower_kind :: "(loc \<Rightarrow> fkind option) \<Rightarrow> loc \<Rightarrow> resolved \<Rightarrow> bool" where
  "lower_kind K l r \<longleftrightarrow> (\<forall>q sb. r = kLower q sb \<longrightarrow> K l = Some (i_kind sb))"

lemma lower_kind_simps [simp]:
  "lower_kind K l (kUpper p sb)" "lower_kind K l kNone" "lower_kind K l kWhiteout"
  "lower_kind K l (kLower p sb) \<longleftrightarrow> K l = Some (i_kind sb)"
  by (simp_all add: lower_kind_def)

lemma yields_resolve_from:
  assumes "links_free A K"
  shows "path_names lo = l \<Longrightarrow> plain_names l \<Longrightarrow> fuse_names ns \<Longrightarrow> ancestors (l @ ns) \<subseteq> A \<Longrightarrow>
    yields K (resolve_from ls opq up lo (tl (show_loc ns))) (lower_kind K (l @ ns))"
proof (induction ns arbitrary: opq up lo l)
  case Nil
  then show ?case
    by (simp add: resolve_from.simps before_char_def resolve_end_def)
      (auto intro!: yields_bind [OF yields_attempt [OF yields_reads]] yields_return)
next
  case (Cons n ns)
  note p = tl_show_loc [OF Cons.prems(3)]
  have lo: "path_names (under lo n) = l @ [n]" using Cons.prems(1,3) by (simp add: path_names_under)
  have pl: "plain_names (path_names (under lo n))" "ancestors (path_names (under lo n)) \<subseteq> A"
    using Cons.prems(2-4) ancestors_mono [of "l @ [n]" "l @ n # ns"] by (auto simp: lo plain_names_def)
  have ih: "yields K (resolve_from ls opq' up' (under lo n) (tl (show_loc ns))) (lower_kind K (l @ n # ns))"
    for opq' up'
    using Cons.IH [OF lo _ _ _, of opq' up'] Cons.prems pl(1) by (simp add: lo)
  let ?low = "\<lambda>r :: nat + inode. \<forall>sb. r = Inr sb \<longrightarrow> K (l @ [n]) = Some (i_kind sb)"
  have low: "yields K (if opq then return_s (Inl 0) else attempt (sys_lstat (under lo n))) ?low"
    by (auto intro!: yields_return yields_attempt [OF yields_lstat_direct [OF pl assms], unfolded lo])
  have rest: "yields K (case in_upper of
                   Inr up_sb \<Rightarrow>
                     bind_s (if is_dir up_sb then is_opaque_dir (under up n) else return_s False)
                       (\<lambda>opq'.
                         if \<not> ns \<noteq> [] then return_s (kUpper (under up n) up_sb)
                         else resolve_from ls (opq \<or> opq') (under up n) (under lo n)
                                (after_char SLASH (tl (show_loc (n # ns)))))
                 | Inl _ \<Rightarrow>
                     (case in_lower of
                        Inr lo_sb \<Rightarrow>
                          if \<not> ns \<noteq> [] then return_s (kLower (under lo n) lo_sb)
                          else resolve_from ls opq (under up n) (under lo n)
                                 (after_char SLASH (tl (show_loc (n # ns))))
                      | Inl _ \<Rightarrow> return_s kNone)) (lower_kind K (l @ n # ns))"
    if "?low in_lower" for in_upper :: "nat + inode" and in_lower
    using that ih p(3)
    by (auto split: sum.split intro!: yields_return yields_bind [OF yields_reads [OF reads_only_opaque]])
  have ne: "n \<noteq> []" using Cons.prems(3) by simp
  have wh: "yields K (if b then return_s kWhiteout else m) (lower_kind K (l @ n # ns))"
    if "yields K m (lower_kind K (l @ n # ns))" for b and m :: "resolved op"
    using that by (simp add: yields_return)
  show ?case
    unfolding resolve_from.simps [of ls opq up lo] Let_def p if_not_P [OF ne]
    by (rule yields_bind [OF yields_attempt [OF yields_reads [OF reads_only_calls(1)]]], rule wh)
      (rule yields_bind [OF yields_attempt [OF yields_reads [OF reads_only_calls(1)]]], rule wh,
       rule yields_bind [OF low], rule rest)
qed

lemma yields_resolve:
  assumes "links_free A K" and lay: "layers_ok ls U L" and "fuse_names ns" and "ancestors (L @ ns) \<subseteq> A"
  shows "yields K (resolve ls (show_loc ns)) (lower_kind K (L @ ns))"
proof (cases ns)
  case Nil
  have L: "path_names (lower ls) = L" "plain_names L" using lay by (simp_all add: layers_ok_def)
  have low: "yields K (attempt (sys_lstat (lower ls))) (\<lambda>r. \<forall>sb. r = Inr sb \<longrightarrow> K L = Some (i_kind sb))"
    by (rule yields_attempt [OF yields_lstat_direct [OF _ _ assms(1)], of "lower ls", unfolded L(1)])
      (use L(2) assms(4) Nil in simp_all)
  show ?thesis
    unfolding Nil resolve_def
    by (auto simp: show_loc_def intro!: yields_return yields_bind [OF yields_attempt [OF yields_reads]]
        yields_bind [OF low] split: sum.split)
next
  case (Cons n ms)
  then have "show_loc ns \<noteq> []" "show_loc ns \<noteq> ''/''" using assms(3) by (auto simp: show_loc_def)
  with yields_resolve_from [OF assms(1) _ _ assms(3,4)] lay show ?thesis
    by (simp add: resolve_def layers_ok_def)
qed

section \<open>The operations\<close>

text \<open>The lower root is a directory, as \<open>main\<close> has checked.\<close>

definition lower_dir :: "(loc \<Rightarrow> (ino \<times> inode option) option) \<Rightarrow> loc \<Rightarrow> bool" where
  "lower_dir V L \<longleftrightarrow> (\<exists>i nd. V L = Some (i, Some nd) \<and> i_kind nd = Dir)"

lemma guarded_lower_dir:
  assumes "guarded U V A k" and "lower_dir V L"
  shows "kind_at k L = Some Dir"
proof -
  from assms(2) obtain i nd where "V L = Some (i, Some nd)" "i_kind nd = Dir"
    by (auto simp: lower_dir_def)
  with guardedD(3) [OF assms(1)] show ?thesis
    by (auto simp: outside_def kind_at_def node_def split: if_splits)
qed

lemma guarded_links_free: "guarded U V A k \<Longrightarrow> links_free A (kind_at k)"
  by (simp add: guarded_def no_links_def links_free_def)

text \<open>
  Either nothing is assumed of the leaf in the upper layer, or it is no link in both layers and
  no ancestor of it in the lower one is.
\<close>

definition leaf_ok :: "loc \<Rightarrow> loc \<Rightarrow> loc set \<Rightarrow> string list \<Rightarrow> bool" where
  "leaf_ok U L A ns \<longleftrightarrow> U @ ns \<notin> A \<or> (L @ ns \<in> A \<and> ancestors (L @ ns) \<subseteq> A)"

lemma leaf_ok_root: "base U L \<subseteq> A \<Longrightarrow> leaf_ok U L A []"
  by (auto simp: leaf_ok_def base_def ancestors_def strict_prefix_def)

lemma inside_tmp:
  assumes lay: "layers_ok ls U L" and cov: "covers U L A ns" and "ns \<noteq> []"
  shows "inside U A (tmp_name ls (join (upper ls) (show_loc ns)) i)"
proof -
  obtain ms m where ns: "ns = ms @ [m]" using assms(3) by (cases ns rule: rev_cases) auto
  have U: "path_names (upper ls) = U" "plain_names U" using lay by (simp_all add: layers_ok_def)
  have f: "fuse_names (ms @ [m])" using coversD(1) [OF cov] ns by simp
  have "ancestors (U @ ms @ [t]) \<subseteq> A" for t
    using coversD(4) [OF cov] by (simp add: ns ancestors_snoc flip: append_assoc)
  moreover have "plain_names ms" using f by (simp add: fuse_names_plain)
  ultimately show ?thesis
    using path_names_tmp [OF f, of ls "upper ls" i] U
    by (clarsimp simp: inside_def ns) (simp add: plain_names_def)
qed

lemma keeps_copy_leaf:
  assumes lay: "layers_ok ls U L" and cov: "covers U L A ns"
    and reg: "is_reg sb \<Longrightarrow> ns \<noteq> []" and lnk: "is_lnk sb \<Longrightarrow> U @ ns \<notin> A"
  shows "keeps (guarded U V A)
      (let lo_full = join (lower ls) (show_loc ns); up_full = join (upper ls) (show_loc ns)
       in if is_reg sb then copy_regular ls lo_full up_full sb
          else if is_lnk sb then copy_symlink lo_full up_full sb
          else if is_dir sb then
            bind_s (attempt (sys_mkdir up_full (perm_bits (i_mode sb)))) (\<lambda>q.
              case q of
                Inr _ \<Rightarrow> return_s ()
              | Inl e \<Rightarrow> if e \<noteq> EEXIST then throw_s e else return_s ())
          else throw_s EPERM)"
proof -
  note up = inside_join [OF lay cov]
  have names: "path_names (join (upper ls) (show_loc ns)) = U @ ns"
    using lay coversD(1) [OF cov] by (simp add: path_names_join layers_ok_def)
  show ?thesis
    using lnk keeps_copy_regular [OF up inside_tmp [OF lay cov]] reg
    by (auto simp: Let_def copy_symlink_def names split: sum.split
        intro!: keeps_bind keeps_reads keeps_attempt keeps_mkdir [OF up] keeps_symlink [OF up])
qed

lemma keeps_copy_up:
  assumes lay: "layers_ok ls U L" and cov: "covers U L A ns" and dir: "lower_dir V L"
    and leaf: "leaf_ok U L A ns"
  shows "keeps (guarded U V A) (copy_up ls (show_loc ns))"
proof (rule keepsI)
  fix k :: overlay
  assume g: "guarded U V A k"
  let ?K = "kind_at k"
  obtain r t where r: "resolve ls (show_loc ns) k = (r, t)" by fastforce
  have t: "guarded U V A t" using keepsD [OF reads_only_keeps [OF reads_only_resolve] g, of ls "show_loc ns"] r by simp
  have low: "lower_kind ?K (L @ ns) x" if "r = Inr x" "ancestors (L @ ns) \<subseteq> A" for x
    using yields_resolve [OF guarded_links_free [OF g] lay coversD(1) [OF cov] that(2)] r that(1)
    unfolding yields_def by (auto dest: triple_Inr)
  show "guarded U V A (snd (copy_up ls (show_loc ns) k))"
  proof (cases "\<exists>p sb. r = Inr (kLower p sb)")
    case False
    with r t show ?thesis
      by (cases r; cases "projr r")
        (auto simp: copy_up_def bind_s_def return_s_def throw_s_def)
  next
    case True
    then obtain p sb where x: "r = Inr (kLower p sb)" by blast
    have reg: "ns \<noteq> []" if "is_reg sb"
    proof
      assume "ns = []"
      then have "ancestors (L @ ns) \<subseteq> A" and "?K (L @ ns) = Some Dir"
        using leaf_ok_root [OF coversD(3) [OF cov]] guarded_lower_dir [OF g dir] covers_upper [OF cov]
        by (auto simp: leaf_ok_def)
      with low [OF x] that show False by (simp add: is_reg_def)
    qed
    have lnk: "U @ ns \<notin> A" if "is_lnk sb"
    proof
      assume "U @ ns \<in> A"
      with leaf have "L @ ns \<in> A" "ancestors (L @ ns) \<subseteq> A" by (auto simp: leaf_ok_def)
      with low [OF x] that guarded_links_free [OF g] show False
        by (auto simp: is_lnk_def links_free_def split: fkind.splits)
    qed
    have "keeps (guarded U V A) (bind_s (ensure_upper_parents ls (show_loc ns)) (\<lambda>_.
             let lo_full = join (lower ls) (show_loc ns); up_full = join (upper ls) (show_loc ns)
             in if is_reg sb then copy_regular ls lo_full up_full sb
                else if is_lnk sb then copy_symlink lo_full up_full sb
                else if is_dir sb then
                  bind_s (attempt (sys_mkdir up_full (perm_bits (i_mode sb)))) (\<lambda>q.
                    case q of
                      Inr _ \<Rightarrow> return_s ()
                    | Inl e \<Rightarrow> if e \<noteq> EEXIST then throw_s e else return_s ())
                else throw_s EPERM))"
      by (intro keeps_bind keeps_ensure [OF lay cov] keeps_copy_leaf [OF lay cov reg lnk])
    from keepsD [OF this t] r x show ?thesis by (simp add: copy_up_def bind_s_def)
  qed
qed

lemma path_names_upper:
  "layers_ok ls U L \<Longrightarrow> covers U L A ns \<Longrightarrow> path_names (join (upper ls) (show_loc ns)) = U @ ns"
  by (simp add: path_names_join layers_ok_def covers_def unmarked_def)

lemma inside_below:
  assumes lay: "layers_ok ls U L" and cov: "covers U L A ns" and "U @ ns \<in> A"
    and "n \<noteq> []" "SLASH \<notin> set n" "n \<noteq> ''.''" "n \<noteq> ''..''"
  shows "inside U A (under (join (upper ls) (show_loc ns)) n)"
proof -
  have "plain_names U" using lay by (simp add: layers_ok_def)
  moreover have "plain_names ns" using coversD(1) [OF cov] by (rule fuse_names_plain)
  moreover have "ancestors (U @ ns @ [n]) \<subseteq> A"
    using assms(3) coversD(4) [OF cov] ancestors_snoc [of "U @ ns" n] by simp
  ultimately show ?thesis
    using assms(4-7) by (simp add: inside_def path_names_under path_names_upper [OF lay cov])
      (simp add: plain_names_def)
qed

lemma keeps_mkdir_op:
  assumes lay: "layers_ok ls U L" and cov: "covers U L A ns"
  shows "keeps (guarded U V A) (op_mkdir ls (show_loc ns) mode)"
proof -
  let ?up = "join (upper ls) (show_loc ns)"
  let ?m = "under ?up OPAQUE_MARKER"
  let ?B = "insert (U @ ns) A"
  have covB: "covers U L ?B ns" using cov by (auto simp: covers_def)
  have "inside U ?B ?m"
    by (rule inside_below [OF lay covB]) (simp_all add: OPAQUE_MARKER_def)
  moreover have "path_names ?m \<in> ?B"
    using coversD(3) [OF cov]
    by (auto simp: path_names_under path_names_upper [OF lay cov] OPAQUE_MARKER_def WH_PREFIX_def
        base_def markers_def strict_prefix_def)
  ultimately have "keeps (guarded U V ?B) (bind_s (attempt (sys_lstat (join (lower ls) (show_loc ns)))) (\<lambda>r.
       if result_is is_dir r then ignoring (touch ?m) else return_s ()))"
    by (auto intro!: keeps_bind keeps_attempt keeps_reads keeps_ignoring keeps_touch)
  note last = triple_down [OF this, of A]
  have made: "triple (guarded U V A) (bind_s (sys_mkdir ?up (perm_bits mode)) (\<lambda>_.
      bind_s (attempt (sys_lstat (join (lower ls) (show_loc ns)))) (\<lambda>r.
       if result_is is_dir r then ignoring (touch ?m) else return_s ())))
      (\<lambda>_. guarded U V A) (guarded U V A)"
    by (rule triple_bind [OF triple_mkdir [OF inside_join [OF lay cov]]])
      (use last in \<open>auto simp: path_names_upper [OF lay cov]\<close>)
  show ?thesis
    unfolding op_mkdir_def
    by (rule keeps_bind [OF keeps_ensure [OF lay cov]], rule keeps_bind [OF keeps_clear [OF lay cov]])
      (simp only: keeps_iff_triple made)
qed

lemma keeps_unlink_op:
  assumes lay: "layers_ok ls U L" and cov: "covers U L A ns"
  shows "keeps (guarded U V A) (op_unlink ls (show_loc ns))"
  unfolding op_unlink_def
  by (auto intro!: keeps_bind keeps_attempt keeps_reads keeps_unlink [OF inside_join [OF lay cov]]
      keeps_hide [OF lay cov] split: prod.split)

lemma keeps_symlink_op:
  assumes lay: "layers_ok ls U L" and cov: "covers U L A ns" and "U @ ns \<notin> A"
  shows "keeps (guarded U V A) (op_symlink ls target (show_loc ns))"
  unfolding op_symlink_def
  using assms(3) by (auto simp: path_names_upper [OF lay cov]
      intro!: keeps_bind keeps_ensure [OF lay cov] keeps_clear [OF lay cov]
        keeps_symlink [OF inside_join [OF lay cov]])

end
