(* ===== verification/Confinement_Ops.thy ===== *)
theory Confinement_Ops
  imports Confinement
begin

text \<open>
  Confinement of the operations that remove, rename, link, change and open, and of the table of
  operations as a whole.
\<close>

text \<open>The names of a directory are names of files, so a purge stays in it.\<close>

lemma children_names: "wf_kernel k \<Longrightarrow> n \<in> set (children k d) \<Longrightarrow> file_name n"
  using entry_names [of k "d @ [n]"] by (auto simp: children_entry)

lemma children_plans [simp]: "children (plans_update q k) d = children k d"
  by (simp add: children_def)

lemma listdir_names:
  "sys_listdir d k = (Inr ns, t) \<Longrightarrow> \<exists>l. ns = [''.'', ''..''] @ children k l"
  by (auto simp: sys_listdir_def at_node_def at_path_def syscall_def
      split: sum.splits list.splits plan.splits option.splits if_splits)

lemma triple_entries:
  "triple (guarded U V A) (entries d)
     (\<lambda>ns k. guarded U V A k \<and> (\<forall>n \<in> set ns. is_dot n \<or> file_name n)) (guarded U V A)"
proof (rule tripleI)
  fix k ns t
  assume g: "guarded U V A k" and e: "entries d k = (Inr ns, t)"
  have gt: "guarded U V A t" using keepsD [OF reads_only_keeps [OF reads_only_entries] g, of d] e by simp
  obtain r u where l: "sys_listdir d k = (r, u)" by fastforce
  have "ns = (case r of Inl _ \<Rightarrow> [] | Inr ns \<Rightarrow> ns)"
    using e l by (simp add: entries_def attempt_def bind_s_def return_s_def)
  then have "\<forall>n \<in> set ns. is_dot n \<or> file_name n"
    using listdir_names [of d k ns u] l children_names [OF guardedD(1) [OF g]]
    by (cases r) (auto simp: is_dot_def)
  with gt show "guarded U V A t \<and> (\<forall>n \<in> set ns. is_dot n \<or> file_name n)" by blast
qed (auto simp: entries_def attempt_def bind_s_def return_s_def split: prod.splits sum.splits)

lemma keeps_purge:
  assumes "\<And>n. n \<in> set ns \<Longrightarrow> is_dot n \<or> inside U A (under d n)"
  shows "keeps (guarded U V A) (purge d ns)"
  using assms
  by (induction ns) (auto intro!: keeps_bind keeps_ignoring keeps_unlink)

lemma keeps_rmdir_op:
  assumes lay: "layers_ok ls U L" and cov: "covers U L A ns" and leaf: "U @ ns \<in> A"
  shows "keeps (guarded U V A) (op_rmdir ls (show_loc ns))"
proof -
  let ?up = "join (upper ls) (show_loc ns)"
  note up = inside_join [OF lay cov]
  have below: "inside U A (under ?up n)" if "file_name n" for n
    using that by (intro inside_below [OF lay cov leaf]) (simp_all add: file_name_def)
  have purge: "triple (guarded U V A) (bind_s (entries ?up) (\<lambda>ns. bind_s (purge ?up ns) (\<lambda>_. sys_rmdir ?up)))
      (\<lambda>_. guarded U V A) (guarded U V A)"
  proof (rule triple_bind [OF triple_entries])
    fix nms
    show "triple (\<lambda>k. guarded U V A k \<and> (\<forall>n \<in> set nms. is_dot n \<or> file_name n))
        (bind_s (purge ?up nms) (\<lambda>_. sys_rmdir ?up)) (\<lambda>_. guarded U V A) (guarded U V A)"
    proof (cases "\<forall>n \<in> set nms. is_dot n \<or> file_name n")
      case True
      then have "keeps (guarded U V A) (bind_s (purge ?up nms) (\<lambda>_. sys_rmdir ?up))"
        using below by (intro keeps_bind keeps_purge keeps_rmdir [OF up]) blast
      then show ?thesis unfolding keeps_iff_triple by (rule triple_weaken) simp_all
    qed (simp add: triple_absurd)
  qed
  show ?thesis
    unfolding op_rmdir_def Let_def
    by (auto intro!: keeps_bind keeps_attempt keeps_reads keeps_hide [OF lay cov]
        simp: keeps_iff_triple [THEN iffD2, OF purge] split: prod.split)
qed

text \<open>Renaming puts nothing on a location of \<open>A\<close> but what was on one.\<close>

definition rename_ok :: "loc \<Rightarrow> loc set \<Rightarrow> string list \<Rightarrow> string list \<Rightarrow> bool" where
  "rename_ok U A src dst \<longleftrightarrow>
     (\<forall>l \<in> A. prefix (U @ dst) l \<longrightarrow>
        (U @ src) @ drop (length (U @ dst)) l \<in> A \<or> strict_prefix (U @ dst) (U @ src))"

lemma keeps_rename_op:
  assumes lay: "layers_ok ls U L" and cov: "covers U L A src" and cov': "covers U L A dst"
    and dir: "lower_dir V L" and leaf: "leaf_ok U L A src" and ren: "rename_ok U A src dst"
  shows "keeps (guarded U V A) (op_rename ls (show_loc src) (show_loc dst))"
proof -
  have "keeps (guarded U V A) (sys_rename (join (upper ls) (show_loc src)) (join (upper ls) (show_loc dst)))"
    using ren
    by (intro keeps_rename inside_join [OF lay cov] inside_join [OF lay cov'])
      (auto simp: path_names_upper [OF lay cov] path_names_upper [OF lay cov'] rename_ok_def)
  then show ?thesis
    unfolding op_rename_def Let_def
    by (auto intro!: keeps_bind keeps_attempt keeps_reads keeps_ignoring keeps_rmdir
        keeps_copy_up [OF lay cov dir leaf] keeps_ensure [OF lay cov'] keeps_clear [OF lay cov']
        inside_join [OF lay cov'] keeps_hide [OF lay cov] split: resolved.split)
qed

lemma keeps_link_op:
  assumes lay: "layers_ok ls U L" and cov: "covers U L A src" and cov': "covers U L A dst"
    and dir: "lower_dir V L" and leaf: "leaf_ok U L A src" and "U @ src \<in> A"
  shows "keeps (guarded U V A) (op_link ls (show_loc src) (show_loc dst))"
  unfolding op_link_def
  using assms(6)
  by (intro keeps_bind keeps_copy_up [OF lay cov dir leaf] keeps_ensure [OF lay cov']
      keeps_clear [OF lay cov'] keeps_link inside_join [OF lay cov] inside_join [OF lay cov'])
    (simp add: path_names_upper [OF lay cov])

lemma nofollow_flag: "has_flag (flags OR XATTR_NOFOLLOW) XATTR_NOFOLLOW"
  unfolding has_flag_def
proof
  assume "(flags OR XATTR_NOFOLLOW) AND XATTR_NOFOLLOW = 0"
  then have "bit ((flags OR XATTR_NOFOLLOW) AND XATTR_NOFOLLOW) 0 = bit (0 :: flags) 0" by simp
  then show False by (simp add: bit_simps XATTR_NOFOLLOW_def)
qed

lemma keeps_change_ops:
  assumes lay: "layers_ok ls U L" and cov: "covers U L A ns"
    and dir: "lower_dir V L" and leaf: "leaf_ok U L A ns"
  shows "U @ ns \<in> A \<Longrightarrow> keeps (guarded U V A) (op_chmod ls (show_loc ns) mode)"
    and "U @ ns \<in> A \<Longrightarrow> keeps (guarded U V A) (op_truncate ls (show_loc ns) n)"
    and "U @ ns \<in> A \<Longrightarrow> keeps (guarded U V A) (op_utimens ls (show_loc ns) t t')"
    and "keeps (guarded U V A) (op_chown ls (show_loc ns) uid gid)"
    and "keeps (guarded U V A) (op_setxattr ls (show_loc ns) name v flags pos)"
    and "keeps (guarded U V A) (op_removexattr ls (show_loc ns) name)"
  unfolding op_chmod_def op_truncate_def op_utimens_def op_chown_def op_setxattr_def op_removexattr_def
  by (intro keeps_bind keeps_copy_up [OF lay cov dir leaf] keeps_changes [OF inside_join [OF lay cov]];
      simp add: path_names_upper [OF lay cov] nofollow_flag;
      simp add: has_flag_def XATTR_NOFOLLOW_def)+

section \<open>Open files\<close>

lemma has_flag_or: "has_flag flags (a OR b) \<longleftrightarrow> has_flag flags a \<or> has_flag flags b"
  by (simp add: has_flag_def bit.conj_disj_distrib or_eq_0_iff)

lemma not_wants_write: "\<not> wants_write flags \<Longrightarrow> \<not> has_flag flags O_CREAT \<Longrightarrow> \<not> changes flags"
  by (simp add: wants_write_def changes_def writable_flags_def has_flag_or)

lemma keeps_open_op:
  assumes lay: "layers_ok ls U L" and cov: "covers U L A ns"
    and dir: "lower_dir V L" and leaf: "leaf_ok U L A ns" and "wants_write flags" and "U @ ns \<in> A"
  shows "keeps (guarded U V A) (op_open ls (show_loc ns) flags)"
  unfolding op_open_def
  using assms(5,6)
  by (auto intro!: keeps_bind keeps_copy_up [OF lay cov dir leaf] keeps_open inside_join [OF lay cov]
      simp: path_names_upper [OF lay cov])

lemma keeps_open_read:
  "\<not> wants_write flags \<Longrightarrow> \<not> has_flag flags O_CREAT \<Longrightarrow> keeps (guarded U V A) (op_open ls p flags)"
  using keeps_open_reading [OF not_wants_write]
  unfolding op_open_def by (auto intro!: keeps_bind keeps_reads split: prod.split)

lemma keeps_create_op:
  assumes lay: "layers_ok ls U L" and cov: "covers U L A ns" and "U @ ns \<in> A"
  shows "keeps (guarded U V A) (op_create ls (show_loc ns) mode flags)"
  unfolding op_create_def
  using assms(3)
  by (intro keeps_bind keeps_ensure [OF lay cov] keeps_clear [OF lay cov] keeps_open inside_join [OF lay cov])
    (simp add: path_names_upper [OF lay cov])

lemma keeps_fd_ops:
  "keeps (guarded U V A) (op_read n off fh)" "keeps (guarded U V A) (op_write d off fh)"
  "keeps (guarded U V A) (op_release fh)" "keeps (guarded U V A) (op_flush fh)"
  "keeps (guarded U V A) (op_fsync b fh)"
  by (auto simp: op_read_def op_write_def op_release_def op_flush_def op_fsync_def
      intro!: keeps_bind keeps_ignoring keeps_calls keeps_reads)

lemma reads_only_ops [intro!, simp]:
  "reads_only (op_getattr ls p)" "reads_only (op_fgetattr ls p fh)" "reads_only (op_access ls p m)"
  "reads_only (op_readlink ls p n)" "reads_only (op_statfs ls p)" "reads_only (op_getxattr ls p a n)"
  "reads_only (op_listxattr ls p n)"
  by (auto simp: op_getattr_def op_fgetattr_def op_access_def op_readlink_def op_statfs_def
      op_getxattr_def op_listxattr_def intro!: reads_only_bind split: prod.split)

section \<open>Requests\<close>

text \<open>A path as FUSE gives it, with no name of a marker.\<close>

definition well_named :: "path \<Rightarrow> bool" where
  "well_named p \<longleftrightarrow> p = show_loc (path_names p) \<and> unmarked (path_names p)"

text \<open>The paths of a request that may change something.\<close>

fun changed_paths :: "request \<Rightarrow> path list" where
  "changed_paths (Mkdir p m) = [p]"
| "changed_paths (Symlink t p) = [p]"
| "changed_paths (Unlink p) = [p]"
| "changed_paths (Rmdir p) = [p]"
| "changed_paths (Rename p q) = [p, q]"
| "changed_paths (Link p q) = [p, q]"
| "changed_paths (Chmod p m) = [p]"
| "changed_paths (Chown p u g) = [p]"
| "changed_paths (Truncate p n) = [p]"
| "changed_paths (Ftruncate p n fh) = (if fh = 0 then [p] else [])"
| "changed_paths (Utimens p t t') = [p]"
| "changed_paths (Open p f) = (if wants_write f then [p] else [])"
| "changed_paths (Create p m f) = [p]"
| "changed_paths (Setxattr p a v f n) = [p]"
| "changed_paths (Removexattr p a) = [p]"
| "changed_paths r = []"

text \<open>
  The leaf that the system calls of a request follow: the kernel resolves symbolic links before
  it sends such a request, so that it is not one.
\<close>

fun followed_paths :: "request \<Rightarrow> path list" where
  "followed_paths (Rmdir p) = [p]"
| "followed_paths (Link p q) = [p]"
| "followed_paths (Chmod p m) = [p]"
| "followed_paths (Truncate p n) = [p]"
| "followed_paths (Ftruncate p n fh) = (if fh = 0 then [p] else [])"
| "followed_paths (Utimens p t t') = [p]"
| "followed_paths (Open p f) = (if wants_write f then [p] else [])"
| "followed_paths (Create p m f) = [p]"
| "followed_paths r = []"

definition spots :: "loc \<Rightarrow> loc \<Rightarrow> request \<Rightarrow> loc set" where
  "spots U L r =
     (\<Union>p \<in> set (changed_paths r). ancestors (U @ path_names p)) \<union>
     (\<Union>p \<in> set (followed_paths r).
        insert (U @ path_names p) (insert (L @ path_names p) (ancestors (L @ path_names p))))"

text \<open>Two more rules of the kernel: no directory is moved below itself, and \<open>open\<close> does not create.\<close>

fun sensible :: "request \<Rightarrow> bool" where
  "sensible (Rename p q) = (\<not> strict_prefix (path_names p) (path_names q))"
| "sensible (Symlink t p) = (path_names p \<noteq> [])"
| "sensible (Open p f) = (\<not> has_flag f O_CREAT)"
| "sensible r = True"

definition admissible :: "loc \<Rightarrow> loc \<Rightarrow> request \<Rightarrow> 'z kernel_scheme \<Rightarrow> bool" where
  "admissible U L r k \<longleftrightarrow>
     list_all well_named (changed_paths r) \<and> sensible r \<and> no_links (spots U L r) k"

lemma show_loc_names: "well_named p \<Longrightarrow> show_loc (path_names p) = p"
  by (simp add: well_named_def)

lemma base_free:
  assumes "unmarked ns" and "ns \<noteq> []" and "\<not> prefix U L"
  shows "U @ ns \<notin> base U L"
proof -
  have "\<not> prefix (U @ ns) U"
    using assms(2) prefix_length_le [of "U @ ns" U] by auto
  moreover have "\<not> prefix (U @ ns) L" using assms(3) prefix_order.trans [of U "U @ ns" L] by auto
  moreover have "\<not> prefix WH_PREFIX (last ns)" using assms(1,2) by (auto simp: unmarked_def)
  ultimately show ?thesis using assms(2) by (auto simp: base_def markers_def)
qed

lemma not_own_ancestor: "l \<notin> ancestors l"
  by (simp add: ancestors_def)

lemma ancestors_below: "U @ p \<in> ancestors (U @ q) \<longleftrightarrow> strict_prefix p q"
  by (auto simp: ancestors_def strict_prefix_def)

lemma rename_spots:
  assumes "unmarked dst" and U: "\<not> prefix U L" and A: "A = base U L \<union> ancestors (U @ src) \<union> ancestors (U @ dst)"
  shows "rename_ok U A src dst"
  unfolding rename_ok_def
proof (intro ballI impI)
  fix l
  assume l: "l \<in> A" and below: "prefix (U @ dst) l"
  then obtain s where s: "l = (U @ dst) @ s" by (auto simp: prefix_def)
  consider "prefix l U" | "prefix l L" | "l \<in> markers U" | "l \<in> ancestors (U @ src)" | "l \<in> ancestors (U @ dst)"
    using l by (auto simp: A base_def)
  then show "(U @ src) @ drop (length (U @ dst)) l \<in> A \<or> strict_prefix (U @ dst) (U @ src)"
  proof cases
    case 1
    then have "dst = []" "s = []" using s prefix_length_le [of l U] by auto
    with s show ?thesis
      by (cases "src = []") (auto simp: A base_def strict_prefix_def)
  next
    case 2
    then have "prefix U L" using s by (auto simp: prefix_def)
    with U show ?thesis by simp
  next
    case 3
    show ?thesis
    proof (cases "s = []")
      case False
      with 3 s show ?thesis by (simp add: A base_def markers_def strict_prefix_def)
    next
      case True
      show ?thesis
      proof (cases "dst = []")
        case False
        with 3 True s assms(1) have False by (simp add: markers_def unmarked_def)
        then show ?thesis ..
      next
        case True
        with \<open>s = []\<close> s 3 have False by (simp add: markers_def)
        then show ?thesis ..
      qed
    qed
  next
    case 4
    then show ?thesis using below by (auto simp: ancestors_def intro: prefix_order.le_less_trans)
  next
    case 5
    then have "strict_prefix (U @ dst) (U @ dst)"
      using below by (auto simp: ancestors_def intro: prefix_order.le_less_trans)
    then show ?thesis by simp
  qed
qed

lemma keeps_replies: "keeps I m \<Longrightarrow> keeps I (replies f m)"
  unfolding replies_def by auto

text \<open>The locations that matter to a request, and what they give the lemmas on the operations.\<close>

definition watched :: "loc \<Rightarrow> loc \<Rightarrow> request \<Rightarrow> loc set" where
  "watched U L r = base U L \<union> spots U L r"

lemma watched_covers:
  "p \<in> set (changed_paths r) \<Longrightarrow> well_named p \<Longrightarrow> covers U L (watched U L r) (path_names p)"
  by (auto simp: covers_def watched_def spots_def well_named_def)

lemma watched_followed:
  "p \<in> set (followed_paths r) \<Longrightarrow>
   U @ path_names p \<in> watched U L r \<and> leaf_ok U L (watched U L r) (path_names p)"
  by (auto simp: watched_def spots_def leaf_ok_def)

lemma watched_alone:
  assumes "well_named p" and "\<not> prefix U L" and "spots U L r = ancestors (U @ path_names p)"
  shows "leaf_ok U L (watched U L r) (path_names p)"
  using base_free [of "path_names p" U L] assms leaf_ok_root [of U L "watched U L r"] not_own_ancestor
  by (cases "path_names p = []") (auto simp: watched_def leaf_ok_def well_named_def)

lemma keeps_serve_change:
  assumes lay: "layers_ok ls U L" and dir: "lower_dir V L"
    and named: "well_named p" and r: "r \<in> {Chmod p m, Chown p u g, Truncate p n, Utimens p t t',
      Setxattr p a v f i, Removexattr p a}"
  shows "keeps (guarded U V (watched U L r)) (serve ls r)"
proof -
  have cov: "covers U L (watched U L r) (path_names p)"
    using r by (intro watched_covers named) auto
  have leaf: "leaf_ok U L (watched U L r) (path_names p)"
  proof (cases "followed_paths r = []")
    case True
    with r lay named show ?thesis
      by (intro watched_alone) (auto simp: layers_ok_def spots_def)
  next
    case False
    with r show ?thesis by (intro conjunct2 [OF watched_followed]) auto
  qed
  have "U @ path_names p \<in> watched U L r" if "followed_paths r \<noteq> []"
    using that r by (intro conjunct1 [OF watched_followed]) auto
  with r keeps_change_ops [OF lay cov dir leaf, unfolded show_loc_names [OF named]] show ?thesis
    by (cases t; cases t') (auto intro!: keeps_replies)
qed

lemma keeps_serve_make:
  assumes lay: "layers_ok ls U L" and named: "well_named p" and sens: "sensible r"
    and r: "r \<in> {Mkdir p m, Symlink t p, Unlink p, Rmdir p, Create p m f}"
  shows "keeps (guarded U V (watched U L r)) (serve ls r)"
proof -
  have cov: "covers U L (watched U L r) (path_names p)"
    using r by (intro watched_covers named) auto
  have link: "U @ path_names p \<notin> watched U L r" if "r = Symlink t p"
    using that sens named base_free [of "path_names p" U L] lay not_own_ancestor
    by (auto simp: watched_def spots_def layers_ok_def well_named_def)
  have leaf: "U @ path_names p \<in> watched U L r" if "followed_paths r \<noteq> []"
    using that r by (intro conjunct1 [OF watched_followed]) auto
  show ?thesis
    using r link leaf
      keeps_mkdir_op [OF lay cov, unfolded show_loc_names [OF named]]
      keeps_symlink_op [OF lay cov, unfolded show_loc_names [OF named]]
      keeps_unlink_op [OF lay cov, unfolded show_loc_names [OF named]]
      keeps_rmdir_op [OF lay cov, unfolded show_loc_names [OF named]]
      keeps_create_op [OF lay cov, unfolded show_loc_names [OF named]]
    by (auto intro!: keeps_replies)
qed

lemma keeps_serve_two:
  assumes lay: "layers_ok ls U L" and dir: "lower_dir V L" and sens: "sensible r"
    and named: "well_named p" "well_named q" and r: "r = Rename p q \<or> r = Link p q"
  shows "keeps (guarded U V (watched U L r)) (serve ls r)"
proof -
  let ?A = "watched U L r"
  have cov: "covers U L ?A (path_names p)" "covers U L ?A (path_names q)"
    using r named by (auto intro!: watched_covers)
  have U: "\<not> prefix U L" using lay by (simp add: layers_ok_def)
  from r show ?thesis
  proof
    assume r: "r = Rename p q"
    have A: "?A = base U L \<union> ancestors (U @ path_names p) \<union> ancestors (U @ path_names q)"
      using r by (auto simp: watched_def spots_def)
    have "leaf_ok U L ?A (path_names p)"
    proof (cases "path_names p = []")
      case True
      have "base U L \<subseteq> ?A" by (simp add: watched_def)
      with True show ?thesis by (simp add: leaf_ok_root)
    next
      case False
      with base_free [of "path_names p" U L] named(1) U sens r have "U @ path_names p \<notin> ?A"
        unfolding A by (auto simp: not_own_ancestor ancestors_below well_named_def)
      then show ?thesis by (simp add: leaf_ok_def)
    qed
    moreover have "rename_ok U ?A (path_names p) (path_names q)"
      using named(2) U A by (intro rename_spots) (simp_all add: well_named_def)
    ultimately show ?thesis
      using keeps_rename_op [OF lay cov dir] r by (simp add: show_loc_names named keeps_replies)
  next
    assume r: "r = Link p q"
    with watched_followed [of p r U L] have "U @ path_names p \<in> ?A" "leaf_ok U L ?A (path_names p)" by simp_all
    then show ?thesis
      using keeps_link_op [OF lay cov dir] r by (simp add: show_loc_names named keeps_replies)
  qed
qed

lemma keeps_serve_handle:
  assumes lay: "layers_ok ls U L" and dir: "lower_dir V L" and sens: "sensible r"
    and named: "list_all well_named (changed_paths r)" and r: "r = Open p f \<or> r = Ftruncate p n fh"
  shows "keeps (guarded U V (watched U L r)) (serve ls r)"
proof (cases "changed_paths r = []")
  case True
  with r sens show ?thesis
    by (auto intro!: keeps_replies keeps_open_read keeps_calls simp: op_ftruncate_def split: if_splits)
next
  case False
  with r named have p: "changed_paths r = [p]" "followed_paths r = [p]" "well_named p" by (auto split: if_splits)
  have cov: "covers U L (watched U L r) (path_names p)" using p by (intro watched_covers) auto
  from p(2) watched_followed [of p r U L]
  have leaf: "leaf_ok U L (watched U L r) (path_names p)" and up: "U @ path_names p \<in> watched U L r" by simp_all
  show ?thesis
    using r p(1) keeps_open_op [OF lay cov dir leaf _ up] keeps_change_ops(2) [OF lay cov dir leaf up]
    by (auto simp: show_loc_names p(3) op_ftruncate_def intro!: keeps_replies split: if_splits)
qed

definition is_reading :: "request \<Rightarrow> bool" where
  "is_reading r \<longleftrightarrow> changed_paths r = [] \<and> (\<forall>p f. r \<noteq> Open p f) \<and> (\<forall>p n fh. r \<noteq> Ftruncate p n fh)"

lemma keeps_serve_reading: "is_reading r \<Longrightarrow> keeps (guarded U V A) (serve ls r)"
  unfolding is_reading_def
  using keeps_fd_ops reads_only_ops [THEN reads_only_keeps] keeps_reads
  by (cases r) (simp_all add: keeps_replies)

lemma keeps_serve:
  assumes "layers_ok ls U L" and "lower_dir V L"
    and named: "list_all well_named (changed_paths r)" and "sensible r"
  shows "keeps (guarded U V (watched U L r)) (serve ls r)"
proof (cases r)
  case (Mkdir p m)
  with named show ?thesis by (intro keeps_serve_make [OF assms(1) _ assms(4)]) (auto simp del: serve.simps)
next
  case (Symlink t p)
  with named show ?thesis by (intro keeps_serve_make [OF assms(1) _ assms(4)]) (auto simp del: serve.simps)
next
  case (Unlink p)
  with named show ?thesis by (intro keeps_serve_make [OF assms(1) _ assms(4)]) (auto simp del: serve.simps)
next
  case (Rmdir p)
  with named show ?thesis by (intro keeps_serve_make [OF assms(1) _ assms(4)]) (auto simp del: serve.simps)
next
  case (Create p m f)
  with named show ?thesis by (intro keeps_serve_make [OF assms(1) _ assms(4)]) (auto simp del: serve.simps)
next
  case (Rename p q)
  with named show ?thesis by (intro keeps_serve_two [OF assms(1,2,4)]) (auto simp del: serve.simps)
next
  case (Link p q)
  with named show ?thesis by (intro keeps_serve_two [OF assms(1,2,4)]) (auto simp del: serve.simps)
next
  case (Chmod p m)
  with named show ?thesis by (intro keeps_serve_change [OF assms(1,2)]) (auto simp del: serve.simps)
next
  case (Chown p u g)
  with named show ?thesis by (intro keeps_serve_change [OF assms(1,2)]) (auto simp del: serve.simps)
next
  case (Truncate p n)
  with named show ?thesis by (intro keeps_serve_change [OF assms(1,2)]) (auto simp del: serve.simps)
next
  case (Utimens p t t')
  with named show ?thesis by (intro keeps_serve_change [OF assms(1,2)]) (auto simp del: serve.simps)
next
  case (Setxattr p a v f n)
  with named show ?thesis by (intro keeps_serve_change [OF assms(1,2)]) (auto simp del: serve.simps)
next
  case (Removexattr p a)
  with named show ?thesis by (intro keeps_serve_change [OF assms(1,2)]) (auto simp del: serve.simps)
next
  case (Open p f)
  with named show ?thesis by (intro keeps_serve_handle [OF assms(1,2,4) named]) (auto simp del: serve.simps)
next
  case (Ftruncate p n fh)
  with named show ?thesis by (intro keeps_serve_handle [OF assms(1,2,4) named]) (auto simp del: serve.simps)
qed (auto simp: is_reading_def intro!: keeps_serve_reading simp del: serve.simps)

end
