(* ===== verification/Overlay_Start.thy ===== *)
theory Overlay_Start
  imports Overlay_Ops
begin

text \<open>
  The start of \<open>jaim-overlay\<close>: \<open>extract_args\<close>, \<open>canonicalise\<close> and the checks of \<open>main\<close>
  before it mounts.
\<close>

section \<open>Arguments\<close>

record overlay_args =
  a_lower :: string
  a_upper :: string
  a_kept :: "string list"
  a_debug :: bool

text \<open>The ways the scan of the arguments ends.\<close>

datatype extracted = Extracted overlay_args | MissingArgument string | ShowUsage

text \<open>\<open>a.starts_with(opt)\<close>, and then \<open>a.substr(opt.size())\<close>.\<close>

definition opt_value :: "string \<Rightarrow> string \<Rightarrow> string option" where
  "opt_value opt a = (if prefix opt a then Some (drop (length opt) a) else None)"

function extract_loop :: "string list \<Rightarrow> overlay_args \<Rightarrow> extracted" where
  "extract_loop [] s = Extracted s"
| "extract_loop (a # as) s =
     (case opt_value ''--lower='' a of
        Some v \<Rightarrow> extract_loop as (s\<lparr>a_lower := v\<rparr>)
      | None \<Rightarrow>
     (case opt_value ''--upper='' a of
        Some v \<Rightarrow> extract_loop as (s\<lparr>a_upper := v\<rparr>)
      | None \<Rightarrow>
        if a = ''--lower'' \<or> a = ''--upper'' then
          (case as of
             [] \<Rightarrow> MissingArgument a
           | v # as' \<Rightarrow>
               extract_loop as' (if a = ''--lower'' then s\<lparr>a_lower := v\<rparr> else s\<lparr>a_upper := v\<rparr>))
        else if a = ''--help'' \<or> a = ''-h'' then ShowUsage
        else if a = ''-o'' \<and> as \<noteq> [] \<and> hd as = ''jdebug''
          then extract_loop (tl as) (s\<lparr>a_debug := True\<rparr>)
        else extract_loop as (a_kept_update (\<lambda>kept. kept @ [a]) s)))"
  by pat_completeness auto
termination
  by (relation "measure (\<lambda>(as, s). length as)") auto

definition extract_args :: "string list \<Rightarrow> extracted" where
  "extract_args argv =
     extract_loop (tl argv) \<lparr>a_lower = [], a_upper = [], a_kept = [hd argv], a_debug = False\<rparr>"

section \<open>Checks before the mount\<close>

text \<open>\<open>realpath\<close> of a path, relative ones from the working directory.\<close>

definition canonicalise :: "path \<Rightarrow> path \<Rightarrow> path op" where
  "canonicalise cwd p = sys_realpath (path_append cwd p)"

text \<open>The test of \<open>main\<close> on the two canonical paths.\<close>

definition nested :: "path \<Rightarrow> path \<Rightarrow> bool" where
  "nested lo up \<longleftrightarrow>
     lo = up \<or>
     (length lo > length up \<and> prefix up lo \<and> lo ! length up = SLASH) \<or>
     (length up > length lo \<and> prefix lo up \<and> up ! length lo = SLASH)"

text \<open>What \<open>main\<close> ends with: the usage, a refusal (exit code 2) or the mount of the layers.\<close>

datatype started = Usage | Refused string | Mount layers "string list"

definition W_OK :: nat where "W_OK = 2"

definition must_be_dir :: "string \<Rightarrow> path \<Rightarrow> (string + unit) op" where
  "must_be_dir opt p =
     bind_s (attempt (sys_stat p)) (\<lambda>r.
       return_s (if result_is is_dir r then Inr () else Inl (opt @ '' is not a directory'')))"

definition start :: "path \<Rightarrow> nat \<Rightarrow> string list \<Rightarrow> started op" where
  "start cwd self argv =
     (case extract_args argv of
        ShowUsage \<Rightarrow> return_s Usage
      | MissingArgument a \<Rightarrow> return_s (Refused (a @ '' requires an argument''))
      | Extracted s \<Rightarrow>
          if a_lower s = [] \<or> a_upper s = []
          then return_s (Refused ''--lower and --upper are both required'')
          else
            bind_s (attempt (canonicalise cwd (a_lower s))) (\<lambda>l.
              case l of Inl e \<Rightarrow> return_s (Refused ''--lower'') | Inr lo \<Rightarrow>
            bind_s (attempt (canonicalise cwd (a_upper s))) (\<lambda>u.
              case u of Inl e \<Rightarrow> return_s (Refused ''--upper'') | Inr up \<Rightarrow>
            bind_s (must_be_dir ''--lower'' lo) (\<lambda>ld.
              case ld of Inl m \<Rightarrow> return_s (Refused m) | Inr _ \<Rightarrow>
            bind_s (must_be_dir ''--upper'' up) (\<lambda>ud.
              case ud of Inl m \<Rightarrow> return_s (Refused m) | Inr _ \<Rightarrow>
            bind_s (attempt (sys_access up W_OK)) (\<lambda>w.
              if \<not> succeeded w then return_s (Refused ''--upper is not writable'')
              else if nested lo up
              then return_s (Refused ''--lower and --upper must not be nested'')
              else return_s (Mount \<lparr>lower = lo, upper = up, pid = self\<rparr> (a_kept s))))))))"

end
