(* ===== verification/Overlay_Samples.thy ===== *)
theory Overlay_Samples
  imports Overlay_Start
begin

text \<open>
  Small file systems on which the operations are evaluated, and runs of requests on them.
\<close>

definition node_of :: "fkind \<Rightarrow> inode" where
  "node_of kd = \<lparr>i_kind = kd, i_mode = 493, i_uid = 501, i_gid = 20, i_atime = (1, 0), i_mtime = (2, 0), i_xattr = []\<rparr>"

text \<open>A file system from a list of locations with their contents.\<close>

definition sample_kernel :: "(loc \<times> fkind) list \<Rightarrow> bool \<Rightarrow> overlay" where
  "sample_kernel fs mknod =
     \<lparr>dir_table = zip (map fst fs) [0..<length fs],
      inodes = (\<lambda>i. if i < length fs then Some (node_of (snd (fs ! i))) else None),
      next_ino = length fs, fds = (\<lambda>_. None), next_fd = 3, plans = [], can_mknod_whiteout = mknod\<rparr>"

definition sample_tree :: "(loc \<times> fkind) list" where
  "sample_tree = [([], Dir), ([''l''], Dir), ([''u''], Dir), ([''l'', ''f''], Reg ''abc'')]"

definition sample_argv :: "string list" where
  "sample_argv = [''jaim-overlay'', ''--lower=/l'', ''--upper'', ''/u'', ''/m'']"

definition sample_layers :: layers where
  "sample_layers = \<lparr>lower = ''/l'', upper = ''/u'', pid = 7\<rparr>"

definition after :: "request list \<Rightarrow> overlay \<Rightarrow> overlay" where
  "after rs k = fold (\<lambda>r k. snd (serve sample_layers r k)) rs k"

definition answer :: "request \<Rightarrow> overlay \<Rightarrow> nat + reply" where
  "answer r k = fst (serve sample_layers r k)"

text \<open>A file outside both layers, a lower directory, an upper one, and a lower link to a directory.\<close>

definition home_tree :: "string \<Rightarrow> (loc \<times> fkind) list" where
  "home_tree s = sample_tree @ [([''h''], Dir), ([''h'', ''secret''], Reg s)]"

definition dir_tree :: "string \<Rightarrow> (loc \<times> fkind) list" where
  "dir_tree s = sample_tree @ [([''l'', ''d''], Dir), ([''l'', ''d'', ''g''], Reg s)]"

definition full_tree :: "string \<Rightarrow> (loc \<times> fkind) list" where
  "full_tree s = sample_tree @ [([''u'', ''d''], Dir), ([''u'', ''d'', ''g''], Reg s)]"

definition link_tree :: "string \<Rightarrow> (loc \<times> fkind) list" where
  "link_tree s = dir_tree s @ [([''l'', ''s''], Lnk ''d'')]"

end
