(* ===== verification/Overlay_Safety.thy ===== *)
theory Overlay_Safety
  imports Confinement_Ops Overlay_Samples
begin

text \<open>
  The guarantee of the overlay as a whole: from the checks of \<open>main\<close> on, no sequence of requests,
  whatever fails on the way, changes anything outside the upper directory.
\<close>

section \<open>Runs\<close>

abbreviation upper_loc :: "layers \<Rightarrow> loc" where "upper_loc ls \<equiv> path_names (upper ls)"
abbreviation lower_loc :: "layers \<Rightarrow> loc" where "lower_loc ls \<equiv> path_names (lower ls)"

text \<open>One admissible request after the other.\<close>

inductive served :: "layers \<Rightarrow> overlay \<Rightarrow> overlay \<Rightarrow> bool" for ls where
  request: "admissible (upper_loc ls) (lower_loc ls) r k \<Longrightarrow> served ls k (snd (serve ls r k))"

text \<open>
  The file system before the first request: no file is both inside and outside the upper
  directory, the overlay has no file open for writing, and no name of a marker is a link.
\<close>

definition separate :: "loc \<Rightarrow> 'z kernel_scheme \<Rightarrow> bool" where
  "separate U k \<longleftrightarrow>
     (\<forall>(l, i) \<in> set (dir_table k). \<forall>(l', i') \<in> set (dir_table k).
        prefix U l \<and> \<not> prefix U l' \<longrightarrow> i \<noteq> i')"

definition nothing_open :: "'z kernel_scheme \<Rightarrow> bool" where
  "nothing_open k \<longleftrightarrow> (\<forall>fd. fds k fd = None)"

definition fresh_overlay :: "loc \<Rightarrow> 'z kernel_scheme \<Rightarrow> bool" where
  "fresh_overlay U k \<longleftrightarrow>
     wf_kernel k \<and> is_dir_at k [] \<and> separate U k \<and> nothing_open k \<and> no_links (markers U) k"

lemma guarded_start:
  assumes "fresh_overlay U k" and "no_links {q. prefix q U \<or> prefix q L} k"
  shows "guarded U (outside U k) (base U L) k"
proof -
  have "i \<notin> inos (outside U k)" if "entry k l = Some i" "prefix U l" for l i
  proof
    assume "i \<in> inos (outside U k)"
    then obtain l' where "\<not> prefix U l'" "entry k l' = Some i" by (auto simp: inos_outside)
    moreover have "separate U k" using assms(1) by (simp add: fresh_overlay_def)
    ultimately show False
      using that entry_mem [of k l i] entry_mem [of k l' i] unfolding separate_def by blast
  qed
  moreover have "no_links (base U L) k"
    using assms by (auto simp: fresh_overlay_def no_links_def base_def)
  ultimately show ?thesis using assms(1) by (simp add: guarded_def fresh_overlay_def nothing_open_def)
qed

lemma served_keeps:
  assumes lay: "layers_ok ls (upper_loc ls) (lower_loc ls)" and dir: "lower_dir V (lower_loc ls)"
  shows "(served ls)\<^sup>*\<^sup>* k k' \<Longrightarrow> guarded (upper_loc ls) V (base (upper_loc ls) (lower_loc ls)) k \<Longrightarrow>
    guarded (upper_loc ls) V (base (upper_loc ls) (lower_loc ls)) k'"
proof (induction rule: rtranclp_induct)
  case (step k1 k2)
  let ?U = "upper_loc ls" and ?L = "lower_loc ls"
  from step(2) obtain r where r: "admissible ?U ?L r k1" and k2: "k2 = snd (serve ls r k1)"
    by (auto elim: served.cases)
  have "guarded ?U V (watched ?U ?L r) k1"
    using step(3) [OF step(4)] r
    by (auto simp: guarded_def watched_def admissible_def no_links_def)
  then have "guarded ?U V (watched ?U ?L r) k2"
    using keepsD [OF keeps_serve [OF lay dir]] r k2 by (simp add: admissible_def)
  then show ?case by (rule guarded_antimono) (simp add: watched_def)
qed

section \<open>What the checks of main establish\<close>

definition clear_to :: "(loc \<Rightarrow> fkind option) \<Rightarrow> loc \<Rightarrow> bool" where
  "clear_to kinds d \<longleftrightarrow> (\<forall>q. prefix q d \<longrightarrow> (\<forall>t. kinds q \<noteq> Some (Lnk t)))"

lemma clear_to_butlast: "clear_to kinds d \<Longrightarrow> clear_to kinds (butlast d)"
  unfolding clear_to_def using prefix_order.trans [OF _ prefixeq_butlast] by blast

lemma clear_to_snoc: "clear_to kinds d \<Longrightarrow> (\<And>t. kinds (d @ [c]) \<noteq> Some (Lnk t)) \<Longrightarrow> clear_to kinds (d @ [c])"
  by (auto simp: clear_to_def)

lemma clear_to_Nil: "clear_to kinds d \<Longrightarrow> clear_to kinds []"
  by (simp add: clear_to_def)

lemma walk_no_links: "clear_to kinds d \<Longrightarrow> walk n kinds d ns True = Inr l \<Longrightarrow> clear_to kinds l"
proof (induction n kinds d ns True rule: walk.induct)
  case (2 n kinds d c cs)
  note up = clear_to_butlast [OF 2(8)] and root = clear_to_Nil [OF 2(8)]
  show ?case
    using 2 up root clear_to_snoc [OF 2(8), of c]
    by (auto simp: walk.simps(2) [of n] split: if_splits option.splits fkind.splits)
qed auto

lemma path_names_loc: "list_all file_name l \<Longrightarrow> path_names (show_loc l) = l"
  by (rule path_names_show_loc) (auto simp: fuse_names_def plain_names_def file_name_def list_all_iff)

text \<open>A canonical path names a location without links on the way.\<close>

definition canonical :: "(loc \<Rightarrow> fkind option) \<Rightarrow> path \<Rightarrow> bool" where
  "canonical K p \<longleftrightarrow> (\<exists>l. p = show_loc l \<and> list_all file_name l \<and> clear_to K l)"

lemma canonicalD:
  assumes "canonical K p"
  shows "p = show_loc (path_names p)" and "plain_names (path_names p)" and "clear_to K (path_names p)"
proof -
  from assms obtain m where m: "p = show_loc m" "list_all file_name m" "clear_to K m"
    by (auto simp: canonical_def)
  then have p: "path_names p = m" by (simp add: path_names_loc)
  with m show "p = show_loc (path_names p)" "clear_to K (path_names p)" by simp_all
  show "plain_names (path_names p)" using m(2) p by (auto simp: plain_names_def file_name_def list_all_iff)
qed

lemma canonical_walk:
  assumes "K [] = Some Dir" and "walk n K [] (path_names p) True = Inr l"
  shows "canonical K (show_loc l)"
proof -
  have "clear_to K []" using assms(1) by (simp add: clear_to_def)
  then have "clear_to K l" using assms(2) by (rule walk_no_links)
  moreover have "list_all file_name l"
    using walk_names [of "[]" "path_names p" n K True l] assms(2) path_names_elem by auto
  ultimately show ?thesis by (auto simp: canonical_def)
qed

lemma canonical_target:
  assumes "canonical K p" and "walk n K [] (path_names p) True = Inr l"
  shows "l = path_names p"
  using walk_direct [OF canonicalD(2) [OF assms(1)] _ assms(2)] canonicalD(3) [OF assms(1)]
  by (auto simp: clear_to_def)

lemma yields_realpath:
  "K [] = Some Dir \<Longrightarrow> yields K (sys_realpath p) (canonical K)"
  unfolding yields_def
  by (rule tripleI)
    (auto simp: sys_realpath_def at_node_def at_path_def syscall_def lookup_path_def intro: canonical_walk
      split: list.splits plan.splits sum.splits option.splits)

lemma yields_stat:
  "canonical K p \<Longrightarrow> yields K (sys_stat p) (\<lambda>sb. K (path_names p) = Some (i_kind sb))"
  unfolding yields_def
  by (rule tripleI)
    (auto simp: sys_stat_def at_node_def at_path_def syscall_def lookup_path_def kind_at_def node_def
      dest!: canonical_target split: list.splits plan.splits sum.splits option.splits)

lemma yields_must_be_dir:
  assumes "canonical K p"
  shows "yields K (must_be_dir opt p) (\<lambda>r. r = Inr () \<longrightarrow> K (path_names p) = Some Dir)"
  unfolding must_be_dir_def
proof (rule yields_bind [OF yields_attempt [OF yields_stat [OF assms]]])
  fix r :: "nat + inode"
  assume "\<forall>a. r = Inr a \<longrightarrow> K (path_names p) = Some (i_kind a)"
  then show "yields K (return_s (if result_is is_dir r then Inr () else Inl (opt @ '' is not a directory'')) :: (string + unit) op)
      (\<lambda>r. r = Inr () \<longrightarrow> K (path_names p) = Some Dir)"
    by (cases r) (auto simp: is_dir_def intro!: yields_return)
qed

definition mounted :: "(loc \<Rightarrow> fkind option) \<Rightarrow> started \<Rightarrow> bool" where
  "mounted K r \<longleftrightarrow>
     (\<forall>ls rest. r = Mount ls rest \<longrightarrow>
        canonical K (lower ls) \<and> canonical K (upper ls) \<and> K (lower_loc ls) = Some Dir \<and>
        \<not> nested (lower ls) (upper ls))"

lemma mounted_simps [simp]:
  "mounted K (Refused m)" "mounted K Usage"
  "mounted K (Mount ls rest) \<longleftrightarrow>
     canonical K (lower ls) \<and> canonical K (upper ls) \<and> K (lower_loc ls) = Some Dir \<and>
     \<not> nested (lower ls) (upper ls)"
  by (simp_all add: mounted_def)

lemma yields_start:
  assumes root: "K [] = Some Dir"
  shows "yields K (start cwd self argv) (mounted K)"
  unfolding start_def canonicalise_def
  by (auto split: extracted.split sum.split
      intro!: yields_return yields_bind [OF yields_attempt [OF yields_realpath [where K = K, OF root]]]
        yields_bind [OF yields_must_be_dir] yields_bind [OF yields_attempt [OF yields_reads]])

lemma reads_only_start: "reads_only (start cwd self argv)"
  unfolding start_def canonicalise_def must_be_dir_def
  by (auto split: extracted.split sum.split intro!: reads_only_bind reads_only_attempt)

text \<open>The test on the two paths says what it should when the upper one is not the root.\<close>

lemma not_nested:
  assumes "\<not> nested (show_loc L) (show_loc U)" and "U \<noteq> []"
  shows "\<not> prefix U L"
proof
  assume "prefix U L"
  then obtain s where s: "L = U @ s" by (auto simp: prefix_def)
  show False
  proof (cases s)
    case Nil
    with assms s show False by (simp add: nested_def)
  next
    case (Cons c cs)
    with assms s show False by (auto simp: nested_def show_loc_def nth_append)
  qed
qed

section \<open>Confinement\<close>

lemma fresh_plans: "fresh_overlay U (plans_update q k) = fresh_overlay U k"
  by (simp add: fresh_overlay_def separate_def nothing_open_def no_links_def)

lemma outside_plans: "outside U (plans_update q k) = outside U k"
  by (simp add: outside_def fun_eq_iff)

text \<open>C2: The overlay is confined to its upper directory.  After the checks of \<open>main\<close> have
  accepted the two layers, any sequence of FUSE requests, with any failures of the system calls,
  leaves every location outside the upper directory as it was: its entry, and the type, content,
  mode, owner, times and attributes of its file.  The lower layer in particular is never changed.
  The hypotheses are what the program relies on and does not check: no file is linked both inside
  and outside the upper directory, no file in it whose name starts with \<open>.wh.\<close> is a symbolic link, and
  each request is \<open>admissible\<close>, with the symbolic links on its paths resolved by the kernel and no
  reserved name in them; the upper layer is not the root directory.\<close>

theorem overlay_confined:
  assumes "start cwd self argv k = (Inr (Mount ls rest), k1)" and "upper ls \<noteq> ''/''"
    and "fresh_overlay (upper_loc ls) k" and "(served ls)\<^sup>*\<^sup>* k1 k2"
  shows "outside (upper_loc ls) k2 = outside (upper_loc ls) k"
proof -
  let ?U = "upper_loc ls" and ?L = "lower_loc ls" and ?K = "kind_at k"
  have root: "?K [] = Some Dir" using assms(3) by (simp add: fresh_overlay_def is_dir_at_def)
  have m: "mounted ?K (Mount ls rest)"
    using triple_Inr [OF yields_start [where K = ?K, OF root, unfolded yields_def] refl assms(1)] by simp
  obtain ps where k1: "k1 = k\<lparr>plans := ps\<rparr>"
    using reads_only_start assms(1) unfolding reads_only_def by (metis snd_conv)
  have c: "canonical ?K (lower ls)" "canonical ?K (upper ls)" "?K ?L = Some Dir"
    and n: "\<not> nested (show_loc ?L) (show_loc ?U)"
    using m canonicalD(1) [of ?K "lower ls"] canonicalD(1) [of ?K "upper ls"] by simp_all
  have "?U \<noteq> []" using assms(2) canonicalD(1) [OF c(2)] by (metis show_loc_def)
  then have apart: "\<not> prefix ?U ?L" by (rule not_nested [OF n])
  have lay: "layers_ok ls ?U ?L"
    using apart canonicalD(2) [OF c(1)] canonicalD(2) [OF c(2)] by (simp add: layers_ok_def)
  have "lower_dir (outside ?U k) ?L"
    using apart c(3) by (auto simp: lower_dir_def outside_def kind_at_def node_def split: bind_splits)
  moreover have "guarded ?U (outside ?U k) (base ?U ?L) k"
    using canonicalD(3) [OF c(1)] canonicalD(3) [OF c(2)]
    by (intro guarded_start [OF assms(3)]) (auto simp: no_links_def clear_to_def)
  ultimately have "guarded ?U (outside ?U k) (base ?U ?L) k2"
    using served_keeps [OF lay _ assms(4)] by (simp add: k1)
  then show ?thesis by (rule guardedD(3))
qed

text \<open>The sample file system meets the hypotheses.\<close>

lemma sample_table:
  "dir_table (sample_kernel sample_tree b) = [([], 0), ([''l''], 1), ([''u''], 2), ([''l'', ''f''], 3)]"
  by (simp add: sample_kernel_def sample_tree_def upt_rec)

lemma sample_kinds:
  "kind_at (sample_kernel sample_tree b) l =
     (if l = [] \<or> l = [''l''] \<or> l = [''u''] then Some Dir
      else if l = [''l'', ''f''] then Some (Reg ''abc'') else None)"
  by (simp add: kind_at_def node_def entry_def sample_table)
    (simp add: sample_kernel_def sample_tree_def node_of_def)

lemma sample_fresh: "fresh_overlay [''u''] (sample_kernel sample_tree b)"
proof -
  have "wf_kernel (sample_kernel sample_tree b)"
    unfolding wf_kernel_def placeable_def is_dir_at_def sample_kinds sample_table
    by (auto simp: sample_kernel_def sample_tree_def file_name_def)
  then show ?thesis
    unfolding fresh_overlay_def separate_def nothing_open_def no_links_def is_dir_at_def sample_kinds sample_table
    by (simp add: sample_kernel_def)
qed

lemma sample_start:
  "fst (start ''/'' 7 sample_argv (sample_kernel sample_tree b)) =
     Inr (Mount sample_layers [''jaim-overlay'', ''/m''])"
  by (cases b; simp only:; code_simp)

lemma sample_admissible: "admissible [''u''] L (Unlink ''/f'') (sample_kernel sample_tree b)"
proof -
  have p: "path_names ''/f'' = [''f'']" by code_simp
  show ?thesis
    by (simp add: admissible_def well_named_def p unmarked_def show_loc_def WH_PREFIX_def no_links_def sample_kinds)
qed

theorem overlay_confined_witness:
  "outside [''u''] (after [Unlink ''/f''] (snd (start ''/'' 7 sample_argv (sample_kernel sample_tree False)))) =
   outside [''u''] (sample_kernel sample_tree False)"
proof -
  let ?k = "sample_kernel sample_tree False"
  let ?k1 = "snd (start ''/'' 7 sample_argv ?k)"
  have st: "start ''/'' 7 sample_argv ?k = (Inr (Mount sample_layers [''jaim-overlay'', ''/m'']), ?k1)"
    using sample_start [of False] by (metis prod.collapse)
  have u: "upper_loc sample_layers = [''u'']" "upper sample_layers \<noteq> ''/''" by (simp_all only: sample_layers_def) code_simp+
  have "admissible [''u''] (lower_loc sample_layers) (Unlink ''/f'') ?k1"
    using sample_admissible [of "lower_loc sample_layers" False] reads_only_start [of "''/''" 7 sample_argv]
    unfolding reads_only_def admissible_def no_links_def by (metis kind_simps(3))
  then have "served sample_layers ?k1 (after [Unlink ''/f''] ?k1)"
    using served.request [of sample_layers "Unlink ''/f''" ?k1] by (simp add: u after_def)
  then show ?thesis
    using overlay_confined [OF st u(2) _ r_into_rtranclp, unfolded u(1), OF sample_fresh] by blast
qed

definition extends :: "path \<Rightarrow> path \<Rightarrow> bool" where
  "extends p q \<longleftrightarrow> length q > length p \<and> prefix p q \<and> q ! length p = SLASH"

lemma extends_prefix: "extends p q \<Longrightarrow> prefix (path_names p) (path_names q)"
proof -
  assume e: "extends p q"
  then obtain s where "q = p @ s" by (auto simp: extends_def prefix_def)
  with e obtain t where "q = p @ SLASH # t" by (cases s) (auto simp: extends_def)
  then show ?thesis by (simp add: path_names_append)
qed

lemma nested_sym: "nested p q = nested q p"
  by (auto simp: nested_def)

text \<open>The test of \<open>main\<close> on the two canonical paths says exactly that one layer lies in the other,
  as long as neither is the root directory.\<close>

theorem nested_exact:
  assumes "L \<noteq> []" and "U \<noteq> []" and "list_all file_name (L @ U)"
  shows "nested (show_loc L) (show_loc U) \<longleftrightarrow> prefix L U \<or> prefix U L"
proof
  assume n: "nested (show_loc L) (show_loc U)"
  have names: "path_names (show_loc L) = L" "path_names (show_loc U) = U"
    using assms(3) by (simp_all add: path_names_loc)
  from n consider "show_loc L = show_loc U" | "extends (show_loc U) (show_loc L)"
    | "extends (show_loc L) (show_loc U)" by (auto simp: nested_def extends_def)
  then show "prefix L U \<or> prefix U L"
    using names by cases (metis prefix_order.refl, metis extends_prefix, metis extends_prefix)
next
  assume "prefix L U \<or> prefix U L"
  then show "nested (show_loc L) (show_loc U)"
    using not_nested [OF _ assms(2)] not_nested [OF _ assms(1)] nested_sym by blast
qed

theorem nested_exact_witness:
  "nested (show_loc [''a'']) (show_loc [''a'', ''b'']) \<longleftrightarrow> prefix [''a''] [''a'', ''b''] \<or> prefix [''a'', ''b''] [''a'']"
  by (rule nested_exact) (simp_all add: file_name_def)

text \<open>With the root directory as the upper layer the test is silent, although every lower layer lies
  in it.\<close>

theorem root_upper_not_nested:
  assumes "L \<noteq> []" and "list_all file_name L"
  shows "\<not> nested (show_loc L) (show_loc [])"
proof -
  obtain c cs ns where "L = (c # cs) # ns" "c \<noteq> SLASH"
    using assms by (cases L; cases "hd L") (auto simp: file_name_def)
  then show ?thesis by (simp add: nested_def show_loc_def)
qed

theorem root_upper_not_nested_witness: "\<not> nested (show_loc [''l'']) (show_loc [])"
  by (rule root_upper_not_nested) (simp_all add: file_name_def)

end
