(* ===== verification/Overlay_Flaws.thy ===== *)
theory Overlay_Flaws
  imports Overlay_Safety
begin

text \<open>
  Where the overlay reaches outside its upper directory: the requests that \<open>admissible\<close> of the
  confinement theorem excludes.  Two calls follow a symbolic link of the upper layer, which a process
  in the sandbox may have made.
\<close>

text \<open>What the steps before do when the path is there, or is to be hidden.\<close>

lemma copied_up: "resolve ls p k = (Inr (kUpper q sb), k) \<Longrightarrow> copy_up ls p k = (Inr (), k)"
  by (simp add: copy_up_def bind_s_def return_s_def)

lemma changed_target:
  assumes "plans k = []" and "lookup_path k p True = Inr l" and "entry k l = Some i" and "inodes k i = Some nd"
  shows "sys_chmod p m k = (Inr (), set_inode i (nd\<lparr>i_mode := m\<rparr>) k)"
    and "sys_utimes p t t' k = (Inr (), set_inode i (nd\<lparr>i_atime := t, i_mtime := t'\<rparr>) k)"
  using assms by (simp_all add: sys_chmod_def sys_utimes_def change_node_def at_node_def at_path_def syscall_def)

lemma node_set_inode: "entry k l = Some i \<Longrightarrow> node (set_inode i nd k) l = Some nd"
  by (simp add: node_def entry_def set_inode_def)

text \<open>C40: A change of mode or of times of a path that is in the upper layer is made to what the path leads
  to through symbolic links, wherever that is: \<open>op_chmod\<close> and \<open>op_utimens\<close> call \<open>chmod\<close> and
  \<open>utimes\<close>, which follow links, where \<open>op_chown\<close> calls \<open>lchown\<close>.  So a link out of the upper layer
  lets a process in the sandbox take all permissions off a file outside.\<close>

theorem change_follows_link_outside:
  assumes "plans k = []" and "resolve ls p k = (Inr (kUpper q sb), k)"
    and "lookup_path k (join (upper ls) p) True = Inr l" and "node k l = Some nd"
  shows "fst (serve ls (Chmod p m) k) = Inr Done \<and>
     node (snd (serve ls (Chmod p m) k)) l = Some (nd\<lparr>i_mode := perm_bits m\<rparr>) \<and>
     fst (serve ls (Utimens p t t') k) = Inr Done \<and>
     node (snd (serve ls (Utimens p t t') k)) l = Some (nd\<lparr>i_atime := timeval t, i_mtime := timeval t'\<rparr>)"
proof -
  obtain i where i: "entry k l = Some i" "inodes k i = Some nd"
    using assms(4) by (auto simp: node_def bind_eq_Some_conv)
  note run = copied_up [OF assms(2)] changed_target [OF assms(1,3) i]
  show ?thesis
    by (simp_all add: op_chmod_def op_utimens_def replies_def bind_s_def return_s_def run node_set_inode i)
qed

text \<open>The sample: a link in the upper layer to a file outside.\<close>

definition linked_kernel :: overlay where
  "linked_kernel = sample_kernel (home_tree ''key'' @ [([''u'', ''x''], Lnk ''/h/secret''), ([''u'', ''.wh.f''], Lnk ''/h/secret'')]) False"

lemma read_result:
  fixes k :: overlay
  assumes "reads_only m" and "fst (m k) = r \<and> plans (snd (m k)) = plans k"
  shows "m k = (r, k)"
proof -
  obtain q where "snd (m k) = k\<lparr>plans := q\<rparr>" using assms(1) unfolding reads_only_def by blast
  with assms(2) show ?thesis by (cases "m k") simp
qed

theorem change_follows_link_outside_witness:
  "\<not> prefix (upper_loc sample_layers) [''h'', ''secret''] \<and>
   map_option i_mode (node linked_kernel [''h'', ''secret'']) = Some 493 \<and>
   map_option i_mode (node (snd (serve sample_layers (Chmod ''/x'' 0) linked_kernel)) [''h'', ''secret'']) = Some 0"
proof -
  have free: "plans linked_kernel = []" by (simp add: linked_kernel_def sample_kernel_def)
  have res: "resolve sample_layers ''/x'' linked_kernel = (Inr (kUpper ''/u/x'' (node_of (Lnk ''/h/secret''))), linked_kernel)"
    by (rule read_result [OF reads_only_resolve]) code_simp
  have target: "lookup_path linked_kernel (join (upper sample_layers) ''/x'') True = Inr [''h'', ''secret'']"
    by code_simp
  have nd: "node linked_kernel [''h'', ''secret''] = Some (node_of (Reg ''key''))" by code_simp
  have "\<not> prefix (upper_loc sample_layers) [''h'', ''secret'']" by code_simp
  then show ?thesis
    using change_follows_link_outside [OF free res target nd, of 0] nd
    by (simp add: node_of_def perm_bits_def)
qed




end
