(* ===== verification/Machine.thy ===== *)
theory Machine
  imports Kernel
begin

text \<open>
  The machine the program itself runs on: the store of \<open>Kernel\<close> with what the rest of the
  sources uses of a process and of macOS.  The overlay does not need these parts, so they
  extend the record of the kernel: the user and group ids of the process, the extended
  access-control lists of the files, and the warnings printed so far (\<open>warn\<close> of \<open>src/err.h\<close>,
  kept as the errors they show).
\<close>

section \<open>State\<close>

record ids =
  ruid :: nat
  euid :: nat
  suid :: nat
  rgid :: nat
  egid :: nat
  sgid :: nat
  group_list :: "nat list"

datatype acl_perm =
    ACL_READ_DATA | ACL_WRITE_DATA | ACL_APPEND_DATA | ACL_EXECUTE | ACL_DELETE | ACL_DELETE_CHILD
  | ACL_READ_ATTRIBUTES | ACL_WRITE_ATTRIBUTES | ACL_READ_EXTATTRIBUTES | ACL_WRITE_EXTATTRIBUTES
  | ACL_READ_SECURITY | ACL_WRITE_SECURITY | ACL_CHANGE_OWNER

datatype acl_flag = ACL_ENTRY_INHERITED | ACL_ENTRY_FILE_INHERIT | ACL_ENTRY_DIRECTORY_INHERIT

datatype acl_tag = ACL_EXTENDED_ALLOW | ACL_EXTENDED_DENY

text \<open>An entry may lack a qualifier; otherwise it names its principal by a \<open>uuid_t\<close>.\<close>

type_synonym uuid = nat

record ace =
  ace_tag :: acl_tag
  ace_qualifier :: "uuid option"
  ace_perms :: "acl_perm set"
  ace_flags :: "acl_flag set"

text \<open>
  \<open>acls\<close> has no value for an inode that never had a list.  \<open>dirent_types\<close> says whether the file
  system fills in the type of a directory entry.
\<close>

record machine = kernel +
  proc :: ids
  acls :: "ino \<Rightarrow> ace list option"
  dirent_types :: bool
  warned :: "error list"

type_synonym ('z, 'a) mstep = "('z machine_scheme, error, 'a) estep"

section \<open>Errors and warnings\<close>

text \<open>\<open>if (call) syserr(msg)\<close>\<close>

definition or_syserr :: "string \<Rightarrow> ('s, nat, 'a) estep \<Rightarrow> ('s, error, 'a) estep" where
  "or_syserr msg m s = (case m s of (Inl e, t) \<Rightarrow> (Inl (SysError e msg), t) | (Inr a, t) \<Rightarrow> (Inr a, t))"

definition call_on :: "string \<Rightarrow> path \<Rightarrow> string" where
  "call_on f p = f @ ''('' @ p @ '')''"

definition report :: "error \<Rightarrow> ('z, unit) mstep" where
  "report e = update_s (\<lambda>k. k\<lparr>warned := warned k @ [e]\<rparr>)"

text \<open>\<open>try { m } catch (const std::exception &e) { warn("{}", e.what()); }\<close>\<close>

definition warning :: "('z, unit) mstep \<Rightarrow> ('z, unit) mstep" where
  "warning m = bind_s (attempt m) (\<lambda>r. case r of Inl e \<Rightarrow> report e | Inr _ \<Rightarrow> return_s ())"

text \<open>A range-based \<open>for\<close>.\<close>

primrec for_each :: "'a list \<Rightarrow> ('a \<Rightarrow> ('s, 'e, unit) estep) \<Rightarrow> ('s, 'e, unit) estep" where
  "for_each [] f = return_s ()"
| "for_each (x # xs) f = bind_s (f x) (\<lambda>_. for_each xs f)"

text \<open>A library call with no effect that matters here; it may fail, for want of memory for instance.\<close>

definition library_call :: "('z, unit) sys" where
  "library_call = syscall (\<lambda>k. (Inr (), k))"

section \<open>Directory entries with their types\<close>

datatype dtype = DT_UNKNOWN | DT_DIR | DT_REG | DT_LNK | DT_OTHER

definition dtype_of :: "fkind \<Rightarrow> dtype" where
  "dtype_of k = (case k of Reg _ \<Rightarrow> DT_REG | Dir \<Rightarrow> DT_DIR | Lnk _ \<Rightarrow> DT_LNK | _ \<Rightarrow> DT_OTHER)"

definition entry_type :: "'z machine_scheme \<Rightarrow> loc \<Rightarrow> dtype" where
  "entry_type k l =
     (if dirent_types k then case kind_at k l of None \<Rightarrow> DT_UNKNOWN | Some kd \<Rightarrow> dtype_of kd
      else DT_UNKNOWN)"

definition dot_entry :: "string \<Rightarrow> bool" where
  "dot_entry n \<longleftrightarrow> n = ''.'' \<or> n = ''..''"

text \<open>
  \<open>opendir\<close> and the \<open>readdir\<close> calls up to the first that fails or the end: a plan \<open>Short n\<close> has
  the call after \<open>n\<close> entries fail, which the sources do not tell from the end.
\<close>

definition sys_readdir :: "path \<Rightarrow> ('z machine_ext, (string \<times> dtype) list) sys" where
  "sys_readdir p k =
     at_node p True (\<lambda>l i nd k'.
       if i_kind nd \<noteq> Dir then (Inl ENOTDIR, k')
       else
         let es = (''.'', DT_DIR) # (''..'', DT_DIR) # map (\<lambda>n. (n, entry_type k' (l @ [n]))) (children k' l)
         in (Inr (take (transferred k (length es)) es), k')) k"

section \<open>Access-control lists\<close>

definition acl_max_entries :: nat where "acl_max_entries = 128"

definition acl_entries :: "'z machine_scheme \<Rightarrow> ino \<Rightarrow> ace list" where
  "acl_entries k i = (case acls k i of None \<Rightarrow> [] | Some es \<Rightarrow> es)"

text \<open>\<open>acl_get_file\<close> and \<open>acl_set_file\<close> follow a symbolic link.  A file without a list gives \<open>ENOENT\<close>.\<close>

definition sys_acl_get :: "path \<Rightarrow> ('z machine_ext, ace list) sys" where
  "sys_acl_get p =
     at_node p True (\<lambda>l i nd k.
       case acls k i of None \<Rightarrow> (Inl ENOENT, k) | Some es \<Rightarrow> (Inr es, k))"

text \<open>Only the owner of a file and root may change its list, and a list has a maximal length.\<close>

definition may_set_acl :: "'z machine_scheme \<Rightarrow> inode \<Rightarrow> bool" where
  "may_set_acl k nd \<longleftrightarrow> euid (proc k) = 0 \<or> euid (proc k) = i_uid nd"

definition sys_acl_set :: "path \<Rightarrow> ace list \<Rightarrow> ('z machine_ext, unit) sys" where
  "sys_acl_set p es =
     at_node p True (\<lambda>l i nd k.
       if \<not> may_set_acl k nd then (Inl EPERM, k)
       else if length es > acl_max_entries then (Inl EINVAL, k)
       else (Inr (), k\<lparr>acls := (acls k)(i := Some es)\<rparr>))"

end
