(* ===== verification/Acl.thy ===== *)
theory Acl
  imports Machine
begin

unbundle bit_operations_syntax

text \<open>
  \<open>src/acl.cc\<close>: the entries that let the \<open>_jaim\<close> user of strict mode reach the granted files,
  added before the command starts and removed after it has ended.

  The membership service, which maps a user id to the \<open>uuid_t\<close> that the system stores, is the
  argument \<open>mbr\<close> of the operations: the identifier, or the errno that is reported.
\<close>

section \<open>Permissions\<close>

type_synonym perm_mask = "32 word"

definition kRead :: perm_mask where "kRead = push_bit 0 1"
definition kWrite :: perm_mask where "kWrite = push_bit 1 1"
definition kExecute :: perm_mask where "kExecute = push_bit 2 1"
definition kReadExec :: perm_mask where "kReadExec = kRead OR kExecute"
definition kReadWriteExec :: perm_mask where "kReadWriteExec = kRead OR kWrite OR kExecute"

definition add_perms :: "perm_mask \<Rightarrow> bool \<Rightarrow> acl_perm set \<Rightarrow> acl_perm set" where
  "add_perms perms is_dir ps =
     ps \<union>
     (if perms AND kRead \<noteq> 0 then
        {ACL_READ_DATA, ACL_READ_ATTRIBUTES, ACL_READ_EXTATTRIBUTES, ACL_READ_SECURITY} else {}) \<union>
     (if perms AND kWrite \<noteq> 0 then
        {ACL_WRITE_DATA, ACL_APPEND_DATA, ACL_WRITE_ATTRIBUTES, ACL_WRITE_EXTATTRIBUTES, ACL_DELETE} \<union>
        (if is_dir then {ACL_DELETE_CHILD} else {})
      else {}) \<union>
     (if perms AND kExecute \<noteq> 0 then {ACL_EXECUTE} else {})"

section \<open>One file\<close>

type_synonym members = "nat \<Rightarrow> nat + uuid"

definition uid_to_uuid :: "members \<Rightarrow> nat \<Rightarrow> error + uuid" where
  "uid_to_uuid mbr uid =
     (case mbr uid of
        Inl e \<Rightarrow> Inl (SysError e (''mbr_uid_to_uuid('' @ show_nat uid @ '')''))
      | Inr u \<Rightarrow> Inr u)"

definition path_is_dir :: "path \<Rightarrow> ('z, bool) mstep" where
  "path_is_dir p =
     bind_s (or_syserr (call_on ''lstat'' p) (sys_lstat p)) (\<lambda>sb. return_s (i_kind sb = Dir))"

definition is_symlink :: "dtype \<Rightarrow> path \<Rightarrow> ('z, bool) mstep" where
  "is_symlink d full =
     (if d = DT_LNK then return_s True
      else if d \<noteq> DT_UNKNOWN then return_s False
      else bind_s (attempt (sys_lstat full)) (\<lambda>r.
        case r of
          Inl e \<Rightarrow> return_s True
        | Inr sb \<Rightarrow> return_s (case i_kind sb of Lnk _ \<Rightarrow> True | _ \<Rightarrow> False)))"

text \<open>The list of a file, or \<open>None\<close> where the call gives none with errno \<open>ENOENT\<close> or 0.\<close>

definition fetch_acl :: "path \<Rightarrow> ('z, ace list option) mstep" where
  "fetch_acl p =
     bind_s (attempt (sys_acl_get p)) (\<lambda>r.
       case r of
         Inl e \<Rightarrow>
           if e = ENOENT \<or> e = 0 then return_s None
           else throw_s (SysError e (call_on ''acl_get_file'' p))
       | Inr es \<Rightarrow> return_s (Some es))"

definition new_entry :: "uuid \<Rightarrow> perm_mask \<Rightarrow> bool \<Rightarrow> ace" where
  "new_entry uu perms is_dir =
     \<lparr>ace_tag = ACL_EXTENDED_ALLOW, ace_qualifier = Some uu,
      ace_perms = add_perms perms is_dir {},
      ace_flags = (if is_dir then {ACL_ENTRY_FILE_INHERIT, ACL_ENTRY_DIRECTORY_INHERIT} else {})\<rparr>"

definition library_on :: "string \<Rightarrow> path \<Rightarrow> ('z, unit) mstep" where
  "library_on f p = or_syserr (call_on f p) library_call"

definition do_add_allow_user :: "members \<Rightarrow> path \<Rightarrow> nat \<Rightarrow> perm_mask \<Rightarrow> bool \<Rightarrow> ('z, unit) mstep" where
  "do_add_allow_user mbr p uid perms is_dir =
     bind_s (fetch_acl p) (\<lambda>found.
     bind_s (case found of None \<Rightarrow> or_syserr ''acl_init'' library_call | Some _ \<Rightarrow> return_s ()) (\<lambda>_.
     bind_s (library_on ''acl_create_entry'' p) (\<lambda>_.
     bind_s (library_on ''acl_set_tag_type'' p) (\<lambda>_.
     bind_s (lift_s (uid_to_uuid mbr uid)) (\<lambda>uu.
     bind_s (library_on ''acl_set_qualifier'' p) (\<lambda>_.
     bind_s (library_on ''acl_get_permset'' p) (\<lambda>_.
     bind_s (library_on ''acl_set_permset'' p) (\<lambda>_.
     bind_s (if is_dir then
               bind_s (library_on ''acl_get_flagset_np'' p) (\<lambda>_. library_on ''acl_set_flagset_np'' p)
             else return_s ()) (\<lambda>_.
       or_syserr (call_on ''acl_set_file'' p)
         (sys_acl_set p (case_option [] id found @ [new_entry uu perms is_dir])))))))))))"

text \<open>
  The loop of \<open>do_remove_user_entries\<close>: find the first entry of the user, delete it, start again.
\<close>

definition names_user :: "uuid \<Rightarrow> ace \<Rightarrow> bool" where
  "names_user uu a \<longleftrightarrow> ace_qualifier a = Some uu"

fun first_entry :: "uuid \<Rightarrow> ace list \<Rightarrow> nat option" where
  "first_entry uu [] = None"
| "first_entry uu (a # es) =
     (if names_user uu a then Some 0 else map_option Suc (first_entry uu es))"

lemma first_entry_less: "first_entry uu es = Some i \<Longrightarrow> i < length es"
  by (induction es arbitrary: i) (auto split: if_splits)

function delete_entries :: "path \<Rightarrow> uuid \<Rightarrow> ace list \<Rightarrow> bool \<Rightarrow> ('z, ace list \<times> bool) mstep" where
  "delete_entries p uu es changed =
     (case first_entry uu es of
        None \<Rightarrow> return_s (es, changed)
      | Some i \<Rightarrow>
          bind_s (library_on ''acl_delete_entry'' p) (\<lambda>_.
            delete_entries p uu (take i es @ drop (Suc i) es) True))"
  by pat_completeness auto
termination
  by (relation "measure (\<lambda>(p, uu, es, changed). length es)") (auto dest: first_entry_less)

declare delete_entries.simps [simp del]

definition do_remove_user_entries :: "path \<Rightarrow> uuid \<Rightarrow> ('z, unit) mstep" where
  "do_remove_user_entries p uu =
     bind_s (fetch_acl p) (\<lambda>found.
       case found of
         None \<Rightarrow> return_s ()
       | Some es \<Rightarrow>
           bind_s (delete_entries p uu es False) (\<lambda>(es', changed).
             if \<not> changed then return_s ()
             else or_syserr (call_on ''acl_set_file'' p) (sys_acl_set p es')))"

section \<open>A tree\<close>

text \<open>
  \<open>walk_tree\<close>, with a bound on the depth: \<open>sweep\<close> gives it one that is never reached, as every
  level adds a name to the location and the store is finite.
\<close>

definition descend :: "(path \<Rightarrow> ('z, unit) mstep) \<Rightarrow> path \<Rightarrow> string \<times> dtype \<Rightarrow> ('z, unit) mstep" where
  "descend down p de =
     (let (name, ty) = de in
      if dot_entry name then return_s ()
      else
        let child = path_append p name in
        bind_s (is_symlink ty child) (\<lambda>skip. if skip then return_s () else down child))"

definition each_entry :: "(path \<Rightarrow> ('z, unit) mstep) \<Rightarrow> path \<Rightarrow> ('z, unit) mstep" where
  "each_entry down p =
     bind_s (attempt (sys_readdir p)) (\<lambda>d.
       case d of
         Inl e \<Rightarrow> report (SysError e (call_on ''opendir'' p))
       | Inr es \<Rightarrow> for_each es (descend down p))"

primrec walk_tree :: "nat \<Rightarrow> (path \<Rightarrow> bool \<Rightarrow> ('z, unit) mstep) \<Rightarrow> path \<Rightarrow> ('z, unit) mstep" where
  "walk_tree 0 fn p = return_s ()"
| "walk_tree (Suc n) fn p =
     bind_s (attempt (sys_lstat p)) (\<lambda>r.
       case r of
         Inl e \<Rightarrow> report (SysError e (call_on ''lstat'' p))
       | Inr sb \<Rightarrow>
           (case i_kind sb of
              Lnk _ \<Rightarrow> return_s ()
            | _ \<Rightarrow>
                bind_s (warning (fn p (i_kind sb = Dir))) (\<lambda>_.
                  if i_kind sb \<noteq> Dir then return_s () else each_entry (walk_tree n fn) p)))"

definition sweep :: "(path \<Rightarrow> bool \<Rightarrow> ('z, unit) mstep) \<Rightarrow> path \<Rightarrow> ('z, unit) mstep" where
  "sweep fn p k = walk_tree (Suc (length (dir_table k))) fn p k"

section \<open>The interface of acl.h\<close>

definition add_allow_user :: "members \<Rightarrow> path \<Rightarrow> nat \<Rightarrow> perm_mask \<Rightarrow> ('z, unit) mstep" where
  "add_allow_user mbr p uid perms =
     bind_s (path_is_dir p) (\<lambda>is_dir. do_add_allow_user mbr p uid perms is_dir)"

definition apply_recursive :: "members \<Rightarrow> path \<Rightarrow> nat \<Rightarrow> perm_mask \<Rightarrow> ('z, unit) mstep" where
  "apply_recursive mbr p uid perms =
     sweep (\<lambda>cp is_dir. do_add_allow_user mbr cp uid perms is_dir) p"

definition remove_user_entries :: "members \<Rightarrow> path \<Rightarrow> nat \<Rightarrow> ('z, unit) mstep" where
  "remove_user_entries mbr p uid =
     bind_s (lift_s (uid_to_uuid mbr uid)) (\<lambda>target. do_remove_user_entries p target)"

definition remove_recursive :: "members \<Rightarrow> path \<Rightarrow> nat \<Rightarrow> ('z, unit) mstep" where
  "remove_recursive mbr p uid =
     bind_s (lift_s (uid_to_uuid mbr uid)) (\<lambda>target.
       sweep (\<lambda>cp is_dir. do_remove_user_entries cp target) p)"

end
