(* ===== verification/Machine_Facts.thy ===== *)
theory Machine_Facts
  imports Machine Kernel_Facts
begin

text \<open>
  How paths resolve below a directory, and what the steps of the machine leave alone.
\<close>

section \<open>Resolution below a directory\<close>

lemma file_name_plain: "file_name c \<Longrightarrow> c \<noteq> ''.'' \<and> c \<noteq> ''..''"
  by (simp add: file_name_def)

lemma path_names_child: "file_name c \<Longrightarrow> path_names (path_append p c) = path_names p @ [c]"
  by (cases c) (auto simp: file_name_def path_names_path_append path_names_single is_absolute_def)

lemma walk_single:
  "file_name c \<Longrightarrow> walk n kinds d [c] False = (if kinds d = Some Dir then Inr (d @ [c]) else Inl ENOTDIR)"
  by (auto simp: walk.simps(2) file_name_def split: option.split fkind.split)

text \<open>The parent is resolved through its links whether or not the last name is.\<close>

lemma walk_snoc:
  assumes c: "file_name c"
  shows "walk n kinds d (ns @ [c]) False = Inr m \<longleftrightarrow>
     (\<exists>l. walk n kinds d ns True = Inr l \<and> kinds l = Some Dir \<and> m = l @ [c])"
proof (induction n kinds d ns "True" rule: walk.induct)
  case (1 n kinds d)
  then show ?case using c by (auto simp: walk_single)
next
  case (2 n kinds d x cs)
  show ?case
  proof (cases "kinds d = Some Dir \<and> x \<noteq> ''.'' \<and> x \<noteq> ''..''")
    case False
    then show ?thesis using 2(1,2) by (auto simp: walk.simps(2))
  next
    case True
    show ?thesis
    proof (cases "kinds (d @ [x])")
      case None
      then show ?thesis using True by (auto simp: walk.simps(2))
    next
      case (Some k)
      show ?thesis
      proof (cases k)
        case (Lnk t)
        then show ?thesis
          using True Some 2(5) [of "Lnk t" t] by (cases "n = 0") (simp_all add: walk.simps(2))
      qed (use True Some 2 in \<open>auto simp: walk.simps(2)\<close>)
    qed
  qed
qed

lemma walk_nofollow:
  "walk n kinds d ns False = Inr l \<Longrightarrow> \<forall>t. kinds l \<noteq> Some (Lnk t) \<Longrightarrow> walk n kinds d ns True = Inr l"
proof (induction n kinds d ns "False" rule: walk.induct)
  case (2 n kinds d x cs)
  show ?case
  proof (cases "kinds d = Some Dir \<and> x \<noteq> ''.'' \<and> x \<noteq> ''..''")
    case False
    then show ?thesis using 2 by (auto simp: walk.simps(2) split: if_splits)
  next
    case True
    then show ?thesis
      using 2(3-) by (auto simp: walk.simps(2) split: option.splits fkind.splits if_splits)
  qed
qed simp

lemma lookup_child:
  "file_name c \<Longrightarrow> lookup_path k (path_append p c) False = Inr m \<longleftrightarrow>
     (\<exists>l. lookup_path k p True = Inr l \<and> is_dir_at k l \<and> m = l @ [c])"
  by (simp add: lookup_path_def path_names_child walk_snoc is_dir_at_def)

lemma lookup_nofollow:
  "lookup_path k p False = Inr l \<Longrightarrow> \<forall>t. kind_at k l \<noteq> Some (Lnk t) \<Longrightarrow> lookup_path k p True = Inr l"
  by (simp add: lookup_path_def walk_nofollow)

section \<open>Calls\<close>

lemma at_node_cases:
  assumes "at_node p follow f s = (r, t)"
  obtains (failed) e q where "r = Inl e" "t = s\<lparr>plans := q\<rparr>" "set q \<subseteq> set (plans s)"
      "Fail e \<in> set (plans s) \<or>
       (\<forall>l i. lookup_path s p follow = Inr l \<longrightarrow> entry s l = Some i \<longrightarrow> inodes s i = None)"
  | (reached) l i nd q where "lookup_path s p follow = Inr l" "entry s l = Some i"
      "inodes s i = Some nd" "f l i nd (s\<lparr>plans := q\<rparr>) = (r, t)" "set q \<subseteq> set (plans s)"
proof -
  have run: thesis
    if q: "s' = s\<lparr>plans := q\<rparr>" "set q \<subseteq> set (plans s)"
      and m: "(case lookup_path s' p follow of Inl e \<Rightarrow> (Inl e, s') | Inr l \<Rightarrow>
        (case entry s' l of None \<Rightarrow> (Inl ENOENT, s')
         | Some i \<Rightarrow> (case inodes s' i of None \<Rightarrow> (Inl ENOENT, s') | Some nd \<Rightarrow> f l i nd s'))) = (r, t)"
    for s' q
    using m failed reached q(2) unfolding q(1)
    by (auto split: sum.splits option.splits)
  show ?thesis
  proof (cases "plans s")
    case Nil
    then have "s = s\<lparr>plans := []\<rparr>" by simp
    from run [OF this] show ?thesis using assms Nil by (simp add: at_node_def at_path_def syscall_def)
  next
    case (Cons pl ps)
    then have sub: "set ps \<subseteq> set (plans s)" by auto
    show ?thesis
    proof (cases pl)
      case (Fail e)
      then show ?thesis using failed [of e ps] assms Cons by (auto simp: at_node_def at_path_def syscall_def)
    qed (use run [OF refl sub] assms Cons in \<open>simp_all add: at_node_def at_path_def syscall_def\<close>)
  qed
qed

lemma triple_at_node:
  assumes "\<And>s q. P s \<Longrightarrow> set q \<subseteq> set (plans s) \<Longrightarrow> R (s\<lparr>plans := q\<rparr>)"
    and "\<And>s q l i nd. P s \<Longrightarrow> lookup_path s p follow = Inr l \<Longrightarrow> entry s l = Some i \<Longrightarrow>
      inodes s i = Some nd \<Longrightarrow> set q \<subseteq> set (plans s) \<Longrightarrow>
      (case f l i nd (s\<lparr>plans := q\<rparr>) of (Inr a, t) \<Rightarrow> Q a t | (Inl e, t) \<Rightarrow> R t)"
  shows "triple P (at_node p follow f) Q R"
proof (rule tripleI)
  fix s a t assume P: "P s" and m: "at_node p follow f s = (Inr a, t)"
  from m show "Q a t"
  proof (cases rule: at_node_cases)
    case (reached l i nd q)
    with assms(2) [OF P reached(1-3), of q] show ?thesis by simp
  qed simp
next
  fix s e t assume P: "P s" and m: "at_node p follow f s = (Inl e, t)"
  from m show "R t"
  proof (cases rule: at_node_cases)
    case (reached l i nd q)
    with assms(2) [OF P reached(1-3), of q] show ?thesis by simp
  qed (use assms(1) P in simp)
qed

lemma at_node_ok:
  "plans s = [] \<Longrightarrow> lookup_path s p follow = Inr l \<Longrightarrow> entry s l = Some i \<Longrightarrow> inodes s i = Some nd \<Longrightarrow>
   at_node p follow f s = f l i nd s"
  by (simp add: at_node_def at_path_def syscall_def)

lemma triple_bind_attempt:
  assumes "triple P m Q R" and "\<And>a. triple (Q a) (k (Inr a)) S E" and "\<And>e. triple R (k (Inl e)) S E"
  shows "triple P (bind_s (attempt m) k) S E"
proof (rule triple_bind [OF triple_attempt [OF assms(1)]])
  fix r
  show "triple (\<lambda>s. case r of Inl e \<Rightarrow> R s | Inr a \<Rightarrow> Q a s) (k r) S E"
    using assms(2,3) by (cases r) simp_all
qed

lemma triple_assume: "(C \<Longrightarrow> triple I m Q R) \<Longrightarrow> triple (\<lambda>s. I s \<and> C) m Q R"
  by (auto simp: triple_def)

lemma triple_or_syserr:
  assumes "triple P m Q R"
  shows "triple P (or_syserr msg m) Q R"
  by (rule tripleI)
    (auto simp: or_syserr_def split: prod.splits sum.splits intro: triple_Inr [OF assms] triple_Inl [OF assms])

lemma or_syserr_Inr: "m s = (Inr a, t) \<Longrightarrow> or_syserr msg m s = (Inr a, t)"
  by (simp add: or_syserr_def)

lemma or_syserr_Inl: "m s = (Inl e, t) \<Longrightarrow> or_syserr msg m s = (Inl (SysError e msg), t)"
  by (simp add: or_syserr_def)

lemma keeps_or_syserr: "keeps I m \<Longrightarrow> keeps I (or_syserr msg m)"
  by (simp add: keeps_iff_triple triple_or_syserr)

lemma keeps_warn: "(\<And>s ws. I s \<Longrightarrow> I (s\<lparr>warned := ws\<rparr>)) \<Longrightarrow> keeps I (report e)"
  by (simp add: report_def keeps_update)

lemma keeps_warning:
  "keeps I m \<Longrightarrow> (\<And>s ws. I s \<Longrightarrow> I (s\<lparr>warned := ws\<rparr>)) \<Longrightarrow> keeps I (warning m)"
  unfolding warning_def by (intro keeps_bind keeps_attempt) (simp_all add: keeps_warn split: sum.split)

lemma keeps_for_each: "(\<And>x. x \<in> set xs \<Longrightarrow> keeps I (f x)) \<Longrightarrow> keeps I (for_each xs f)"
  by (induction xs) auto

lemma keeps_library_call:
  "(\<And>s q. I s \<Longrightarrow> set q \<subseteq> set (plans s) \<Longrightarrow> I (s\<lparr>plans := q\<rparr>)) \<Longrightarrow> keeps I library_call"
proof (rule keepsI)
  fix s assume "\<And>s q. I s \<Longrightarrow> set q \<subseteq> set (plans s) \<Longrightarrow> I (s\<lparr>plans := q\<rparr>)" "I s"
  then show "I (snd (library_call s))"
    by (force simp: library_call_def syscall_def split: list.split plan.split)
qed

lemma warning_never_throws: "\<exists>t. warning m s = (Inr (), t)"
  by (auto simp: warning_def bind_s_def attempt_def report_def update_s_def return_s_def
      split: prod.split sum.split)

text \<open>Steps that catch all their errors, and loops of them.\<close>

definition no_throw :: "('s, 'e, unit) estep \<Rightarrow> bool" where
  "no_throw m \<longleftrightarrow> (\<forall>s. \<exists>t. m s = (Inr (), t))"

lemma no_throw_eq: "no_throw m \<Longrightarrow> m s = (Inr (), snd (m s))"
  unfolding no_throw_def by (metis snd_conv)

lemma no_throw_return: "no_throw (return_s ())"
  by (simp add: no_throw_def return_s_def)

lemma no_throw_warn: "no_throw (report e)"
  by (simp add: no_throw_def report_def update_s_def)

lemma no_throw_warning: "no_throw (warning m)"
  by (simp add: no_throw_def warning_never_throws)

lemma no_throw_bind: "no_throw m \<Longrightarrow> (\<And>a. no_throw (k a)) \<Longrightarrow> no_throw (bind_s m k)"
  unfolding no_throw_def by (metis bind_s_Inr)

lemma no_throw_attempt: "(\<And>r. no_throw (k r)) \<Longrightarrow> no_throw (bind_s (attempt m) k)"
  by (simp add: no_throw_def bind_s_def attempt_def split: prod.split)

lemma no_throw_for_each: "(\<And>x. no_throw (f x)) \<Longrightarrow> no_throw (for_each xs f)"
  by (induction xs) (auto intro: no_throw_return no_throw_bind)

lemma no_throw_run: "no_throw m \<Longrightarrow> bind_s m k s = k () (snd (m s))"
  unfolding no_throw_def by (metis bind_s_Inr snd_conv)

lemma for_each_reaches:
  assumes "x \<in> set xs" and "\<And>y. y \<in> set xs \<Longrightarrow> keeps I (f y)" and "\<And>y. no_throw (f y)"
    and "\<And>y. y \<in> set xs \<Longrightarrow> keeps (\<lambda>s. I s \<and> Q s) (f y)" and "\<And>s. I s \<Longrightarrow> Q (snd (f x s))" and "I s"
  shows "Q (snd (for_each xs f s))"
  using assms(1,2,4,6)
proof (induction xs arbitrary: s)
  case (Cons y ys)
  have "keeps I (f y)" by (simp add: Cons.prems(2))
  then have I: "I (snd (f y s))" using Cons.prems(4) by (rule keepsD)
  have run: "for_each (y # ys) f s = for_each ys f (snd (f y s))"
    using no_throw_run [OF assms(3)] by simp
  show ?case
  proof (cases "x \<in> set ys")
    case True
    show ?thesis unfolding run
      by (rule Cons.IH [OF True]) (simp_all add: Cons.prems(2,3) I)
  next
    case False
    then have "I (snd (f y s)) \<and> Q (snd (f y s))" using Cons.prems(1,4) assms(5) I by simp
    moreover have "keeps (\<lambda>s. I s \<and> Q s) (for_each ys f)"
      by (rule keeps_for_each) (simp add: Cons.prems(3))
    ultimately show ?thesis unfolding run keeps_def by blast
  qed
qed simp

section \<open>Steps that leave the store alone\<close>

definition same_store :: "'z machine_scheme \<Rightarrow> 'z machine_scheme \<Rightarrow> bool" where
  "same_store k0 k \<longleftrightarrow>
     dir_table k = dir_table k0 \<and> inodes k = inodes k0 \<and> proc k = proc k0 \<and>
     dirent_types k = dirent_types k0 \<and> next_ino k = next_ino k0 \<and> fds k = fds k0 \<and>
     machine.more k = machine.more k0"

lemma same_store_refl [simp]: "same_store k k"
  by (simp add: same_store_def)

lemma same_storeD:
  assumes "same_store k0 k"
  shows "entry k = entry k0" "inodes k = inodes k0" "kind_at k = kind_at k0"
    "lookup_path k = lookup_path k0" "children k = children k0" "is_dir_at k = is_dir_at k0"
    "entry_type k = entry_type k0" "may_set_acl k = may_set_acl k0" "dir_table k = dir_table k0"
    "proc k = proc k0"
proof -
  show d: "dir_table k = dir_table k0" and i: "inodes k = inodes k0" and p: "proc k = proc k0"
    using assms by (simp_all add: same_store_def)
  show e: "entry k = entry k0" and c: "children k = children k0"
    using d by (simp_all add: entry_def children_def fun_eq_iff)
  show kd: "kind_at k = kind_at k0" using e i by (simp add: kind_at_def [abs_def] node_def [abs_def])
  show "lookup_path k = lookup_path k0" "is_dir_at k = is_dir_at k0"
    using kd by (simp_all add: lookup_path_def [abs_def] is_dir_at_def [abs_def])
  show "entry_type k = entry_type k0"
    using kd assms by (simp add: entry_type_def same_store_def fun_eq_iff)
  show "may_set_acl k = may_set_acl k0" using p by (simp add: may_set_acl_def fun_eq_iff)
qed

lemma same_store_wf: "same_store k0 k \<Longrightarrow> wf_kernel k = wf_kernel k0"
  using same_storeD(6) [of k0 k] by (simp add: same_store_def wf_kernel_def placeable_def)

lemma same_store_updates [simp]:
  "same_store k0 (k\<lparr>plans := q\<rparr>) = same_store k0 k"
  "same_store k0 (k\<lparr>warned := ws\<rparr>) = same_store k0 k"
  "same_store k0 (k\<lparr>acls := a\<rparr>) = same_store k0 k"
  by (simp_all add: same_store_def)

text \<open>What \<open>lstat\<close> and \<open>readdir\<close> tell of a store that the steps before them left alone.\<close>

definition settled :: "'z machine_scheme \<Rightarrow> ('z machine_scheme \<Rightarrow> bool) \<Rightarrow> bool" where
  "settled k0 I \<longleftrightarrow>
     (\<forall>s. I s \<longrightarrow> same_store k0 s) \<and>
     (\<forall>s q. I s \<longrightarrow> set q \<subseteq> set (plans s) \<longrightarrow> I (s\<lparr>plans := q\<rparr>)) \<and>
     (\<forall>s ws. I s \<longrightarrow> I (s\<lparr>warned := ws\<rparr>))"

lemma settledD:
  assumes "settled k0 I"
  shows "I s \<Longrightarrow> same_store k0 s" "I s \<Longrightarrow> set q \<subseteq> set (plans s) \<Longrightarrow> I (s\<lparr>plans := q\<rparr>)"
    and "I s \<Longrightarrow> I (s\<lparr>warned := ws\<rparr>)"
  using assms by (simp_all add: settled_def)

lemma triple_lstat:
  assumes "settled k0 I"
  shows "triple I (sys_lstat p)
     (\<lambda>sb s. I s \<and> (\<exists>l i. lookup_path k0 p False = Inr l \<and> entry k0 l = Some i \<and> inodes k0 i = Some sb)) I"
  unfolding sys_lstat_def
proof (rule triple_at_node)
  fix s q l i nd
  assume "I s" "lookup_path s p False = Inr l" "entry s l = Some i" "inodes s i = Some nd"
    "set q \<subseteq> set (plans s)"
  then show "case (Inr nd, s\<lparr>plans := q\<rparr>) of
      (Inl e, t) \<Rightarrow> I t
    | (Inr sb, s) \<Rightarrow> I s \<and> (\<exists>l i. lookup_path k0 p False = Inr l \<and> entry k0 l = Some i \<and> inodes k0 i = Some sb)"
    using settledD [OF assms] same_storeD [of k0 s] by auto
qed (use settledD [OF assms] in auto)

lemma triple_readdir:
  assumes "settled k0 I" and "wf_kernel k0"
  shows "triple I (sys_readdir p)
     (\<lambda>es s. I s \<and> (\<exists>l. lookup_path k0 p True = Inr l \<and>
        (\<forall>(n, ty) \<in> set es. dot_entry n \<or> n \<in> set (children k0 l) \<and> file_name n))) I"
proof (rule tripleI)
  note sd = settledD [OF assms(1)]
  fix s a t assume I: "I s" and run: "sys_readdir p s = (Inr a, t)"
  from run show "I t \<and> (\<exists>l. lookup_path k0 p True = Inr l \<and>
        (\<forall>(n, ty) \<in> set a. dot_entry n \<or> n \<in> set (children k0 l) \<and> file_name n))"
    unfolding sys_readdir_def
  proof (cases rule: at_node_cases)
    case (reached l i nd q)
    let ?es = "(''.'', DT_DIR) # (''..'', DT_DIR) # map (\<lambda>n. (n, entry_type s (l @ [n]))) (children s l)"
    have t: "t = s\<lparr>plans := q\<rparr>" and a: "set a \<subseteq> set ?es"
      using reached(4) same_storeD(5,7) [of s "s\<lparr>plans := q\<rparr>"]
      by (auto simp: Let_def simp del: set_simps dest: in_set_takeD split: if_splits)
    have "file_name n" if "n \<in> set (children s l)" for n
      using that assms(2) same_storeD [OF sd(1) [OF I]] entry_names [OF assms(2), of "l @ [n]"]
      by (auto simp: children_entry)
    then show ?thesis
      using t a reached(1,5) I sd same_storeD [OF sd(1) [OF I]] by (auto simp: dot_entry_def dest!: subsetD)
  qed simp
next
  fix s e t assume I: "I s" and run: "sys_readdir p s = (Inl e, t)"
  from run show "I t"
    unfolding sys_readdir_def
    by (cases rule: at_node_cases) (use I settledD [OF assms(1)] in \<open>auto simp: Let_def split: if_splits\<close>)
qed

lemma readdir_ok:
  assumes "plans s = []" and "lookup_path s p True = Inr l" and "entry s l = Some i"
    and "inodes s i = Some nd" and "i_kind nd = Dir"
  shows "sys_readdir p s =
     (Inr ((''.'', DT_DIR) # (''..'', DT_DIR) # map (\<lambda>n. (n, entry_type s (l @ [n]))) (children s l)), s)"
  unfolding sys_readdir_def
  by (subst at_node_ok [OF assms(1-4)]) (simp add: assms(1,5) transferred_def Let_def)

lemma lstat_ok:
  "plans s = [] \<Longrightarrow> lookup_path s p False = Inr l \<Longrightarrow> entry s l = Some i \<Longrightarrow> inodes s i = Some nd \<Longrightarrow>
   sys_lstat p s = (Inr nd, s)"
  unfolding sys_lstat_def by (simp add: at_node_ok)

end
