(* ===== verification/Acl_Facts.thy ===== *)
theory Acl_Facts
  imports Acl Machine_Facts
begin

text \<open>
  What adding and removing entries does to the lists of a tree.  A \<open>visitor\<close> is what
  \<open>walk_tree\<close> calls on every file: the facts on the walk are proved once, from what a visitor
  promises, and hold of both directions.
\<close>

section \<open>Lists\<close>

definition others :: "uuid \<Rightarrow> ace list \<Rightarrow> ace list" where
  "others uu es = filter (\<lambda>a. \<not> names_user uu a) es"

lemma others_id: "others uu es = es \<longleftrightarrow> (\<forall>a \<in> set es. \<not> names_user uu a)"
  by (simp add: others_def filter_id_conv)

lemma others_append [simp]: "others uu (xs @ ys) = others uu xs @ others uu ys"
  by (simp add: others_def)

lemma others_idem [simp]: "others uu (others uu es) = others uu es"
  by (simp add: others_def)

lemma others_Nil [simp]: "others uu [] = []"
  by (simp add: others_def)

lemma first_entry_None: "first_entry uu es = None \<longleftrightarrow> others uu es = es"
  unfolding others_id by (induction es) auto

lemma first_entry_Some:
  assumes "first_entry uu es = Some i"
  shows "others uu (take i es @ drop (Suc i) es) = others uu es" and "others uu es \<noteq> es"
proof -
  show "others uu es \<noteq> es" using assms first_entry_None [of uu es] by auto
  show "others uu (take i es @ drop (Suc i) es) = others uu es"
    using assms by (induction es arbitrary: i) (auto simp: others_def split: if_splits)
qed

text \<open>Deleting one entry at a time and starting over computes a filter.\<close>

lemma delete_entries_result:
  "delete_entries p uu es changed s = (Inr (es', changed'), t) \<Longrightarrow>
   es' = others uu es \<and> changed' = (changed \<or> others uu es \<noteq> es)"
proof (induction "length es" arbitrary: es changed s rule: less_induct)
  case less
  show ?case
  proof (cases "first_entry uu es")
    case None
    then show ?thesis using less.prems first_entry_None [of uu es]
      by (auto simp: delete_entries.simps [of p uu es] return_s_def)
  next
    case (Some i)
    note i = first_entry_Some [OF Some] and len = first_entry_less [OF Some]
    let ?es = "take i es @ drop (Suc i) es"
    from less.prems Some obtain s' where "delete_entries p uu ?es True s' = (Inr (es', changed'), t)"
      by (subst (asm) delete_entries.simps) (auto simp: bind_s_def split: prod.splits sum.splits)
    from less.hyps [OF _ this] len show ?thesis using i by simp
  qed
qed

lemma keeps_delete_entries:
  assumes "keeps I library_call"
  shows "keeps I (delete_entries p uu es changed)"
proof (induction "length es" arbitrary: es changed rule: less_induct)
  case less
  show ?case
  proof (cases "first_entry uu es")
    case (Some i)
    with less first_entry_less [OF Some] show ?thesis
      by (subst delete_entries.simps) (auto simp: library_on_def assms intro!: keeps_bind keeps_or_syserr)
  qed (simp add: delete_entries.simps [of p uu es])
qed

lemma delete_entries_ok:
  "plans s = [] \<Longrightarrow> delete_entries p uu es changed s = (Inr (others uu es, changed \<or> others uu es \<noteq> es), s)"
proof (induction "length es" arbitrary: es changed rule: less_induct)
  case less
  show ?case
  proof (cases "first_entry uu es")
    case None
    then show ?thesis using first_entry_None [of uu es]
      by (simp add: delete_entries.simps [of p uu es] return_s_def)
  next
    case (Some i)
    note i = first_entry_Some [OF Some] and len = first_entry_less [OF Some]
    have "library_on ''acl_delete_entry'' p s = (Inr (), s)"
      using less.prems by (simp add: library_on_def library_call_def syscall_def or_syserr_def)
    with less.hyps [of "take i es @ drop (Suc i) es" True] Some i len less.prems
    show ?thesis by (subst delete_entries.simps) (simp add: bind_s_def)
  qed
qed

section \<open>One file\<close>

text \<open>
  \<open>edits A uu k0 k\<close>: from \<open>k0\<close> to \<open>k\<close>, only the lists of inodes in \<open>A\<close> that the process may write
  have changed, and there only the entries of \<open>uu\<close>.  The plans must not report a missing list
  for a file that has one: the program takes \<open>ENOENT\<close> and 0 to mean that there is none.
\<close>

definition truthful :: "'z machine_scheme \<Rightarrow> bool" where
  "truthful k \<longleftrightarrow> Fail ENOENT \<notin> set (plans k) \<and> Fail 0 \<notin> set (plans k)"

definition acl_writable :: "'z machine_scheme \<Rightarrow> ino set" where
  "acl_writable k = {i. \<exists>nd. inodes k i = Some nd \<and> may_set_acl k nd}"

definition edits :: "ino set \<Rightarrow> uuid \<Rightarrow> 'z machine_scheme \<Rightarrow> 'z machine_scheme \<Rightarrow> bool" where
  "edits A uu k0 k \<longleftrightarrow>
     same_store k0 k \<and> set (plans k) \<subseteq> set (plans k0) \<and>
     (\<forall>i. i \<notin> A \<inter> acl_writable k0 \<longrightarrow> acls k i = acls k0 i) \<and>
     (\<forall>i. acls k i = acls k0 i \<or> length (acl_entries k i) \<le> acl_max_entries) \<and>
     (\<forall>i. others uu (acl_entries k i) = others uu (acl_entries k0 i))"

lemma acl_entries_updates [simp]:
  "acl_entries (k\<lparr>plans := q\<rparr>) = acl_entries k" "acl_entries (k\<lparr>warned := ws\<rparr>) = acl_entries k"
  "acl_entries (k\<lparr>acls := (acls k)(i := Some es)\<rparr>) = (acl_entries k)(i := es)"
  by (simp_all add: acl_entries_def fun_eq_iff)

lemma settled_edits: "settled k0 (edits A uu k0)"
  by (auto simp: settled_def edits_def)

lemma edits_refl: "edits A uu k k"
  by (simp add: edits_def)

lemma keeps_library: "settled k0 I \<Longrightarrow> keeps I library_call"
  by (rule keeps_library_call) (rule settledD(2))

lemma keeps_library_on: "settled k0 I \<Longrightarrow> keeps I (library_on f p)"
  unfolding library_on_def by (rule keeps_or_syserr [OF keeps_library])

text \<open>\<open>leads_to k0 p i\<close>: the path leads, through links, to the inode \<open>i\<close>.\<close>

definition leads_to :: "'z kernel_scheme \<Rightarrow> path \<Rightarrow> ino \<Rightarrow> bool" where
  "leads_to k0 p i \<longleftrightarrow>
     (\<exists>l nd. lookup_path k0 p True = Inr l \<and> entry k0 l = Some i \<and> inodes k0 i = Some nd)"

lemma leads_to_unique: "leads_to k p i \<Longrightarrow> leads_to k p j \<Longrightarrow> i = j"
  by (auto simp: leads_to_def)

lemma at_node_unreached:
  "plans s = [] \<Longrightarrow> \<not> (\<exists>i. leads_to s p i) \<Longrightarrow> \<exists>e. at_node p True f s = (Inl e, s)"
  unfolding at_node_def at_path_def syscall_def
  by (auto simp: leads_to_def split: sum.split option.split)

lemma triple_fetch_acl:
  assumes "truthful k0"
  shows "triple (edits A uu k0) (fetch_acl p)
     (\<lambda>found k. edits A uu k0 k \<and>
        (\<forall>i. leads_to k0 p i \<longrightarrow> acl_entries k i = case_option [] id found)) (edits A uu k0)"
proof (rule tripleI)
  note sd = settledD [OF settled_edits]
  fix s found t assume I: "edits A uu k0 s" and run: "fetch_acl p s = (Inr found, t)"
  from run obtain r where r: "sys_acl_get p s = (r, t)"
    and found: "r = Inl ENOENT \<or> r = Inl 0 \<Longrightarrow> found = None" "r = Inr es \<Longrightarrow> found = Some es"
      "r = Inl e \<Longrightarrow> e = ENOENT \<or> e = 0" for es e
    by (fastforce simp: fetch_acl_def bind_s_def attempt_def return_s_def throw_s_def
        split: prod.splits sum.splits if_splits)
  note st = same_storeD [OF sd(1) [OF I]]
  from r show "edits A uu k0 t \<and> (\<forall>i. leads_to k0 p i \<longrightarrow> acl_entries t i = case_option [] id found)"
    unfolding sys_acl_get_def
  proof (cases rule: at_node_cases)
    case (failed e q)
    then have "e = ENOENT \<or> e = 0" using found(3) by simp
    then have "Fail e \<notin> set (plans s)" using I assms by (auto simp: edits_def truthful_def)
    then have "\<not> leads_to k0 p i" for i using failed(4) st by (auto simp: leads_to_def)
    then show ?thesis using failed(2,3) sd(2) [OF I] by simp
  next
    case (reached l i nd q)
    then have "leads_to k0 p i" using st by (auto simp: leads_to_def)
    moreover have "t = s\<lparr>plans := q\<rparr>" "acl_entries s i = case_option [] id found"
      using reached(4) found by (auto simp: acl_entries_def split: option.splits)
    ultimately show ?thesis using sd(2) [OF I reached(5)] leads_to_unique [of k0 p] by auto
  qed
next
  note sd = settledD [OF settled_edits]
  fix s e t assume I: "edits A uu k0 s" and run: "fetch_acl p s = (Inl e, t)"
  then obtain r where "sys_acl_get p s = (r, t)"
    by (auto simp: fetch_acl_def bind_s_def attempt_def return_s_def throw_s_def
        split: prod.splits sum.splits if_splits)
  then show "edits A uu k0 t"
    unfolding sys_acl_get_def
    by (cases rule: at_node_cases) (use sd(2) [OF I] in \<open>auto split: option.splits\<close>)
qed

text \<open>Writing back a list that agrees with the old one on the entries of the others.\<close>

lemma triple_acl_set:
  assumes "\<And>i. leads_to k0 p i \<Longrightarrow> i \<in> A"
  shows "triple (\<lambda>k. edits A uu k0 k \<and> (\<forall>i. leads_to k0 p i \<longrightarrow> others uu (acl_entries k i) = others uu es))
     (sys_acl_set p es) (\<lambda>_. edits A uu k0) (edits A uu k0)"
  unfolding sys_acl_set_def
proof (rule triple_at_node)
  note sd = settledD [OF settled_edits]
  fix s q assume "edits A uu k0 s \<and> (\<forall>i. leads_to k0 p i \<longrightarrow> others uu (acl_entries s i) = others uu es)"
    and "set q \<subseteq> set (plans s)"
  then show "edits A uu k0 (s\<lparr>plans := q\<rparr>)" using sd(2) by blast
next
  note sd = settledD [OF settled_edits]
  fix s q l i nd
  assume P: "edits A uu k0 s \<and> (\<forall>i. leads_to k0 p i \<longrightarrow> others uu (acl_entries s i) = others uu es)"
    and "lookup_path s p True = Inr l" "entry s l = Some i" "inodes s i = Some nd"
    and q: "set q \<subseteq> set (plans s)"
  then have d: "leads_to k0 p i" using same_storeD [OF sd(1)] by (fastforce simp: leads_to_def)
  then have i: "i \<in> A" "others uu (acl_entries s i) = others uu es" using assms P by auto
  have w: "may_set_acl s nd \<Longrightarrow> i \<in> acl_writable k0"
    using same_storeD [OF sd(1)] P \<open>inodes s i = Some nd\<close> by (fastforce simp: acl_writable_def)
  have J: "edits A uu k0 (s\<lparr>plans := q\<rparr>)" using P q sd(2) by blast
  have "may_set_acl s nd \<Longrightarrow> length es \<le> acl_max_entries \<Longrightarrow>
      edits A uu k0 (s\<lparr>plans := q, acls := (acls s)(i := Some es)\<rparr>)"
    using P i w q by (auto simp: edits_def acl_entries_def fun_upd_def same_store_def)
  then show "case (if \<not> may_set_acl (s\<lparr>plans := q\<rparr>) nd then (Inl EPERM, s\<lparr>plans := q\<rparr>)
       else if acl_max_entries < length es then (Inl EINVAL, s\<lparr>plans := q\<rparr>)
       else (Inr (), s\<lparr>plans := q, acls := (acls (s\<lparr>plans := q\<rparr>))(i := Some es)\<rparr>)) of
      (Inl e, x) \<Rightarrow> edits A uu k0 x | (Inr a, x) \<Rightarrow> edits A uu k0 x"
    using J by (simp add: may_set_acl_def)
qed

text \<open>The list that was read is still that of the file: what the calls in memory keep.\<close>

definition pending :: "ino set \<Rightarrow> uuid \<Rightarrow> 'z machine_scheme \<Rightarrow> path \<Rightarrow> ace list \<Rightarrow> 'z machine_scheme \<Rightarrow> bool" where
  "pending A uu k0 p es k \<longleftrightarrow>
     edits A uu k0 k \<and> (\<forall>i. leads_to k0 p i \<longrightarrow> others uu (acl_entries k i) = others uu es)"

lemma settled_pending: "settled k0 (pending A uu k0 p es)"
  using settledD [OF settled_edits] by (auto simp: settled_def pending_def)

lemma triple_of_keeps: "keeps K m \<Longrightarrow> (\<And>s. K s \<Longrightarrow> R s) \<Longrightarrow> triple K m (\<lambda>_. K) R"
  unfolding keeps_iff_triple by (erule triple_weaken) auto

lemma triple_pending:
  "keeps (pending A uu k0 p es) m \<Longrightarrow> triple (pending A uu k0 p es) m (\<lambda>_. pending A uu k0 p es) (edits A uu k0)"
  by (erule triple_of_keeps) (simp add: pending_def)

lemmas keeps_pending = keeps_library_on [OF settled_pending]

lemma triple_write_back:
  assumes "\<And>i. leads_to k0 p i \<Longrightarrow> i \<in> A" and "others uu es' = others uu es"
  shows "triple (pending A uu k0 p es) (or_syserr msg (sys_acl_set p es'))
     (\<lambda>_. edits A uu k0) (edits A uu k0)"
  by (rule triple_or_syserr, rule triple_weaken [OF triple_acl_set [of k0 p A uu es']])
    (use assms in \<open>auto simp: pending_def\<close>)

lemma triple_fetch_pending:
  "truthful k0 \<Longrightarrow> triple (edits A uu k0) (fetch_acl p) (\<lambda>found. pending A uu k0 p (case_option [] id found)) (edits A uu k0)"
  by (erule triple_weaken [OF triple_fetch_acl]) (auto simp: pending_def)

lemma keeps_add:
  assumes tr: "truthful k0" and A: "\<And>i. leads_to k0 p i \<Longrightarrow> i \<in> A" and uu: "\<And>e. mbr uid = Inr e \<Longrightarrow> e = uu"
  shows "keeps (edits A uu k0) (do_add_allow_user mbr p uid perms is_dir)"
  unfolding keeps_iff_triple do_add_allow_user_def
proof (rule triple_bind [OF triple_fetch_pending [OF tr]])
  fix found
  let ?es = "case_option [] id found" and ?K = "pending A uu k0 p (case_option [] id found)"
  note lib = triple_pending [OF keeps_pending] and go = triple_bind [rotated]
  have init: "keeps ?K (case found of None \<Rightarrow> or_syserr ''acl_init'' library_call | Some _ \<Rightarrow> return_s ())"
    by (auto intro!: keeps_or_syserr keeps_library [OF settled_pending] split: option.split)
  have flags: "keeps ?K (if is_dir then bind_s (library_on ''acl_get_flagset_np'' p)
      (\<lambda>_. library_on ''acl_set_flagset_np'' p) else return_s ())"
    by (auto intro!: keeps_bind keeps_pending)
  have id_of: "triple ?K (lift_s (uid_to_uuid mbr uid)) (\<lambda>u s. u = uu \<and> ?K s) (edits A uu k0)"
    by (rule tripleI) (auto simp: lift_s_def uid_to_uuid_def pending_def uu split: sum.splits)
  show "triple ?K
     (bind_s (case found of None \<Rightarrow> or_syserr ''acl_init'' library_call | Some _ \<Rightarrow> return_s ()) (\<lambda>_.
      bind_s (library_on ''acl_create_entry'' p) (\<lambda>_.
      bind_s (library_on ''acl_set_tag_type'' p) (\<lambda>_.
      bind_s (lift_s (uid_to_uuid mbr uid)) (\<lambda>uu.
      bind_s (library_on ''acl_set_qualifier'' p) (\<lambda>_.
      bind_s (library_on ''acl_get_permset'' p) (\<lambda>_.
      bind_s (library_on ''acl_set_permset'' p) (\<lambda>_.
      bind_s (if is_dir then bind_s (library_on ''acl_get_flagset_np'' p)
               (\<lambda>_. library_on ''acl_set_flagset_np'' p) else return_s ()) (\<lambda>_.
        or_syserr (call_on ''acl_set_file'' p) (sys_acl_set p (?es @ [new_entry uu perms is_dir])))))))))))
     (\<lambda>_. edits A uu k0) (edits A uu k0)"
  proof (intro triple_bind [OF triple_pending [OF init]] triple_bind [OF lib] triple_bind [OF id_of])
    fix u
    show "triple (\<lambda>s. u = uu \<and> ?K s)
      (bind_s (library_on ''acl_set_qualifier'' p) (\<lambda>_.
      bind_s (library_on ''acl_get_permset'' p) (\<lambda>_.
      bind_s (library_on ''acl_set_permset'' p) (\<lambda>_.
      bind_s (if is_dir then bind_s (library_on ''acl_get_flagset_np'' p)
               (\<lambda>_. library_on ''acl_set_flagset_np'' p) else return_s ()) (\<lambda>_.
        or_syserr (call_on ''acl_set_file'' p) (sys_acl_set p (?es @ [new_entry u perms is_dir])))))))
      (\<lambda>_. edits A uu k0) (edits A uu k0)"
    proof (cases "u = uu")
      case True
      have "others uu (?es @ [new_entry uu perms is_dir]) = others uu ?es"
        by (simp add: others_def new_entry_def names_user_def)
      then show ?thesis unfolding True simp_thms
        by (intro triple_bind [OF lib] triple_bind [OF triple_pending [OF flags]] triple_write_back)
          (use A in auto)
    qed (simp add: triple_absurd)
  qed
qed

lemma keeps_remove:
  assumes tr: "truthful k0" and A: "\<And>i. leads_to k0 p i \<Longrightarrow> i \<in> A"
  shows "keeps (edits A uu k0) (do_remove_user_entries p uu)"
  unfolding keeps_iff_triple do_remove_user_entries_def
proof (rule triple_bind [OF triple_fetch_pending [OF tr]])
  fix found
  show "triple (pending A uu k0 p (case_option [] id found))
     (case found of None \<Rightarrow> return_s ()
      | Some es \<Rightarrow> bind_s (delete_entries p uu es False) (\<lambda>(es', changed).
          if \<not> changed then return_s ()
          else or_syserr (call_on ''acl_set_file'' p) (sys_acl_set p es')))
     (\<lambda>_. edits A uu k0) (edits A uu k0)"
  proof (cases found)
    case None
    then show ?thesis by (auto intro!: triple_return simp: pending_def)
  next
    case (Some es)
    have del: "triple (pending A uu k0 p es) (delete_entries p uu es False)
        (\<lambda>(es', changed) k. es' = others uu es \<and> pending A uu k0 p es k) (edits A uu k0)"
      using triple_pending [OF keeps_delete_entries [OF keeps_library [OF settled_pending]], of A uu k0 p es p uu es False]
      by (intro tripleI) (auto dest: triple_Inr triple_Inl delete_entries_result)
    show ?thesis unfolding Some option.case id_apply
    proof (rule triple_bind [OF del])
      fix r :: "ace list \<times> bool"
      obtain es' changed where r: "r = (es', changed)" by (cases r)
      show "triple ((\<lambda>(es', changed) k. es' = others uu es \<and> pending A uu k0 p es k) r)
        (case r of (es', changed) \<Rightarrow> if \<not> changed then return_s ()
          else or_syserr (call_on ''acl_set_file'' p) (sys_acl_set p es'))
        (\<lambda>_. edits A uu k0) (edits A uu k0)"
      proof (cases "es' = others uu es \<and> changed")
        case True
        then show ?thesis unfolding r by (auto intro!: triple_write_back A)
      next
        case False
        then show ?thesis unfolding r
          by (cases changed) (auto intro!: triple_return intro: triple_absurd simp: pending_def)
      qed
    qed
  qed
qed

section \<open>A tree\<close>

text \<open>The inodes below a path: the files that are not symbolic links, nor reached through one.\<close>

definition tree_inos :: "'z kernel_scheme \<Rightarrow> path \<Rightarrow> ino set" where
  "tree_inos k p =
     {i. \<exists>l m nd. lookup_path k p False = Inr l \<and> prefix l m \<and> entry k m = Some i \<and>
        inodes k i = Some nd \<and> (\<forall>t. i_kind nd \<noteq> Lnk t)}"

lemma tree_inos_self:
  assumes "lookup_path k p False = Inr l" "entry k l = Some j" "inodes k j = Some nd"
    and "\<forall>t. i_kind nd \<noteq> Lnk t" and "leads_to k p i"
  shows "i \<in> tree_inos k p"
proof -
  have "\<forall>t. kind_at k l \<noteq> Some (Lnk t)" using assms(2-4) by (auto simp: kind_at_def node_def)
  then have "lookup_path k p True = Inr l" using assms(1) lookup_nofollow by blast
  with assms show ?thesis by (fastforce simp: leads_to_def tree_inos_def)
qed

lemma tree_inos_child:
  assumes "lookup_path k p False = Inr l" "\<forall>t. kind_at k l \<noteq> Some (Lnk t)" "file_name c"
  shows "tree_inos k (path_append p c) \<subseteq> tree_inos k p"
proof
  fix i assume "i \<in> tree_inos k (path_append p c)"
  then obtain l' m nd where "lookup_path k (path_append p c) False = Inr l'" "prefix l' m"
    "entry k m = Some i" "inodes k i = Some nd" "\<forall>t. i_kind nd \<noteq> Lnk t"
    by (auto simp: tree_inos_def)
  moreover from this have "l' = l @ [c]"
    using assms lookup_child [of c k p l'] lookup_nofollow [of k p l] by auto
  moreover from this \<open>prefix l' m\<close> have "prefix l m" using append_prefixD by blast
  ultimately show "i \<in> tree_inos k p" using assms(1) by (auto simp: tree_inos_def)
qed

lemma keeps_lstat: "settled k0 I \<Longrightarrow> keeps I (sys_lstat p)"
  unfolding keeps_iff_triple by (rule triple_weaken [OF triple_lstat]) auto

lemma keeps_is_symlink: "settled k0 I \<Longrightarrow> keeps I (is_symlink ty p)"
  unfolding is_symlink_def
  by (auto intro!: keeps_bind keeps_attempt keeps_lstat split: sum.split)

lemma keeps_descend:
  "settled k0 I \<Longrightarrow> dot_entry c \<or> keeps I (down (path_append p c)) \<Longrightarrow> keeps I (descend down p (c, ty))"
  by (auto simp: descend_def Let_def intro!: keeps_bind keeps_is_symlink)

lemma keeps_each_entry:
  assumes st: "settled k0 I" and wf: "wf_kernel k0"
    and down: "\<And>c. file_name c \<Longrightarrow> keeps I (down (path_append p c))"
  shows "keeps I (each_entry down p)"
  unfolding keeps_iff_triple each_entry_def
proof (rule triple_bind_attempt [OF triple_readdir [OF st wf]], goal_cases)
  case (1 es)
  show ?case
  proof (rule triple_assume, goal_cases)
    case 1
    then have "dot_entry c \<or> keeps I (down (path_append p c))" if "(c, ty) \<in> set es" for c ty
      using that down by blast
    then have "keeps I (descend down p de)" if "de \<in> set es" for de
      using that keeps_descend [OF st] by (cases de) blast
    then have "keeps I (for_each es (descend down p))" by (rule keeps_for_each)
    then show ?case by (simp add: keeps_iff_triple)
  qed
next
  case (2 e)
  show ?case using keeps_warn [of I] settledD(3) [OF st] by (simp add: keeps_iff_triple)
qed

lemma keeps_walk:
  assumes st: "settled k0 I" and wf: "wf_kernel k0"
  shows "(\<And>q d. (\<And>j. leads_to k0 q j \<Longrightarrow> j \<in> tree_inos k0 p) \<Longrightarrow> keeps I (visit q d)) \<Longrightarrow>
    keeps I (walk_tree n visit p)"
proof (induction n arbitrary: p)
  case (Suc n)
  show ?case
    unfolding keeps_iff_triple walk_tree.simps
  proof (rule triple_bind_attempt [OF triple_lstat [OF st]], goal_cases)
    case (1 sb)
    show ?case
    proof (rule triple_assume, goal_cases)
      case 1
      then obtain l i where l: "lookup_path k0 p False = Inr l" "entry k0 l = Some i" "inodes k0 i = Some sb"
        by blast
      show ?case
      proof (cases "\<exists>t. i_kind sb = Lnk t")
        case False
        then have nl: "\<forall>t. i_kind sb \<noteq> Lnk t" "\<forall>t. kind_at k0 l \<noteq> Some (Lnk t)"
          using l by (auto simp: kind_at_def node_def)
        have "keeps I (warning (visit p d))" for d
          using tree_inos_self [OF l nl(1)]
          by (intro keeps_warning Suc.prems settledD(3) [OF st])
        moreover have "keeps I (each_entry (walk_tree n visit) p)"
        proof (rule keeps_each_entry [OF st wf], rule Suc.IH)
          fix c q d assume "file_name c" "\<And>j. leads_to k0 q j \<Longrightarrow> j \<in> tree_inos k0 (path_append p c)"
          then show "keeps I (visit q d)" using tree_inos_child [OF l(1) nl(2)] Suc.prems by blast
        qed
        ultimately have "keeps I (bind_s (warning (visit p (i_kind sb = Dir))) (\<lambda>_.
            if i_kind sb \<noteq> Dir then return_s () else each_entry (walk_tree n visit) p))"
          by (auto intro!: keeps_bind)
        then show ?thesis using nl(1) by (auto simp: keeps_iff_triple split: fkind.split)
      qed (auto intro!: triple_return)
    qed
  next
    case (2 e)
    show ?case using keeps_warn [of I] settledD(3) [OF st] by (simp add: keeps_iff_triple)
  qed
qed simp

text \<open>
  Where lists change, whatever calls fail: also if a list could not be read and is replaced.
\<close>

definition relists :: "ino set \<Rightarrow> 'z machine_scheme \<Rightarrow> 'z machine_scheme \<Rightarrow> bool" where
  "relists A k0 k \<longleftrightarrow> same_store k0 k \<and> (\<forall>i. i \<notin> A \<inter> acl_writable k0 \<longrightarrow> acls k i = acls k0 i)"

lemma settled_relists: "settled k0 (relists A k0)"
  by (auto simp: settled_def relists_def)

lemma relists_fetch: "keeps (relists A k0) (fetch_acl p)"
proof -
  have "keeps (relists A k0) (sys_acl_get p)"
    unfolding keeps_iff_triple sys_acl_get_def
    by (rule triple_at_node) (auto simp: relists_def split: option.split)
  then show ?thesis
    by (auto simp: fetch_acl_def intro!: keeps_bind keeps_attempt split: sum.split)
qed

lemma relists_set:
  assumes "\<And>i. leads_to k0 p i \<Longrightarrow> i \<in> A"
  shows "keeps (relists A k0) (sys_acl_set p es)"
  unfolding keeps_iff_triple sys_acl_set_def
proof (rule triple_at_node)
  fix s q l i nd
  assume I: "relists A k0 s" and at: "lookup_path s p True = Inr l" "entry s l = Some i" "inodes s i = Some nd"
    and q: "set q \<subseteq> set (plans s)"
  note st = same_storeD [OF settledD(1) [OF settled_relists I]]
  have "i \<in> A" using assms at st by (fastforce simp: leads_to_def)
  moreover have "may_set_acl s nd \<Longrightarrow> i \<in> acl_writable k0"
    using st at by (fastforce simp: acl_writable_def)
  ultimately show "case (if \<not> may_set_acl (s\<lparr>plans := q\<rparr>) nd then (Inl EPERM, s\<lparr>plans := q\<rparr>)
       else if acl_max_entries < length es then (Inl EINVAL, s\<lparr>plans := q\<rparr>)
       else (Inr (), s\<lparr>plans := q, acls := (acls (s\<lparr>plans := q\<rparr>))(i := Some es)\<rparr>)) of
      (Inl e, x) \<Rightarrow> relists A k0 x | (Inr a, x) \<Rightarrow> relists A k0 x"
    using I by (auto simp: relists_def may_set_acl_def same_store_def)
qed (auto simp: relists_def)

lemma relists_add:
  assumes "\<And>i. leads_to k0 p i \<Longrightarrow> i \<in> A"
  shows "keeps (relists A k0) (do_add_allow_user mbr p uid perms is_dir)"
  unfolding do_add_allow_user_def
  by (intro keeps_bind relists_fetch keeps_library_on [OF settled_relists] keeps_or_syserr
      relists_set [OF assms] keeps_lift)
    (auto intro!: keeps_or_syserr keeps_library [OF settled_relists] keeps_bind
      keeps_library_on [OF settled_relists] split: option.split)

lemma relists_sweep:
  assumes "wf_kernel k"
  shows "relists (tree_inos k p) k (snd (apply_recursive mbr p uid perms k))"
  unfolding apply_recursive_def sweep_def
  by (rule keepsD [OF keeps_walk [OF settled_relists assms] ]) (auto intro: relists_add simp: relists_def)

locale visitor =
  fixes visit :: "path \<Rightarrow> bool \<Rightarrow> ('z, unit) mstep" and uu :: uuid
  assumes visit_keeps:
    "truthful k0 \<Longrightarrow> (\<And>i. leads_to k0 p i \<Longrightarrow> i \<in> A) \<Longrightarrow> keeps (edits A uu k0) (visit p d)"
begin

text \<open>The sweep of a tree changes the lists of the tree only, and there the entries of the user only.\<close>

lemma sweep_edits:
  assumes "wf_kernel k" and "truthful k"
  shows "edits (tree_inos k p) uu k (snd (sweep visit p k))"
  unfolding sweep_def
  by (rule keepsD [OF keeps_walk [OF settled_edits assms(1)] edits_refl])
    (rule visit_keeps [OF assms(2)])

end

lemma no_throw_descend: "(\<And>q. no_throw (down q)) \<Longrightarrow> no_throw (descend down p de)"
  unfolding descend_def is_symlink_def
  by (auto intro!: no_throw_attempt no_throw_return simp: Let_def bind_s_assoc split: sum.split prod.split)

lemma no_throw_each_entry: "(\<And>q. no_throw (down q)) \<Longrightarrow> no_throw (each_entry down p)"
  unfolding each_entry_def
  by (auto intro!: no_throw_attempt no_throw_warn no_throw_for_each no_throw_descend split: sum.split)

lemma no_throw_walk: "no_throw (walk_tree n visit p)"
proof (induction n arbitrary: p)
  case (Suc n)
  then show ?case
    by (auto intro!: no_throw_attempt no_throw_warn no_throw_bind no_throw_warning no_throw_return
        no_throw_each_entry split: sum.split fkind.split)
qed (simp add: no_throw_return)

text \<open>Below a directory the tree is that of its children.\<close>

lemma is_symlink_ok:
  assumes "plans s = []" "lookup_path s p False = Inr l" "entry s l = Some i" "inodes s i = Some nd"
    and "\<forall>t. i_kind nd \<noteq> Lnk t"
  shows "is_symlink (entry_type s l) p s = (Inr False, s)"
proof -
  have "kind_at s l = Some (i_kind nd)" using assms by (simp add: kind_at_def node_def)
  then show ?thesis
    using assms lstat_ok [OF assms(1-4)]
    by (auto simp: is_symlink_def entry_type_def dtype_of_def return_s_def bind_s_def attempt_def
        split: fkind.split)
qed

lemma entry_above:
  assumes "wf_kernel k" "entry k (l @ ms) = Some i" "inodes k i = Some nd" "\<forall>t. i_kind nd \<noteq> Lnk t"
  shows "\<exists>j sb. entry k l = Some j \<and> inodes k j = Some sb \<and> (\<forall>t. i_kind sb \<noteq> Lnk t) \<and>
    (ms \<noteq> [] \<longrightarrow> i_kind sb = Dir) \<and> (ms = [] \<longrightarrow> j = i)"
proof (cases ms)
  case Nil
  then show ?thesis using assms by simp
next
  case (Cons c cs)
  then have "is_dir_at k l" using below_dir [OF assms(1), of l c cs i] assms(2) by simp
  then show ?thesis using Cons by (auto simp: is_dir_at_def kind_at_def node_def bind_eq_Some_conv)
qed

lemma entry_depth:
  assumes "wf_kernel k" "entry k m = Some i"
  shows "length m < length (dir_table k)"
proof -
  have "q \<in> fst ` set (dir_table k)" if "prefix q m" for q
  proof -
    obtain ms where ms: "m = q @ ms" using \<open>prefix q m\<close> by (auto simp: prefix_def)
    have "\<exists>j. entry k q = Some j"
    proof (cases ms)
      case (Cons c cs)
      then show ?thesis using below_dir [OF assms(1), of q c cs i] assms(2) ms is_dir_entry by blast
    qed (use assms(2) ms in simp)
    then obtain j where "entry k q = Some j"..
    then show ?thesis by (force dest: entry_mem)
  qed
  then have "set (prefixes m) \<subseteq> fst ` set (dir_table k)" by auto
  then have "card (set (prefixes m)) \<le> card (fst ` set (dir_table k))" by (intro card_mono) simp_all
  also have "\<dots> \<le> length (dir_table k)" by (meson card_image_le card_length le_trans List.finite_set)
  finally show ?thesis by (simp add: distinct_card distinct_prefixes)
qed

lemma walk_run:
  assumes "plans s = []" "lookup_path s p False = Inr l" "entry s l = Some i" "inodes s i = Some nd"
    and "\<forall>t. i_kind nd \<noteq> Lnk t"
  shows "walk_tree (Suc n) visit p s =
     (if i_kind nd \<noteq> Dir then return_s () else each_entry (walk_tree n visit) p)
       (snd (warning (visit p (i_kind nd = Dir)) s))"
proof -
  have "walk_tree (Suc n) visit p s =
      bind_s (warning (visit p (i_kind nd = Dir)))
        (\<lambda>_. if i_kind nd \<noteq> Dir then return_s () else each_entry (walk_tree n visit) p) s"
    using lstat_ok [OF assms(1-4)] assms(5)
    by (cases "i_kind nd") (simp_all add: bind_s_def [of "attempt (sys_lstat p)"] attempt_def)
  then show ?thesis by (simp add: no_throw_run [OF no_throw_warning])
qed

lemma each_entry_run:
  assumes "plans s = []" "lookup_path s p True = Inr l" "entry s l = Some i" "inodes s i = Some nd"
    and "i_kind nd = Dir"
  shows "each_entry down p s =
     for_each ((''.'', DT_DIR) # (''..'', DT_DIR) # map (\<lambda>n. (n, entry_type s (l @ [n]))) (children s l))
       (descend down p) s"
  unfolding each_entry_def using readdir_ok [OF assms]
  by (simp add: bind_s_def [of "attempt (sys_readdir p)"] attempt_def)

locale thorough_visitor = visitor visit uu for visit :: "path \<Rightarrow> bool \<Rightarrow> ('z, unit) mstep" and uu +
  fixes handled :: "ino \<Rightarrow> 'z machine_scheme \<Rightarrow> bool"
  assumes reaches: "plans s = [] \<Longrightarrow> leads_to s p i \<Longrightarrow> handled i (snd (visit p d s))"
    and stays: "plans s = [] \<Longrightarrow> handled i s \<Longrightarrow> handled i (snd (visit p d s))"
    and indifferent: "handled i (s\<lparr>warned := ws\<rparr>) = handled i s"
begin

definition progress :: "'z machine_scheme \<Rightarrow> ino \<Rightarrow> 'z machine_scheme \<Rightarrow> bool" where
  "progress k0 i s \<longleftrightarrow> edits UNIV uu k0 s \<and> handled i s"

lemma settled_progress: "plans k0 = [] \<Longrightarrow> settled k0 (progress k0 i)"
proof -
  assume none: "plans k0 = []"
  have "s\<lparr>plans := q\<rparr> = s" if "edits UNIV uu k0 s" "set q \<subseteq> set (plans s)" for s q
  proof -
    have "q = plans s" using that none by (simp add: edits_def)
    then show ?thesis by simp
  qed
  then show ?thesis
    using settledD [OF settled_edits, of UNIV uu k0] unfolding settled_def progress_def indifferent
    by metis
qed

lemma progress_kept:
  assumes "plans k0 = []"
  shows "keeps (progress k0 i) (visit p d)"
proof (rule keepsI)
  fix s assume s: "progress k0 i s"
  then have "plans s = []" using assms by (auto simp: progress_def edits_def)
  with s have "handled i (snd (visit p d s))" using stays by (simp add: progress_def)
  moreover have "edits UNIV uu k0 (snd (visit p d s))"
    using visit_keeps [of k0 p UNIV d] s assms by (auto simp: truthful_def progress_def dest: keepsD)
  ultimately show "progress k0 i (snd (visit p d s))" by (simp add: progress_def)
qed

lemma walk_progress:
  "wf_kernel k0 \<Longrightarrow> plans k0 = [] \<Longrightarrow> keeps (progress k0 i) (walk_tree n visit p)"
  by (rule keeps_walk [OF settled_progress]) (auto intro: progress_kept)

lemma walk_edits:
  "wf_kernel k0 \<Longrightarrow> plans k0 = [] \<Longrightarrow> keeps (edits UNIV uu k0) (walk_tree n visit p)"
  by (rule keeps_walk [OF settled_edits]) (auto intro: visit_keeps simp: truthful_def)

text \<open>The files at and below a location, as deep as the bound allows, are handled.\<close>

lemma warning_edits:
  assumes "plans k0 = []" and "edits UNIV uu k0 s"
  shows "edits UNIV uu k0 (snd (warning (visit p d) s))"
proof -
  have "keeps (edits UNIV uu k0) (warning (visit p d))"
    by (intro keeps_warning visit_keeps settledD(3) [OF settled_edits]) (simp_all add: truthful_def assms(1))
  then show ?thesis using assms(2) by (rule keepsD)
qed

lemma warning_handles:
  assumes "plans s = []" and "leads_to s p i"
  shows "handled i (snd (warning (visit p d) s))"
  using reaches [OF assms, of d]
  by (auto simp: warning_def bind_s_def attempt_def report_def update_s_def return_s_def indifferent
      split: prod.split sum.split)

text \<open>The files at and below a location, as deep as the bound allows, are handled.\<close>

lemma walk_handles:
  assumes wf: "wf_kernel k0" and none: "plans k0 = []"
  shows "edits UNIV uu k0 s \<Longrightarrow> lookup_path k0 p False = Inr l \<Longrightarrow> entry k0 (l @ ms) = Some i \<Longrightarrow>
    inodes k0 i = Some nd \<Longrightarrow> \<forall>t. i_kind nd \<noteq> Lnk t \<Longrightarrow> length ms < n \<Longrightarrow>
    handled i (snd (walk_tree n visit p s))"
proof (induction n arbitrary: p l s ms)
  case (Suc n)
  let ?I = "edits UNIV uu k0"
  have known: "plans s = []" "entry s = entry k0" "inodes s = inodes k0" "lookup_path s = lookup_path k0"
    "children s = children k0" if "?I s" for s
    using that none same_storeD by (auto simp: edits_def)
  obtain j sb where top: "entry k0 l = Some j" "inodes k0 j = Some sb" "\<forall>t. i_kind sb \<noteq> Lnk t"
    and inner: "ms \<noteq> [] \<Longrightarrow> i_kind sb = Dir" and leaf: "ms = [] \<Longrightarrow> j = i"
    using entry_above [OF wf Suc.prems(3-5)] by blast
  then have true: "lookup_path k0 p True = Inr l"
    using Suc.prems(2) lookup_nofollow [of k0 p l] by (auto simp: kind_at_def node_def)
  let ?s1 = "snd (warning (visit p (i_kind sb = Dir)) s)"
  have s1: "?I ?s1" using warning_edits [OF none Suc.prems(1)] .
  have run: "walk_tree (Suc n) visit p s =
      (if i_kind sb \<noteq> Dir then return_s () else each_entry (walk_tree n visit) p) ?s1"
    using walk_run [of s p l j sb n visit] known [OF Suc.prems(1)] Suc.prems(2) top by simp
  show ?case
  proof (cases ms)
    case Nil
    have "leads_to s p i"
      using true top leaf [OF Nil] known [OF Suc.prems(1)] by (simp add: leads_to_def)
    then have "progress k0 i ?s1"
      using warning_handles known(1) [OF Suc.prems(1)] s1 by (simp add: progress_def)
    moreover have "keeps (progress k0 i) (each_entry (walk_tree n visit) p)"
      using walk_progress [OF wf none]
      by (intro keeps_each_entry [OF settled_progress [OF none] wf])
    ultimately have "progress k0 i (snd (walk_tree (Suc n) visit p s))"
      unfolding run by (auto simp: return_s_def dest: keepsD)
    then show ?thesis by (simp add: progress_def)
  next
    case (Cons c cs)
    have name: "file_name c" using entry_names [OF wf Suc.prems(3)] Cons by simp
    have dir: "i_kind sb = Dir" "is_dir_at k0 l" "c \<in> set (children k0 l)"
      using inner below_dir [OF wf, of l c cs i] Suc.prems(3) Cons by simp_all
    have child: "lookup_path k0 (path_append p c) False = Inr (l @ [c])"
      using lookup_child [OF name] true dir(2) by blast
    obtain jc sc where sub: "entry k0 (l @ [c]) = Some jc" "inodes k0 jc = Some sc" "\<forall>t. i_kind sc \<noteq> Lnk t"
      using entry_above [OF wf, of "l @ [c]" cs i nd] Suc.prems(3-5) Cons by auto
    let ?es = "(''.'', DT_DIR) # (''..'', DT_DIR) # map (\<lambda>n. (n, entry_type ?s1 (l @ [n]))) (children ?s1 l)"
    let ?down = "walk_tree n visit" and ?x = "(c, entry_type ?s1 (l @ [c]))"
    have "handled i (snd (for_each ?es (descend ?down p) ?s1))"
    proof (rule for_each_reaches [where x = ?x and I = ?I])
      show "?x \<in> set ?es" using dir(3) known(5) [OF s1] by simp
      fix y :: "string \<times> dtype"
      show "keeps ?I (descend ?down p y)"
        using keeps_descend [OF settled_edits] walk_edits [OF wf none] by (cases y) blast
      show "no_throw (descend ?down p y)" by (rule no_throw_descend [OF no_throw_walk])
      have "keeps (progress k0 i) (descend ?down p y)"
        using keeps_descend [OF settled_progress [OF none]] walk_progress [OF wf none] by (cases y) blast
      then show "keeps (\<lambda>s. ?I s \<and> handled i s) (descend ?down p y)" by (simp add: progress_def [abs_def])
    next
      fix u assume u: "?I u"
      have "entry_type ?s1 = entry_type u"
        using s1 u same_storeD(7) by (metis edits_def)
      then have "is_symlink (entry_type ?s1 (l @ [c])) (path_append p c) u = (Inr False, u)"
        using is_symlink_ok [of u "path_append p c" "l @ [c]" jc sc] known [OF u] child sub by simp
      then have "descend ?down p ?x u = ?down (path_append p c) u"
        using file_name_plain [OF name] by (simp add: descend_def Let_def dot_entry_def bind_s_def)
      then show "handled i (snd (descend ?down p ?x u))"
        using Suc.IH [OF u child, of cs] Suc.prems Cons by simp
    qed (rule s1)
    moreover have "walk_tree (Suc n) visit p s = for_each ?es (descend ?down p) ?s1"
      unfolding run using dir(1) each_entry_run [of ?s1 p l j sb ?down] known [OF s1] true top by simp
    ultimately show ?thesis by simp
  qed
qed simp

text \<open>The bound that \<open>sweep\<close> starts with is enough: it handles every file of the tree.\<close>

lemma sweep_handles:
  assumes wf: "wf_kernel k" and "plans k = []" and "i \<in> tree_inos k p"
  shows "handled i (snd (sweep visit p k))"
proof -
  obtain l m nd where l: "lookup_path k p False = Inr l" "prefix l m" "entry k m = Some i"
    "inodes k i = Some nd" "\<forall>t. i_kind nd \<noteq> Lnk t"
    using assms(3) by (auto simp: tree_inos_def)
  then obtain ms where "m = l @ ms" by (auto simp: prefix_def)
  then show ?thesis
    using l entry_depth [OF wf l(3)] walk_handles [OF wf assms(2) edits_refl l(1) _ l(4,5), of ms]
    by (simp add: sweep_def del: walk_tree.simps)
qed

lemma sweep_run: "sweep visit p k = (Inr (), snd (sweep visit p k))"
  unfolding sweep_def by (rule no_throw_eq [OF no_throw_walk])

end

section \<open>The two visitors of the program\<close>

definition user_uuid :: "members \<Rightarrow> nat \<Rightarrow> uuid" where
  "user_uuid mbr uid = (case mbr uid of Inl _ \<Rightarrow> 0 | Inr u \<Rightarrow> u)"

interpretation granting: visitor "\<lambda>p d. do_add_allow_user mbr p uid perms d" "user_uuid mbr uid"
  for mbr uid perms
  by unfold_locales (auto intro!: keeps_add simp: user_uuid_def)

definition stripped :: "uuid \<Rightarrow> ino \<Rightarrow> 'z machine_scheme \<Rightarrow> bool" where
  "stripped uu i k \<longleftrightarrow>
     (i \<in> acl_writable k \<longrightarrow> length (others uu (acl_entries k i)) \<le> acl_max_entries \<longrightarrow>
      others uu (acl_entries k i) = acl_entries k i)"

lemma others_length: "length (others uu es) \<le> length es"
  by (simp add: others_def)

lemma remove_run:
  assumes "plans s = []"
  shows "(snd (do_remove_user_entries p uu s) = s \<and> (\<forall>i. leads_to s p i \<longrightarrow> stripped uu i s)) \<or>
    (\<exists>i. leads_to s p i \<and>
       snd (do_remove_user_entries p uu s) = s\<lparr>acls := (acls s)(i := Some (others uu (acl_entries s i)))\<rparr>)"
proof (cases "\<exists>i. leads_to s p i")
  case False
  have "\<exists>e. sys_acl_get p s = (Inl e, s)"
    unfolding sys_acl_get_def using at_node_unreached [OF assms] False by blast
  then have "snd (do_remove_user_entries p uu s) = s"
    by (auto simp: do_remove_user_entries_def fetch_acl_def bind_s_def attempt_def return_s_def throw_s_def)
  with False show ?thesis by blast
next
  case True
  then obtain i l nd where i: "leads_to s p i" and at: "lookup_path s p True = Inr l" "entry s l = Some i"
    "inodes s i = Some nd" by (auto simp: leads_to_def)
  have only: "leads_to s p j \<longleftrightarrow> j = i" for j using i leads_to_unique by blast
  note ok = at_node_ok [OF assms at]
  have fetch: "fetch_acl p s = (Inr (acls s i), s)"
    by (simp add: fetch_acl_def sys_acl_get_def bind_s_def attempt_def ok return_s_def split: option.split)
  show ?thesis
  proof (cases "acls s i")
    case None
    then show ?thesis using fetch
      by (simp add: only do_remove_user_entries_def bind_s_def return_s_def stripped_def acl_entries_def)
  next
    case (Some es)
    then have es: "acl_entries s i = es" by (simp add: acl_entries_def)
    have w: "i \<in> acl_writable s \<longleftrightarrow> may_set_acl s nd" using at(3) by (simp add: acl_writable_def)
    show ?thesis using fetch
      by (simp add: only w es Some do_remove_user_entries_def bind_s_def return_s_def stripped_def
          delete_entries_ok [OF assms] sys_acl_set_def ok or_syserr_def)
  qed
qed

interpretation stripping: thorough_visitor "\<lambda>p d. do_remove_user_entries p uu" uu "stripped uu"
  for uu
proof unfold_locales
  fix k0 :: "'z machine_scheme" and p A d
  assume "truthful k0" "\<And>i. leads_to k0 p i \<Longrightarrow> i \<in> A"
  then show "keeps (edits A uu k0) (do_remove_user_entries p uu)" by (rule keeps_remove)
next
  fix s :: "'z machine_scheme" and p i d
  assume "plans s = []" "leads_to s p i"
  then show "stripped uu i (snd (do_remove_user_entries p uu s))"
    using remove_run [of s p uu] leads_to_unique [of s p] by (fastforce simp: stripped_def)
next
  fix s :: "'z machine_scheme" and p i d
  assume "plans s = []" "stripped uu i s"
  then show "stripped uu i (snd (do_remove_user_entries p uu s))"
    using remove_run [of s p uu] by (auto simp: stripped_def acl_writable_def may_set_acl_def)
next
  fix s :: "'z machine_scheme" and i ws
  show "stripped uu i (s\<lparr>warned := ws\<rparr>) = stripped uu i s"
    by (simp add: stripped_def acl_writable_def may_set_acl_def)
qed

text \<open>An inode that the walk of the grants has passed, if the user id is known: entered or full.\<close>

definition entered :: "members \<Rightarrow> nat \<Rightarrow> perm_mask \<Rightarrow> ino \<Rightarrow> 'z machine_scheme \<Rightarrow> bool" where
  "entered mbr uid perms i k \<longleftrightarrow>
     (\<forall>uu. mbr uid = Inr uu \<longrightarrow> i \<in> acl_writable k \<longrightarrow>
        (\<exists>d. new_entry uu perms d \<in> set (acl_entries k i)) \<or> length (acl_entries k i) \<ge> acl_max_entries)"

lemma add_run:
  assumes "plans s = []"
  shows "(snd (do_add_allow_user mbr p uid perms d s) = s \<and> (\<forall>i. leads_to s p i \<longrightarrow> entered mbr uid perms i s)) \<or>
    (\<exists>i uu. leads_to s p i \<and> mbr uid = Inr uu \<and>
       snd (do_add_allow_user mbr p uid perms d s) =
         s\<lparr>acls := (acls s)(i := Some (acl_entries s i @ [new_entry uu perms d]))\<rparr>)"
proof -
  have lib: "library_on f q s = (Inr (), s)" "or_syserr msg library_call s = (Inr (), s)" for f q msg
    using assms by (simp_all add: library_on_def library_call_def syscall_def or_syserr_def)
  have add: "do_add_allow_user mbr p uid perms d s =
      (case mbr uid of
         Inl e \<Rightarrow> (Inl (SysError e (''mbr_uid_to_uuid('' @ show_nat uid @ '')'')), s)
       | Inr uu \<Rightarrow> or_syserr (call_on ''acl_set_file'' p)
                    (sys_acl_set p (case_option [] id found @ [new_entry uu perms d])) s)"
    if "fetch_acl p s = (Inr found, s)" for found
    using that lib by (auto simp: do_add_allow_user_def bind_s_def return_s_def lift_s_def uid_to_uuid_def
        split: option.split sum.split)
  show ?thesis
  proof (cases "\<exists>i. leads_to s p i")
    case False
    have set: "\<exists>e. sys_acl_set p es s = (Inl e, s)" for es
      unfolding sys_acl_set_def by (rule at_node_unreached [OF assms False])
    have "\<exists>e. sys_acl_get p s = (Inl e, s)"
      unfolding sys_acl_get_def by (rule at_node_unreached [OF assms False])
    then have "fetch_acl p s = (Inr None, s) \<or> (\<exists>x. fetch_acl p s = (Inl x, s))"
      by (auto simp: fetch_acl_def bind_s_def attempt_def return_s_def throw_s_def split: if_splits)
    then have "snd (do_add_allow_user mbr p uid perms d s) = s"
    proof
      assume "fetch_acl p s = (Inr None, s)"
      moreover have "snd (or_syserr msg (sys_acl_set p es) s) = s" for msg es
        using set [of es] by (auto simp: or_syserr_def)
      ultimately show ?thesis using add by (simp split: sum.split)
    next
      assume "\<exists>x. fetch_acl p s = (Inl x, s)"
      then show ?thesis by (auto simp: do_add_allow_user_def bind_s_def)
    qed
    with False show ?thesis by blast
  next
    case True
    then obtain i l nd where i: "leads_to s p i" and at: "lookup_path s p True = Inr l" "entry s l = Some i"
      "inodes s i = Some nd" by (auto simp: leads_to_def)
    have only: "leads_to s p j \<longleftrightarrow> j = i" for j using i leads_to_unique by blast
    note ok = at_node_ok [OF assms at]
    have fetch: "fetch_acl p s = (Inr (acls s i), s)"
      by (simp add: fetch_acl_def sys_acl_get_def bind_s_def attempt_def ok return_s_def split: option.split)
    have es: "case_option [] id (acls s i) = acl_entries s i" by (simp add: acl_entries_def split: option.split)
    have w: "i \<in> acl_writable s \<longleftrightarrow> may_set_acl s nd" using at(3) by (simp add: acl_writable_def)
    show ?thesis unfolding add [OF fetch] es
      by (auto simp: only w entered_def sys_acl_set_def ok or_syserr_def split: sum.split)
  qed
qed

interpretation granting_all: thorough_visitor
  "\<lambda>p d. do_add_allow_user mbr p uid perms d" "user_uuid mbr uid" "entered mbr uid perms"
  for mbr uid perms
proof unfold_locales
  fix s :: "'z machine_scheme" and p i d
  assume "plans s = []" "leads_to s p i"
  then show "entered mbr uid perms i (snd (do_add_allow_user mbr p uid perms d s))"
    using add_run [of s mbr p uid perms d] leads_to_unique [of s p] by (fastforce simp: entered_def)
next
  fix s :: "'z machine_scheme" and p i d
  assume "plans s = []" "entered mbr uid perms i s"
  then show "entered mbr uid perms i (snd (do_add_allow_user mbr p uid perms d s))"
    using add_run [of s mbr p uid perms d] by (fastforce simp: entered_def acl_writable_def may_set_acl_def)
next
  fix s :: "'z machine_scheme" and i ws
  show "entered mbr uid perms i (s\<lparr>warned := ws\<rparr>) = entered mbr uid perms i s"
    by (simp add: entered_def acl_writable_def may_set_acl_def)
qed

end
