(* ===== verification/Acl_Theorems.thy ===== *)
theory Acl_Theorems
  imports Acl_Facts
begin

text \<open>
  The guarantees of \<open>src/acl.cc\<close>, and a small tree on which they are evaluated.
\<close>

section \<open>A sample tree\<close>

text \<open>
  User 501 owns a directory with a file, a file of root and a link that leads out of it; a file of
  the directory is listed for somebody else.
\<close>

definition sample_member :: members where
  "sample_member uid = Inr (1000 + uid)"

definition sample_entry :: ace where
  "sample_entry = \<lparr>ace_tag = ACL_EXTENDED_DENY, ace_qualifier = Some 7, ace_perms = {ACL_DELETE}, ace_flags = {}\<rparr>"

definition sample_files :: "(loc \<times> fkind \<times> nat) list" where
  "sample_files =
     [([], Dir, 0), ([''w''], Dir, 501), ([''w'', ''f''], Reg ''abc'', 501), ([''w'', ''r''], Reg ''x'', 0),
      ([''w'', ''l''], Lnk ''/s'', 501), ([''s''], Reg ''key'', 501)]"

definition sample_machine :: "nat \<Rightarrow> bool \<Rightarrow> machine" where
  "sample_machine uid types =
     \<lparr>dir_table = zip (map fst sample_files) [0..<6],
      inodes = (\<lambda>i. if i < 6 then
          let (l, kd, u) = sample_files ! i in
          Some \<lparr>i_kind = kd, i_mode = 493, i_uid = u, i_gid = 20, i_atime = (1, 0), i_mtime = (2, 0), i_xattr = []\<rparr>
        else None),
      next_ino = 6, fds = (\<lambda>_. None), next_fd = 3, plans = [],
      proc = \<lparr>ruid = 501, euid = uid, suid = 0, rgid = 20, egid = 20, sgid = 20, group_list = [20]\<rparr>,
      acls = (\<lambda>i. if i = 2 then Some [sample_entry] else None), dirent_types = types, warned = []\<rparr>"

definition wf_check :: "'z kernel_scheme \<Rightarrow> bool" where
  "wf_check k \<longleftrightarrow>
     distinct (map fst (dir_table k)) \<and>
     list_all (\<lambda>(l, i). inodes k i \<noteq> None \<and> i < next_ino k \<and> placeable k l) (dir_table k)"

lemma wf_checkI: "wf_check k \<Longrightarrow> fds k = (\<lambda>_. None) \<Longrightarrow> wf_kernel k"
  by (auto simp: wf_check_def wf_kernel_def list_all_iff)

lemma sample_wf: "wf_kernel (sample_machine 0 b)"
proof (rule wf_checkI)
  show "wf_check (sample_machine 0 b)" by (cases b) code_simp+
qed (simp add: sample_machine_def)

lemma sample_acls: "length (acl_entries (sample_machine u b) i) \<le> acl_max_entries"
  by (simp add: sample_machine_def acl_entries_def acl_max_entries_def)

lemma sample_plans: "plans (sample_machine u b) = []"
  by (simp add: sample_machine_def)

lemma sample_other: "\<forall>a \<in> set (acl_entries (sample_machine u b) i). ace_qualifier a \<noteq> Some 1501"
  by (simp add: sample_machine_def acl_entries_def sample_entry_def)

section \<open>Properties\<close>

lemma stripped_entries:
  assumes e: "edits A uu k k'" and strip: "\<And>i. i \<in> A \<Longrightarrow> stripped uu i k'"
    and len: "\<And>i. length (acl_entries k i) \<le> acl_max_entries"
  shows "acl_entries k' =
     (\<lambda>i. if i \<in> A \<inter> acl_writable k then others uu (acl_entries k i) else acl_entries k i)"
proof
  fix i
  have st: "same_store k k'" and keep: "others uu (acl_entries k' i) = others uu (acl_entries k i)"
    and rest: "i \<notin> A \<inter> acl_writable k \<Longrightarrow> acl_entries k' i = acl_entries k i"
    using e by (simp_all add: edits_def acl_entries_def)
  have "acl_entries k' i = others uu (acl_entries k i)" if "i \<in> A \<inter> acl_writable k"
  proof -
    have "i \<in> acl_writable k'" using that same_storeD [OF st] by (simp add: acl_writable_def)
    then show ?thesis
      using strip [of i] that keep le_trans [OF others_length len] by (simp add: stripped_def)
  qed
  then show "acl_entries k' i =
      (if i \<in> A \<inter> acl_writable k then others uu (acl_entries k i) else acl_entries k i)"
    using rest by simp
qed

lemma removal_spec:
  assumes "wf_kernel k" and "plans k = []" and uu: "mbr uid = Inr uu"
    and len: "\<And>i. length (acl_entries k i) \<le> acl_max_entries"
  shows "\<exists>k'. remove_recursive mbr p uid k = (Inr (), k') \<and> same_store k k' \<and> plans k' = [] \<and>
     acl_entries k' =
       (\<lambda>i. if i \<in> tree_inos k p \<inter> acl_writable k then others uu (acl_entries k i) else acl_entries k i)"
proof -
  let ?sweep = "sweep (\<lambda>cp d. do_remove_user_entries cp uu) p k"
  have e: "edits (tree_inos k p) uu k (snd ?sweep)"
    using stripping.sweep_edits [OF assms(1), where p = p] assms(2) by (simp add: truthful_def)
  have "remove_recursive mbr p uid k = ?sweep"
    using uu by (simp add: remove_recursive_def uid_to_uuid_def bind_s_def lift_s_def)
  moreover have "?sweep = (Inr (), snd ?sweep)" by (rule stripping.sweep_run)
  ultimately show ?thesis
    using e assms(2) stripped_entries [OF e stripping.sweep_handles [OF assms(1,2)] len]
    by (intro exI [of _ "snd ?sweep"]) (simp add: edits_def)
qed

text \<open>The same of one file.\<close>

lemma file_removal_spec:
  assumes "plans k = []" and uu: "mbr uid = Inr uu"
    and len: "\<And>i. length (acl_entries k i) \<le> acl_max_entries"
  shows "\<exists>r k'. remove_user_entries mbr p uid k = (r, k') \<and> same_store k k' \<and> plans k' = [] \<and>
     acl_entries k' =
       (\<lambda>i. if leads_to k p i \<and> i \<in> acl_writable k then others uu (acl_entries k i) else acl_entries k i)"
proof -
  let ?run = "do_remove_user_entries p uu k"
  have e: "edits {i. leads_to k p i} uu k (snd ?run)"
    using keepsD [OF keeps_remove [of k p] edits_refl] assms(1) by (simp add: truthful_def)
  moreover have "remove_user_entries mbr p uid k = ?run"
    using uu by (simp add: remove_user_entries_def uid_to_uuid_def bind_s_def lift_s_def)
  moreover have "stripped uu i (snd ?run)" if "i \<in> {i. leads_to k p i}" for i
    using that stripping.reaches [OF assms(1)] by simp
  ultimately show ?thesis
    using assms(1) stripped_entries [OF e _ len]
    by (intro exI [of _ "fst ?run"] exI [of _ "snd ?run"]) (simp add: edits_def)
qed

text \<open>C12: Removing the entries of a user from a tree removes exactly these, in the files that the process
  may change and that are neither symbolic links nor reached through one.  The order of the other
  entries stays, and so does everything else.  The loop that restarts after every deletion, and the
  bound on the depth of the walk, change nothing of this.\<close>

theorem removal_exact:
  assumes "wf_kernel k" and "plans k = []" and "mbr uid = Inr uu"
    and "\<And>i. length (acl_entries k i) \<le> acl_max_entries"
  shows "\<exists>k'. remove_recursive mbr p uid k = (Inr (), k') \<and> same_store k k' \<and> plans k' = [] \<and>
     acl_entries k' =
       (\<lambda>i. if i \<in> tree_inos k p \<inter> acl_writable k then others uu (acl_entries k i) else acl_entries k i)"
  by (rule removal_spec [where uu = uu]) (simp_all add: assms)

theorem removal_exact_witness:
  "\<exists>k'. remove_recursive sample_member ''/w'' 501 (sample_machine 0 True) = (Inr (), k') \<and>
     same_store (sample_machine 0 True) k' \<and> plans k' = [] \<and>
     acl_entries k' =
       (\<lambda>i. if i \<in> tree_inos (sample_machine 0 True) ''/w'' \<inter> acl_writable (sample_machine 0 True)
            then others 1501 (acl_entries (sample_machine 0 True) i)
            else acl_entries (sample_machine 0 True) i)"
  by (rule removal_exact [OF sample_wf])
    (simp_all add: sample_member_def sample_acls sample_plans)

text \<open>C13: Granting a user access to a tree and removing the grant again restores every list of every
  file, if the user had no entries before: also where files of other owners are in the tree, where
  lists are full, where files are linked more than once, and whatever permissions are granted.\<close>

theorem grant_then_remove:
  assumes "wf_kernel k" and "plans k = []" and uu: "mbr uid = Inr uu"
    and len: "\<And>i. length (acl_entries k i) \<le> acl_max_entries"
    and none: "\<And>i. \<forall>a \<in> set (acl_entries k i). ace_qualifier a \<noteq> Some uu"
  shows "acl_entries (snd (remove_recursive mbr p uid (snd (apply_recursive mbr p uid perms k)))) = acl_entries k"
proof -
  let ?k1 = "snd (apply_recursive mbr p uid perms k)"
  have e: "edits (tree_inos k p) uu k ?k1"
    using granting.sweep_edits [OF assms(1), where mbr = mbr and uid = uid and perms = perms and p = p]
      assms(2) uu by (simp add: truthful_def apply_recursive_def user_uuid_def)
  then have st: "same_store k ?k1" and free: "plans ?k1 = []" using assms(2) by (simp_all add: edits_def)
  have wf: "wf_kernel ?k1" using same_store_wf [OF st] assms(1) by simp
  have short: "length (acl_entries ?k1 i) \<le> acl_max_entries" for i
    using e len [of i] by (auto simp: edits_def acl_entries_def dest!: spec [of _ i])
  have same: "tree_inos ?k1 p = tree_inos k p" "acl_writable ?k1 = acl_writable k"
    using same_storeD [OF st] by (simp_all add: tree_inos_def acl_writable_def)
  have clean: "others uu (acl_entries k i) = acl_entries k i" for i
    using none [of i] by (simp add: others_id names_user_def)
  obtain k' where "remove_recursive mbr p uid ?k1 = (Inr (), k')" and k': "acl_entries k' =
       (\<lambda>i. if i \<in> tree_inos k p \<inter> acl_writable k then others uu (acl_entries ?k1 i) else acl_entries ?k1 i)"
    using removal_spec [where k = ?k1 and p = p and mbr = mbr and uid = uid and uu = uu, OF wf free uu] short unfolding same by blast
  moreover have "acl_entries k' i = acl_entries k i" for i
    using e k' clean by (simp add: edits_def acl_entries_def)
  ultimately show ?thesis by auto
qed

theorem grant_then_remove_witness:
  "acl_entries (snd (remove_recursive sample_member ''/w'' 501
     (snd (apply_recursive sample_member ''/w'' 501 kReadWriteExec (sample_machine 0 False))))) =
   acl_entries (sample_machine 0 False)"
  by (rule grant_then_remove [OF sample_wf, where uu = 1501])
    (simp_all add: sample_member_def sample_acls sample_plans sample_other)



text \<open>C15: If no call fails, a grant reaches every file of the tree that the process may change, whose list
  is not full: each has an entry that allows what was asked for.\<close>

theorem grants_reach_tree:
  assumes "wf_kernel k" and "plans k = []" and "mbr uid = Inr uu"
    and "i \<in> tree_inos k p" and "i \<in> acl_writable k"
  shows "(\<exists>d. new_entry uu perms d \<in> set (acl_entries (snd (apply_recursive mbr p uid perms k)) i)) \<or>
     length (acl_entries (snd (apply_recursive mbr p uid perms k)) i) \<ge> acl_max_entries"
proof -
  let ?k' = "snd (apply_recursive mbr p uid perms k)"
  have "edits (tree_inos k p) uu k ?k'"
    using granting.sweep_edits [OF assms(1), where mbr = mbr and uid = uid and perms = perms and p = p] assms(2,3)
    by (simp add: truthful_def apply_recursive_def user_uuid_def)
  then have "i \<in> acl_writable ?k'"
    using assms(5) same_storeD [of k ?k'] by (simp add: acl_writable_def edits_def)
  then show ?thesis
    using granting_all.sweep_handles [OF assms(1,2,4), where mbr = mbr and uid = uid and perms = perms] assms(3)
    by (simp add: entered_def apply_recursive_def)
qed

theorem grants_reach_tree_witness:
  "(\<exists>d. new_entry 1501 kRead d \<in>
      set (acl_entries (snd (apply_recursive sample_member ''/w'' 501 kRead (sample_machine 0 True))) 3)) \<or>
   length (acl_entries (snd (apply_recursive sample_member ''/w'' 501 kRead (sample_machine 0 True))) 3)
     \<ge> acl_max_entries"
proof (rule grants_reach_tree [OF sample_wf])
  have "lookup_path (sample_machine 0 True) ''/w'' False = Inr [''w'']"
    "entry (sample_machine 0 True) [''w'', ''r''] = Some 3"
    "map_option i_kind (inodes (sample_machine 0 True) 3) = Some (Reg ''x'')" by code_simp+
  then show "3 \<in> tree_inos (sample_machine 0 True) ''/w''"
    unfolding tree_inos_def
    by (auto intro!: exI [of _ "[''w'']"] exI [of _ "[''w'', ''r'']"])
  show "3 \<in> acl_writable (sample_machine 0 True)"
    by (simp add: acl_writable_def may_set_acl_def sample_machine_def split: prod.split)
qed (simp_all add: sample_member_def sample_plans)

end
