(* ===== verification/Credentials.thy ===== *)
theory Credentials
  imports Machine Config
begin

text \<open>
  \<open>src/cred.h\<close> and \<open>src/cred.cc\<close>: user and group identities, looked up and taken on.

  The calls that change the identity of the process follow the manual pages of macOS
  (\<open>setuid(2)\<close>, \<open>setgroups(2)\<close>).  The account database is an argument of the operations
  that ask it.
\<close>

section \<open>Calls\<close>

definition id_call :: "(ids \<Rightarrow> nat + ids) \<Rightarrow> ('z machine_ext, unit) sys" where
  "id_call f =
     syscall (\<lambda>k. case f (proc k) of Inl e \<Rightarrow> (Inl e, k) | Inr p \<Rightarrow> (Inr (), k\<lparr>proc := p\<rparr>))"

definition setuid_ids :: "nat \<Rightarrow> ids \<Rightarrow> nat + ids" where
  "setuid_ids u p =
     (if euid p = 0 \<or> u = euid p then Inr (p\<lparr>ruid := u, euid := u, suid := u\<rparr>)
      else if u = ruid p then Inr (p\<lparr>euid := u\<rparr>)
      else Inl EPERM)"

definition seteuid_ids :: "nat \<Rightarrow> ids \<Rightarrow> nat + ids" where
  "seteuid_ids u p =
     (if euid p = 0 \<or> u = ruid p \<or> u = suid p then Inr (p\<lparr>euid := u\<rparr>) else Inl EPERM)"

definition setgid_ids :: "nat \<Rightarrow> ids \<Rightarrow> nat + ids" where
  "setgid_ids g p =
     (if euid p = 0 \<or> g = egid p then Inr (p\<lparr>rgid := g, egid := g, sgid := g\<rparr>)
      else if g = rgid p then Inr (p\<lparr>egid := g\<rparr>)
      else Inl EPERM)"

definition setegid_ids :: "nat \<Rightarrow> ids \<Rightarrow> nat + ids" where
  "setegid_ids g p =
     (if euid p = 0 \<or> g = rgid p \<or> g = sgid p then Inr (p\<lparr>egid := g\<rparr>) else Inl EPERM)"

definition ngroups_max :: nat where "ngroups_max = 16"

definition setgroups_ids :: "nat list \<Rightarrow> ids \<Rightarrow> nat + ids" where
  "setgroups_ids gs p =
     (if euid p \<noteq> 0 then Inl EPERM
      else if length gs > ngroups_max then Inl EINVAL
      else Inr (p\<lparr>group_list := gs\<rparr>))"

definition sys_setuid :: "nat \<Rightarrow> ('z machine_ext, unit) sys" where
  "sys_setuid u = id_call (setuid_ids u)"

definition sys_seteuid :: "nat \<Rightarrow> ('z machine_ext, unit) sys" where
  "sys_seteuid u = id_call (seteuid_ids u)"

definition sys_setgid :: "nat \<Rightarrow> ('z machine_ext, unit) sys" where
  "sys_setgid g = id_call (setgid_ids g)"

definition sys_setegid :: "nat \<Rightarrow> ('z machine_ext, unit) sys" where
  "sys_setegid g = id_call (setegid_ids g)"

definition sys_setgroups :: "nat list \<Rightarrow> ('z machine_ext, unit) sys" where
  "sys_setgroups gs = id_call (setgroups_ids gs)"

text \<open>
  \<open>getgroups(n, buf)\<close> gives the groups; their number is all that a call with \<open>n = 0\<close> gives.
\<close>

definition sys_getgroups :: "nat \<Rightarrow> ('z machine_ext, nat list) sys" where
  "sys_getgroups n =
     syscall (\<lambda>k.
       let gs = group_list (proc k) in
       if n \<noteq> 0 \<and> length gs > n then (Inl EINVAL, k) else (Inr gs, k))"

section \<open>Looking up accounts\<close>

text \<open>
  \<open>DbEnt::find\<close>: \<open>fn\<close> is the reentrant lookup with its key, given the size of the buffer; its
  answer is the return value and the entry.  A lookup that always asks for more space never ends.
\<close>

partial_function (option) db_find ::
    "(nat \<Rightarrow> nat \<times> 'ent option) \<Rightarrow> nat \<Rightarrow> (error + 'ent option) option" where
  "db_find fn buf =
     (case fn buf of (r, p) \<Rightarrow>
        if r = 0 then Some (Inr p)
        else if r = ERANGE then db_find fn (2 * buf)
        else if r = ENOENT then Some (Inr None)
        else Some (Inl (SysError r ''DbEnt::find'')))"

definition db_get :: "(nat \<Rightarrow> nat \<times> 'ent option) \<Rightarrow> (error + 'ent option) option" where
  "db_get fn = db_find fn 128"

section \<open>Credentials\<close>

definition no_id :: int where "no_id = 2 ^ 32 - 1"

record credentials =
  c_uid :: nat
  c_gid :: nat
  c_groups :: "nat list"

definition no_credentials :: credentials where
  "no_credentials = \<lparr>c_uid = nat no_id, c_gid = nat no_id, c_groups = []\<rparr>"

definition populated :: "credentials \<Rightarrow> bool" where
  "populated c \<longleftrightarrow> int (c_uid c) \<noteq> no_id"

text \<open>
  \<open>getgrouplist(name, gid, buf, &n)\<close>: from the room in the buffer to the return value, the
  new value of \<open>n\<close> and the groups stored.
\<close>

type_synonym grouplist = "string \<Rightarrow> nat \<Rightarrow> nat \<Rightarrow> int \<times> nat \<times> nat list"

definition get_user :: "grouplist \<Rightarrow> passwd \<Rightarrow> error + credentials" where
  "get_user gl pw =
     (let ret = \<lparr>c_uid = pw_uid pw, c_gid = pw_gid pw, c_groups = []\<rparr>;
          (r, n, _) = gl (pw_name pw) (pw_gid pw) 0
      in if r \<noteq> -1 then Inr ret
         else
           let (r', n', gs) = gl (pw_name pw) (pw_gid pw) n in
           if r' < 0 then Inl (RuntimeError (''getgrouplist('' @ pw_name pw @ '') failed''))
           else Inr (ret\<lparr>c_groups := take n' gs\<rparr>))"

definition kJaimSystemUser :: string where "kJaimSystemUser = ''_jaim''"

definition get_jaim_user :: "(string \<Rightarrow> error + passwd option) \<Rightarrow> grouplist \<Rightarrow> error + credentials" where
  "get_jaim_user getpwnam gl =
     (case getpwnam kJaimSystemUser of
        Inl e \<Rightarrow> Inl e
      | Inr (Some pw) \<Rightarrow> get_user gl pw
      | Inr None \<Rightarrow> Inr no_credentials)"

primrec getgroups_tries :: "nat \<Rightarrow> ('z, nat list) mstep" where
  "getgroups_tries 0 = throw_s (RuntimeError ''getgroups: consistently unable to get actual groups'')"
| "getgroups_tries (Suc i) =
     bind_s (or_syserr ''getgroups'' (sys_getgroups 0)) (\<lambda>gs0.
     bind_s (attempt (sys_getgroups (length gs0))) (\<lambda>r.
       case r of
         Inl e \<Rightarrow> getgroups_tries i
       | Inr gs \<Rightarrow>
           if length gs > length gs0 then
             throw_s (RuntimeError (''getgroups: expected '' @ show_nat (length gs0) @
               '' groups but got '' @ show_nat (length gs)))
           else return_s gs))"

definition getgroups :: "('z, nat list) mstep" where
  "getgroups = getgroups_tries 4"

definition get_effective :: "('z, credentials) mstep" where
  "get_effective =
     bind_s (get_s proc) (\<lambda>p.
     bind_s getgroups (\<lambda>gs. return_s \<lparr>c_uid = euid p, c_gid = egid p, c_groups = gs\<rparr>))"

definition get_real :: "('z, credentials) mstep" where
  "get_real =
     bind_s (get_s proc) (\<lambda>p.
     bind_s getgroups (\<lambda>gs. return_s \<lparr>c_uid = ruid p, c_gid = rgid p, c_groups = gs\<rparr>))"

text \<open>\<open>groups_ != getgroups() && setgroups(\<dots>)\<close>\<close>

definition adopt_groups :: "credentials \<Rightarrow> ('z, unit) mstep" where
  "adopt_groups c =
     bind_s getgroups (\<lambda>gs.
       if c_groups c \<noteq> gs then or_syserr ''setgroups'' (sys_setgroups (c_groups c)) else return_s ())"

definition make_effective :: "credentials \<Rightarrow> ('z, unit) mstep" where
  "make_effective c =
     bind_s (get_s proc) (\<lambda>p0.
       if euid p0 \<noteq> 0 then return_s ()
       else
         bind_s (adopt_groups c) (\<lambda>_.
         bind_s (get_s proc) (\<lambda>p.
         bind_s (if c_gid c \<noteq> egid p then or_syserr ''setegid'' (sys_setegid (c_gid c)) else return_s ()) (\<lambda>_.
           or_syserr ''seteuid'' (sys_seteuid (c_uid c))))))"

definition make_real :: "credentials \<Rightarrow> ('z, unit) mstep" where
  "make_real c =
     bind_s (get_s proc) (\<lambda>p0.
       if euid p0 \<noteq> 0 then return_s ()
       else
         bind_s (adopt_groups c) (\<lambda>_.
         bind_s (get_s proc) (\<lambda>p.
         bind_s (if c_gid c \<noteq> rgid p then or_syserr ''setgid'' (sys_setgid (c_gid c)) else return_s ()) (\<lambda>_.
           or_syserr ''setuid'' (sys_setuid (c_uid c))))))"

definition enter_permanently :: "credentials \<Rightarrow> ('z, unit) mstep" where
  "enter_permanently c =
     bind_s (get_s proc) (\<lambda>p0.
       if euid p0 \<noteq> 0 then
         throw_s (RuntimeError (''enter_permanently called with euid='' @ show_nat (euid p0) @ '' (not root)''))
       else if \<not> populated c then
         throw_s (RuntimeError ''enter_permanently called on an unpopulated Credentials'')
       else
         bind_s (or_syserr ''setgroups'' (sys_setgroups (c_groups c))) (\<lambda>_.
         bind_s (or_syserr ''setgid'' (sys_setgid (c_gid c))) (\<lambda>_.
           or_syserr ''setuid'' (sys_setuid (c_uid c)))))"

text \<open>The loop of \<open>show\<close> puts a comma before every group but the first.\<close>

fun join_groups :: "bool \<Rightarrow> nat list \<Rightarrow> string" where
  "join_groups first [] = []"
| "join_groups first (g # gs) = (if first then [] else '','') @ show_nat g @ join_groups False gs"

definition show_credentials :: "credentials \<Rightarrow> string" where
  "show_credentials c =
     ''uid='' @ show_nat (c_uid c) @ '' gid='' @ show_nat (c_gid c) @
     (if c_groups c = [] then [] else '' groups='' @ join_groups True (c_groups c))"

end
