(* ===== verification/Credentials_Facts.thy ===== *)
theory Credentials_Facts
  imports Credentials Acl_Theorems
begin

text \<open>
  Taking on an identity: what the process is afterwards, and what it can still become.
\<close>

section \<open>Runs of the calls\<close>

lemma id_call_Inr: "id_call f k = (Inr r, k') \<Longrightarrow> f (proc k) = Inr (proc k')"
  unfolding id_call_def syscall_def by (auto split: list.splits plan.splits sum.splits)

lemma id_call_Inl: "id_call f k = (Inl e, k') \<Longrightarrow> proc k' = proc k"
  unfolding id_call_def syscall_def by (auto split: list.splits plan.splits sum.splits)

lemma or_syserr_cases:
  "or_syserr msg m k = (r, k') \<Longrightarrow>
     (\<exists>a. r = Inr a \<and> m k = (Inr a, k')) \<or> (\<exists>e. r = Inl (SysError e msg) \<and> m k = (Inl e, k'))"
  by (auto simp: or_syserr_def split: prod.splits sum.splits)

lemma bind_s_cases:
  "bind_s m f k = (r, k') \<Longrightarrow>
     (\<exists>a k1. m k = (Inr a, k1) \<and> f a k1 = (r, k')) \<or> (\<exists>e. m k = (Inl e, k') \<and> r = Inl e)"
  by (auto simp: bind_s_def split: prod.splits sum.splits)

text \<open>The calls change one thing each.\<close>

lemma setuid_as_root: "euid p = 0 \<Longrightarrow> setuid_ids u p = Inr (p\<lparr>ruid := u, euid := u, suid := u\<rparr>)"
  by (simp add: setuid_ids_def)

lemma setgid_as_root: "euid p = 0 \<Longrightarrow> setgid_ids g p = Inr (p\<lparr>rgid := g, egid := g, sgid := g\<rparr>)"
  by (simp add: setgid_ids_def)

lemma other_ids:
  "setgroups_ids gs p = Inr q \<Longrightarrow> ruid q = ruid p \<and> euid q = euid p \<and> suid q = suid p"
  "setgid_ids g p = Inr q \<Longrightarrow> ruid q = ruid p \<and> euid q = euid p \<and> suid q = suid p"
  by (auto simp: setgroups_ids_def setgid_ids_def split: if_splits)

section \<open>What a process can still become\<close>

datatype id_op = Setuid nat | Seteuid nat | Setgid nat | Setegid nat | Setgroups "nat list"

definition perform :: "id_op \<Rightarrow> ('z machine_ext, unit) sys" where
  "perform c =
     (case c of
        Setuid u \<Rightarrow> sys_setuid u | Seteuid u \<Rightarrow> sys_seteuid u
      | Setgid g \<Rightarrow> sys_setgid g | Setegid g \<Rightarrow> sys_setegid g
      | Setgroups gs \<Rightarrow> sys_setgroups gs)"

definition perform_all :: "id_op list \<Rightarrow> 'z machine_scheme \<Rightarrow> 'z machine_scheme" where
  "perform_all cs k = fold (\<lambda>c k. snd (perform c k)) cs k"

definition unprivileged :: "ids \<Rightarrow> bool" where
  "unprivileged p \<longleftrightarrow>
     euid p \<noteq> 0 \<and> ruid p = euid p \<and> suid p = euid p \<and> rgid p = egid p \<and> sgid p = egid p"

lemma id_call_proc: "proc (snd (id_call f k)) = (case f (proc k) of Inl e \<Rightarrow> proc k | Inr p \<Rightarrow> p) \<or>
    proc (snd (id_call f k)) = proc k"
  unfolding id_call_def syscall_def by (auto split: list.splits plan.splits sum.splits)

lemma perform_stuck:
  assumes "unprivileged (proc k)"
  shows "proc (snd (perform c k)) = proc k"
proof -
  have stuck: "proc (snd (id_call f k)) = proc k" if "\<And>p. f (proc k) = Inr p \<Longrightarrow> p = proc k" for f
    using id_call_proc [of f k] that by (auto split: sum.splits)
  then show ?thesis
    using assms
    by (cases c) (auto simp: perform_def sys_setuid_def sys_seteuid_def sys_setgid_def sys_setegid_def
        sys_setgroups_def setuid_ids_def seteuid_ids_def setgid_ids_def setegid_ids_def
        setgroups_ids_def unprivileged_def intro!: stuck split: if_splits)
qed

lemma perform_all_stuck: "unprivileged (proc k) \<Longrightarrow> proc (perform_all cs k) = proc k"
  unfolding perform_all_def
  by (induction cs arbitrary: k) (simp_all add: perform_stuck)

section \<open>Properties\<close>

lemma enter_permanently_ids:
  assumes "enter_permanently c k = (Inr (), k')"
  shows "proc k' =
      \<lparr>ruid = c_uid c, euid = c_uid c, suid = c_uid c, rgid = c_gid c, egid = c_gid c, sgid = c_gid c,
       group_list = c_groups c\<rparr>"
proof -
  have root: "euid (proc k) = 0"
    using assms by (auto simp: enter_permanently_def throw_s_def split: if_splits)
  with assms obtain k1 k2 where
    "sys_setgroups (c_groups c) k = (Inr (), k1)" "sys_setgid (c_gid c) k1 = (Inr (), k2)"
    "sys_setuid (c_uid c) k2 = (Inr (), k')"
    by (auto simp: enter_permanently_def throw_s_def split: if_splits dest!: bind_s_cases or_syserr_cases)
  then have "setgroups_ids (c_groups c) (proc k) = Inr (proc k1)"
    "setgid_ids (c_gid c) (proc k1) = Inr (proc k2)" "setuid_ids (c_uid c) (proc k2) = Inr (proc k')"
    by (auto simp: sys_setgroups_def sys_setgid_def sys_setuid_def dest: id_call_Inr)
  moreover from this(1) have 1: "proc k1 = (proc k)\<lparr>group_list := c_groups c\<rparr>"
    by (auto simp: setgroups_ids_def split: if_splits)
  moreover from this root calculation(2) have
    2: "proc k2 = (proc k1)\<lparr>rgid := c_gid c, egid := c_gid c, sgid := c_gid c\<rparr>"
    by (simp add: setgid_as_root)
  ultimately have "proc k' = (proc k2)\<lparr>ruid := c_uid c, euid := c_uid c, suid := c_uid c\<rparr>"
    using root by (simp add: setuid_as_root)
  then show ?thesis using 1 2 by simp
qed

text \<open>C11: When \<open>enter_permanently\<close> returns, the real, effective and saved ids are those asked for and so are
  the groups; and unless this is root, no sequence of the calls that change ids changes any of
  them again.\<close>

theorem drop_is_permanent:
  assumes "enter_permanently c k = (Inr (), k')"
  shows "proc k' =
      \<lparr>ruid = c_uid c, euid = c_uid c, suid = c_uid c, rgid = c_gid c, egid = c_gid c, sgid = c_gid c,
       group_list = c_groups c\<rparr> \<and>
    (c_uid c = 0 \<or> proc (perform_all cs k') = proc k')"
  using enter_permanently_ids [OF assms] perform_all_stuck [of k' cs] by (auto simp: unprivileged_def)

theorem drop_is_permanent_witness:
  "proc (perform_all [Seteuid 0, Setuid 0, Setgid 0]
      (snd (enter_permanently \<lparr>c_uid = 305, c_gid = 306, c_groups = [306, 12]\<rparr> (sample_machine 0 True)))) =
   \<lparr>ruid = 305, euid = 305, suid = 305, rgid = 306, egid = 306, sgid = 306, group_list = [306, 12]\<rparr>"
proof -
  let ?c = "\<lparr>c_uid = 305, c_gid = 306, c_groups = [306, 12]\<rparr>"
  have "fst (enter_permanently ?c (sample_machine 0 True)) = Inr ()"
    by (simp add: enter_permanently_def populated_def no_id_def bind_s_def or_syserr_def
        sys_setgroups_def sys_setgid_def sys_setuid_def id_call_def syscall_def sample_machine_def
        setgroups_ids_def setgid_ids_def setuid_ids_def ngroups_max_def)
  then obtain k' where run: "enter_permanently ?c (sample_machine 0 True) = (Inr (), k')"
    by (cases "enter_permanently ?c (sample_machine 0 True)") simp
  then show ?thesis using drop_is_permanent [OF run, of "[Seteuid 0, Setuid 0, Setgid 0]"] by simp
qed

text \<open>A failure leaves the user ids as they were: the process is still root and must not go on.\<close>

lemma failed_drop:
  assumes "enter_permanently c k = (Inl e, k')"
  shows "ruid (proc k') = ruid (proc k) \<and> euid (proc k') = euid (proc k) \<and> suid (proc k') = suid (proc k)"
  using assms unfolding enter_permanently_def sys_setgroups_def sys_setgid_def sys_setuid_def
  by (auto simp: throw_s_def split: if_splits
      dest!: bind_s_cases or_syserr_cases id_call_Inr id_call_Inl)
    (auto dest!: other_ids)

lemma getgroups_reads:
  "getgroups_tries n k = (Inr gs, k') \<Longrightarrow> gs = group_list (proc k) \<and> proc k' = proc k"
proof (induction n arbitrary: k)
  case (Suc n)
  have calls: "sys_getgroups m k = (r, k') \<Longrightarrow> proc k' = proc k \<and> (\<forall>gs. r = Inr gs \<longrightarrow> gs = group_list (proc k))"
    for m and k k' :: "'a machine_scheme" and r
    by (auto simp: sys_getgroups_def syscall_def Let_def split: list.splits plan.splits if_splits)
  from Suc.prems obtain gs0 k1 r k2 where "sys_getgroups 0 k = (Inr gs0, k1)"
    "sys_getgroups (length gs0) k1 = (r, k2)"
    and rest: "(case r of Inl e \<Rightarrow> getgroups_tries n
       | Inr gs \<Rightarrow> if length gs > length gs0 then throw_s (RuntimeError (''getgroups: expected '' @
             show_nat (length gs0) @ '' groups but got '' @ show_nat (length gs)))
           else return_s gs) k2 = (Inr gs, k')"
    by (auto simp: attempt_def dest!: bind_s_cases or_syserr_cases split: prod.splits)
  then have "proc k2 = proc k" "\<forall>gs. r = Inr gs \<longrightarrow> gs = group_list (proc k)" using calls by metis+
  then show ?case using rest Suc.IH [of k2]
    by (auto simp: return_s_def throw_s_def split: sum.splits if_splits)
qed (simp add: throw_s_def)

lemma adopted:
  assumes "adopt_groups c k = (Inr (), k')"
  shows "proc k' = (proc k)\<lparr>group_list := c_groups c\<rparr>"
proof -
  from assms obtain gs k1 where "getgroups k = (Inr gs, k1)"
    and rest: "(if c_groups c \<noteq> gs then or_syserr ''setgroups'' (sys_setgroups (c_groups c)) else return_s ()) k1 = (Inr (), k')"
    by (auto simp: adopt_groups_def dest!: bind_s_cases)
  then have "gs = group_list (proc k)" "proc k1 = proc k" by (auto simp: getgroups_def dest: getgroups_reads)
  then show ?thesis using rest
    by (auto simp: return_s_def sys_setgroups_def setgroups_ids_def dest!: or_syserr_cases id_call_Inr split: if_splits)
qed

text \<open>C36: The effective identity that \<open>make_effective\<close> takes on is the one that \<open>get_effective\<close> then reads.\<close>

theorem effective_identity_reads_back:
  assumes run: "make_effective c k = (Inr (), k')" and root: "euid (proc k) = 0" and "plans k' = []"
  shows "get_effective k' = (Inr c, k')"
proof -
  from run root obtain k1 k2 where a: "adopt_groups c k = (Inr (), k1)"
    and g: "(if c_gid c \<noteq> egid (proc k1) then or_syserr ''setegid'' (sys_setegid (c_gid c)) else return_s ()) k1 = (Inr (), k2)"
    and u: "sys_seteuid (c_uid c) k2 = (Inr (), k')"
    by (auto simp: make_effective_def return_s_def dest!: bind_s_cases or_syserr_cases)
  have 1: "group_list (proc k1) = c_groups c \<and> euid (proc k1) = 0"
    using adopted [OF a] root by simp
  have 2: "proc k2 = (proc k1)\<lparr>egid := c_gid c\<rparr>" using g 1 
    by (auto simp: return_s_def sys_setegid_def setegid_ids_def dest!: or_syserr_cases id_call_Inr split: if_splits)
  have 3: "proc k' = (proc k2)\<lparr>euid := c_uid c\<rparr>" using u 1 2
    by (auto simp: sys_seteuid_def seteuid_ids_def dest!: id_call_Inr split: if_splits)
  show ?thesis using 1 2 3 assms(3)
    by (simp add: get_effective_def getgroups_def numeral_eq_Suc sys_getgroups_def syscall_def bind_s_def
       or_syserr_def attempt_def return_s_def Let_def get_s_def)
qed

theorem effective_identity_reads_back_witness:
  "\<exists>k' :: machine. get_effective k' = (Inr \<lparr>c_uid = 501, c_gid = 21, c_groups = [21, 12]\<rparr>, k') \<and> suid (proc k') = 0"
proof -
  let ?c = "\<lparr>c_uid = 501, c_gid = 21, c_groups = [21, 12]\<rparr>" and ?m = "sample_machine 0 True"
  let ?k' = "?m\<lparr>proc := (proc ?m)\<lparr>euid := 501, egid := 21, group_list := [21, 12]\<rparr>\<rparr>"
  have "make_effective ?c ?m = (Inr (), ?k')"
    by (simp add: make_effective_def adopt_groups_def getgroups_def numeral_eq_Suc sys_getgroups_def
        bind_s_def or_syserr_def attempt_def return_s_def get_s_def Let_def
        sys_setgroups_def sys_setegid_def sys_seteuid_def id_call_def syscall_def sample_machine_def
        setgroups_ids_def setegid_ids_def seteuid_ids_def ngroups_max_def)
  then have "get_effective ?k' = (Inr ?c, ?k')"
    by (rule effective_identity_reads_back) (simp_all add: sample_machine_def)
  moreover have "suid (proc ?k') = 0" by (simp add: sample_machine_def)
  ultimately show ?thesis by blast
qed

lemma db_find_ends:
  assumes "\<And>n. N \<le> n \<Longrightarrow> fst (fn n) \<noteq> ERANGE"
  shows "0 < buf \<Longrightarrow> \<exists>r. db_find fn buf = Some r"
proof (induction "N - buf" arbitrary: buf rule: less_induct)
  case less
  obtain r p where f: "fn buf = (r, p)" by (cases "fn buf")
  show ?case
  proof (cases "r = ERANGE")
    case True
    then have "buf < N" using assms [of buf] f by fastforce
    then show ?thesis using less.hyps [of "2 * buf"] less.prems f True
      by (subst db_find.simps) (simp add: ERANGE_def)
  next
    case False
    then show ?thesis using f by (subst db_find.simps) simp
  qed
qed

text \<open>A lookup in the account database ends as soon as there is a size from which the database stops
  asking for a larger buffer.\<close>

theorem account_lookup_ends:
  assumes "\<And>n. N \<le> n \<Longrightarrow> fst (fn n) \<noteq> ERANGE"
  shows "\<exists>r. db_get fn = Some r"
  unfolding db_get_def by (rule db_find_ends [OF assms]) simp_all

theorem account_lookup_ends_witness:
  "\<exists>r. db_get (\<lambda>n. if n < 1000 then (ERANGE, None) else (0, Some ''_jaim'')) = Some r"
  by (rule account_lookup_ends [of 1000]) (simp add: ERANGE_def)

end
