(* ===== verification/Files.thy ===== *)
theory Files
  imports Machine
begin

unbundle bit_operations_syntax

text \<open>
  Reading and writing whole files, as \<open>src/fs.cc\<close> and \<open>Config::make_script\<close> do: descriptors
  are closed on every way out, and what a call refuses depends on the ids of the process.
\<close>

section \<open>Permissions\<close>

definition EFBIG :: nat where "EFBIG = 27"

definition has_bit :: "nat \<Rightarrow> nat \<Rightarrow> bool" where
  "has_bit m b \<longleftrightarrow> (m div b) mod 2 = 1"

text \<open>The read permission of a file: bits 0400, 040 and 04.\<close>

definition may_read :: "ids \<Rightarrow> inode \<Rightarrow> bool" where
  "may_read p nd \<longleftrightarrow>
     euid p = 0 \<or>
     (if euid p = i_uid nd then has_bit (i_mode nd) 256
      else if i_gid nd = egid p \<or> i_gid nd \<in> set (group_list p) then has_bit (i_mode nd) 32
      else has_bit (i_mode nd) 4)"

definition sys_open_read :: "path \<Rightarrow> ('z machine_ext, nat) sys" where
  "sys_open_read p k =
     (case lookup_path k p True of
        Inl e \<Rightarrow> sys_open p O_RDONLY 0 k
      | Inr l \<Rightarrow>
          (case node k l of
             None \<Rightarrow> sys_open p O_RDONLY 0 k
           | Some nd \<Rightarrow>
               if may_read (proc k) nd then sys_open p O_RDONLY 0 k
               else syscall (\<lambda>k. (Inl EACCES, k)) k))"

text \<open>A directory or file made by the process belongs to its effective ids.\<close>

definition own :: "'z machine_scheme \<Rightarrow> inode \<Rightarrow> inode" where
  "own k nd = nd\<lparr>i_uid := euid (proc k), i_gid := egid (proc k)\<rparr>"

definition sys_create :: "path \<Rightarrow> nat \<Rightarrow> ('z machine_ext, nat) sys" where
  "sys_create p mode k =
     (case sys_open p (O_WRONLY OR O_CREAT OR O_EXCL) mode k of
        (Inl e, k') \<Rightarrow> (Inl e, k')
      | (Inr fd, k') \<Rightarrow>
          (case fds k' fd of
             None \<Rightarrow> (Inr fd, k')
           | Some (i, wr) \<Rightarrow>
               (case inodes k' i of
                  None \<Rightarrow> (Inr fd, k')
                | Some nd \<Rightarrow> (Inr fd, set_inode i (own k' nd) k'))))"

text \<open>\<open>chown\<close> follows a symbolic link and is for root.\<close>

definition sys_chown :: "path \<Rightarrow> nat \<Rightarrow> nat \<Rightarrow> ('z machine_ext, unit) sys" where
  "sys_chown p u g =
     at_node p True (\<lambda>l i nd k.
       if euid (proc k) \<noteq> 0 then (Inl EPERM, k)
       else (Inr (), set_inode i (nd\<lparr>i_uid := u, i_gid := g\<rparr>) k))"

section \<open>Scopes\<close>

text \<open>A destructor: \<open>c\<close> runs on the way out, and its errors are not seen.\<close>

definition finally_s :: "('s, 'e, 'a) estep \<Rightarrow> ('s, 'f, 'b) estep \<Rightarrow> ('s, 'e, 'a) estep" where
  "finally_s m c s = (case m s of (r, t) \<Rightarrow> (r, snd (c t)))"

text \<open>A \<open>Defer\<close> that is released when the end is reached: \<open>c\<close> runs on the way of an error only.\<close>

definition on_error :: "('s, 'e, 'a) estep \<Rightarrow> ('s, 'f, 'b) estep \<Rightarrow> ('s, 'e, 'a) estep" where
  "on_error m c s =
     (case m s of (Inl e, t) \<Rightarrow> (Inl e, snd (c t)) | (Inr a, t) \<Rightarrow> (Inr a, t))"

definition open_ended :: "nat \<Rightarrow> ('z, 'a) mstep \<Rightarrow> ('z, 'a) mstep" where
  "open_ended fd m = finally_s m (sys_close fd)"

section \<open>Reading\<close>

definition st_size :: "inode \<Rightarrow> nat" where
  "st_size nd = (case i_kind nd of Reg s \<Rightarrow> length s | _ \<Rightarrow> 0)"

definition read_limit :: int where "read_limit = 0x1000000"

text \<open>
  The loop of \<open>read_fd\<close>.  Its bound is one more than the size of the file, as every read but the
  last gives a byte.
\<close>

primrec read_loop :: "nat \<Rightarrow> path \<Rightarrow> nat \<Rightarrow> nat \<Rightarrow> string \<Rightarrow> ('z, string) mstep" where
  "read_loop 0 p fd off ret = return_s ret"
| "read_loop (Suc n) p fd off ret =
     bind_s (or_syserr (p @ '': read'') (sys_pread fd 4096 off)) (\<lambda>buf.
       if buf = [] then return_s ret
       else read_loop n p fd (off + length buf) (ret @ buf))"

definition read_fd :: "path \<Rightarrow> nat \<Rightarrow> ('z, string) mstep" where
  "read_fd p fd =
     bind_s (or_syserr (call_on ''fstat'' p) (sys_fstat fd)) (\<lambda>sb.
       if int (st_size sb) > read_limit then throw_s (SysError EFBIG p)
       else read_loop (Suc (st_size sb)) p fd 0 [])"

text \<open>\<open>read_file(-1, file)\<close>: without a directory the path must be absolute.\<close>

definition read_file :: "path \<Rightarrow> ('z, string) mstep" where
  "read_file p =
     bind_s (or_syserr p (if is_absolute p then sys_open_read p else syscall (\<lambda>k. (Inl EBADF, k)))) (\<lambda>fd.
       open_ended fd (read_fd p fd))"

section \<open>Writing\<close>

text \<open>
  The lambda \<open>dowrite\<close> of \<open>make_script\<close>, from the offset \<open>off\<close>: every write must take a byte.
\<close>

primrec dowrite :: "nat \<Rightarrow> nat \<Rightarrow> nat \<Rightarrow> string \<Rightarrow> ('z, nat) mstep" where
  "dowrite 0 fd off sv = return_s off"
| "dowrite (Suc n) fd off sv =
     (if sv = [] then return_s off
      else
        bind_s (or_syserr ''write scriptfile'' (sys_pwrite fd sv off)) (\<lambda>w.
          if w = 0 then throw_s (LogicError ''assert(n == -1)'')
          else dowrite n fd (off + w) (drop w sv)))"

end
