(* ===== verification/Launch.thy ===== *)
theory Launch
  imports Credentials Acl Files Environment Sandbox_Profile
begin

text \<open>
  \<open>Config::exec\<close> of \<open>src/jaim.cc\<close> up to the fork of the command: the checks, the private
  directories, the overlay helper, the start-up script, the grants of strict mode and the
  profile, with what is undone when one of them fails.

  The process state is the machine with the configuration and what \<open>exec\<close> keeps in the members
  of \<open>Config\<close>.  The answers of the rest of the system are the record \<open>surroundings\<close>, as those of the
  file system library are the record \<open>world\<close>.
\<close>

section \<open>State\<close>

text \<open>The overlay helper: not there, serving the mount, or ended and not yet waited for.\<close>

datatype helper = Absent | Serving | Ended

text \<open>The last fields are the process's own: profile, descriptors, working directory, file mask, output.\<close>

record launcher = machine +
  conf :: config
  jaim_cred :: credentials
  overlay_pid :: nat
  overlay_mounted :: bool
  helper :: helper
  helper_args :: "string list"
  mounts :: "(path \<times> nat) list"
  sandbox :: "string option"
  open_fds :: "nat list"
  work_dir :: path
  file_mask :: nat
  old_umask :: nat
  out_lines :: "string list"

type_synonym ('z, 'a) lstep = "('z launcher_scheme, error, 'a) estep"

text \<open>
  The temporary directory, the name that \<open>mkdtemp\<close> finds, the answer of \<open>confstr\<close>, whether the
  mount is up or the helper gone at the \<open>i\<close>-th poll, the account database, the group lists, the
  identifiers of the users and the random part of the script's name.
\<close>

record surroundings =
  o_temp_dir :: "error + path"
  o_suffix :: string
  o_confstr :: "nat \<times> string \<times> nat"
  o_mount_up :: "nat \<Rightarrow> bool"
  o_helper_gone :: "nat \<Rightarrow> bool"
  o_getpwnam :: "string \<Rightarrow> error + passwd option"
  o_grouplist :: grouplist
  o_members :: members
  o_random :: "nat list"

definition on_conf :: "'a cstep \<Rightarrow> ('z, 'a) lstep" where
  "on_conf m k = (case m (conf k) of (r, c) \<Rightarrow> (r, k\<lparr>conf := c\<rparr>))"

definition mode_is :: "mode \<Rightarrow> 'z launcher_scheme \<Rightarrow> bool" where
  "mode_is m k \<longleftrightarrow> jail_mode (conf k) = m"

text \<open>\<open>if (c) m;\<close> for a condition on the state.\<close>

definition when_s :: "('s \<Rightarrow> bool) \<Rightarrow> ('s, 'e, unit) estep \<Rightarrow> ('s, 'e, unit) estep" where
  "when_s c m s = (if c s then m s else (Inr (), s))"

section \<open>Checks\<close>

definition need_root :: "world \<Rightarrow> error" where
  "need_root w =
     RuntimeError (''strict mode requires root: rerun with sudo, or run `sudo '' @
       filename (w_prog w) @ '' --setup-setuid` once to install jaim as setuid'')"

definition need_user :: "world \<Rightarrow> error" where
  "need_user w =
     RuntimeError (''strict mode requires the _jaim system user; run `sudo '' @
       filename (w_prog w) @ '' --setup-user` once to create it'')"

definition elevate :: "surroundings \<Rightarrow> world \<Rightarrow> ('z, unit) lstep" where
  "elevate env w =
     when_s (mode_is kStrict)
       (bind_s (attempt (sys_seteuid 0)) (\<lambda>r.
          case r of
            Inl _ \<Rightarrow> throw_s (need_root w)
          | Inr _ \<Rightarrow>
              bind_s (lift_s (get_jaim_user (o_getpwnam env) (o_grouplist env))) (\<lambda>c.
              bind_s (update_s (\<lambda>k. k\<lparr>jaim_cred := c\<rparr>)) (\<lambda>_.
                if \<not> populated c then throw_s (need_user w) else return_s ()))))"

definition refuse_masked_cwd :: "world \<Rightarrow> unit cstep" where
  "refuse_masked_cwd w s =
     (if \<not> grant_cwd s then (Inr (), s)
      else
        bind_s (cwd w) (\<lambda>c s.
          case find (\<lambda>m. path_contains (path_append (homepath s) m) c) (os_elems (mask_files s)) of
            Some m \<Rightarrow> (Inl (refusal c (path_append (homepath s) m)), s)
          | None \<Rightarrow> (Inr (), s)) s)"

section \<open>Directories\<close>

definition sys_mkdtemp :: "path \<Rightarrow> ('z machine_ext, unit) sys" where
  "sys_mkdtemp p k = Kernel.make p (own k (new_inode Dir 448)) k"

definition set_var :: "string \<Rightarrow> path \<Rightarrow> config \<Rightarrow> config" where
  "set_var name v s = s\<lparr>setenv_map := om_assign str_less name (name @ [EQUALS] @ v) (setenv_map s)\<rparr>"

definition make_private_tmp :: "surroundings \<Rightarrow> ('z, unit) lstep" where
  "make_private_tmp env =
     bind_s (lift_s (o_temp_dir env)) (\<lambda>base.
       let templ = path_append base ''jaim.XXXXXXXX'';
           dir = path_append base (''jaim.'' @ o_suffix env) in
       bind_s (or_syserr (''mkdtemp('' @ templ @ '')'') (sys_mkdtemp dir)) (\<lambda>_.
       bind_s (or_syserr ''canonical'' (sys_realpath dir)) (\<lambda>p.
       bind_s (update_s (\<lambda>k. k\<lparr>conf := (conf k)\<lparr>private_tmp := p\<rparr>\<rparr>)) (\<lambda>_.
         update_s (\<lambda>k. k\<lparr>conf := set_var ''TMPDIR'' p (conf k)\<rparr>)))))"

text \<open>\<open>canonical(fdpath(ensure_udir(dir, name)))\<close>\<close>

definition ensured :: "world \<Rightarrow> path \<Rightarrow> path cstep" where
  "ensured w p s =
     (case w_ensure_udir w p of Some e \<Rightarrow> (Inl e, s) | None \<Rightarrow> (w_canonical w p, s))"

definition bare_home :: "world \<Rightarrow> unit cstep" where
  "bare_home w s =
     (if jail_mode s \<noteq> kBare then (Inr (), s)
      else
        bind_s (home_jaim w True) (\<lambda>_.
        bind_s (get_s (\<lambda>s. path_append (homejaimpath s) (cat (sandbox_name s) ''.home''))) (\<lambda>p.
        bind_s (ensured w p) (\<lambda>h.
          update_s (\<lambda>s. set_var ''HOME'' h (s\<lparr>private_home := h\<rparr>))))) s)"

section \<open>The overlay\<close>

text \<open>The device that \<open>stat\<close> gives for a directory: that of the mount on it, if there is one.\<close>

definition device :: "'z launcher_scheme \<Rightarrow> path \<Rightarrow> nat" where
  "device k p = (case map_of (mounts k) p of None \<Rightarrow> 0 | Some d \<Rightarrow> d)"

definition stat_device :: "path \<Rightarrow> ('z launcher_ext machine_ext, nat) sys" where
  "stat_device p = syscall (\<lambda>k. (Inr (device k p), k))"

definition end_helper :: "'z launcher_scheme \<Rightarrow> 'z launcher_scheme" where
  "end_helper k = (if helper k = Serving then k\<lparr>helper := Ended\<rparr> else k)"

text \<open>When the mount goes, the loop of the helper returns and the helper exits.\<close>

definition sys_unmount :: "path \<Rightarrow> ('z launcher_ext machine_ext, unit) sys" where
  "sys_unmount p =
     syscall (\<lambda>k.
       if map_of (mounts k) p = None then (Inl EINVAL, k)
       else (Inr (), end_helper (k\<lparr>mounts := filter (\<lambda>(q, d). q \<noteq> p) (mounts k)\<rparr>)))"

definition ignore :: "('s, nat, 'a) estep \<Rightarrow> ('s, 'e, unit) estep" where
  "ignore m = bind_s (attempt m) (\<lambda>_. return_s ())"

definition xfork :: "('z machine_ext, unit) sys" where
  "xfork = syscall (\<lambda>k. (Inr (), k))"

text \<open>\<open>kill(pid, SIGTERM)\<close> of the helper.\<close>

definition kill_helper :: "('z, unit) lstep" where
  "kill_helper = ignore (syscall (\<lambda>k. (Inr (), end_helper k)))"

text \<open>\<open>while (waitpid(pid, &status, 0) == -1 && errno == EINTR);\<close>\<close>

primrec after_interrupts :: "plan list \<Rightarrow> plan list" where
  "after_interrupts [] = []"
| "after_interrupts (p # ps) = (if p = Fail EINTR then after_interrupts ps else p # ps)"

definition reap_helper :: "('z, unit) lstep" where
  "reap_helper k =
     ignore (syscall (\<lambda>k. (Inr (), k\<lparr>helper := Absent\<rparr>))) (k\<lparr>plans := after_interrupts (plans k)\<rparr>)"

definition stale_mount :: "path \<Rightarrow> ('z, unit) lstep" where
  "stale_mount m =
     bind_s (attempt (stat_device m)) (\<lambda>a.
       case a of
         Inl _ \<Rightarrow> return_s ()
       | Inr da \<Rightarrow>
           bind_s (attempt (stat_device (parent_path m))) (\<lambda>b.
             case b of
               Inl _ \<Rightarrow> return_s ()
             | Inr db \<Rightarrow> if da \<noteq> db then ignore (sys_unmount m) else return_s ()))"

definition helper_command :: "path \<Rightarrow> config \<Rightarrow> string list" where
  "helper_command h s =
     [h, ''-f'', ''--lower='' @ homepath s, ''--upper='' @ overlay_upper s, overlay_mount s]"

text \<open>The parent's side of the fork; the pid stands for any that is not 0.\<close>

definition start_helper :: "path \<Rightarrow> ('z, unit) lstep" where
  "start_helper h =
     bind_s (or_syserr ''fork'' xfork) (\<lambda>_.
       update_s (\<lambda>k. k\<lparr>overlay_pid := 1, helper := Serving, helper_args := helper_command h (conf k)\<rparr>))"

text \<open>The system between two polls: the mount may appear, with a device of its own.\<close>

definition next_device :: "'z launcher_scheme \<Rightarrow> nat" where
  "next_device k = Suc (Max (set (0 # map snd (mounts k))))"

definition mount_appears :: "surroundings \<Rightarrow> nat \<Rightarrow> 'z launcher_scheme \<Rightarrow> 'z launcher_scheme" where
  "mount_appears env i k =
     (if o_mount_up env i then k\<lparr>mounts := (overlay_mount (conf k), next_device k) # mounts k\<rparr> else k)"

text \<open>The polls that \<open>js\<close> lists: whether the mount came up; a helper that has ended is an error.\<close>

primrec poll_mount :: "surroundings \<Rightarrow> nat \<Rightarrow> nat list \<Rightarrow> ('z, bool) lstep" where
  "poll_mount env pre [] = return_s False"
| "poll_mount env pre (i # js) =
     bind_s (update_s (mount_appears env i)) (\<lambda>_.
     bind_s (get_s (\<lambda>k. overlay_mount (conf k))) (\<lambda>m.
     bind_s (attempt (stat_device m)) (\<lambda>r.
       if (case r of Inr d \<Rightarrow> d \<noteq> pre | Inl _ \<Rightarrow> False) then return_s True
       else if o_helper_gone env i then
         bind_s (update_s (\<lambda>k. k\<lparr>helper := Absent, overlay_pid := 0\<rparr>)) (\<lambda>_.
           throw_s (RuntimeError (''jaim-overlay exited before mount was ready; is macFUSE 5.2+ installed?'')))
       else poll_mount env pre js)))"

definition poll_limit :: nat where "poll_limit = 100"

definition mount_overlay :: "surroundings \<Rightarrow> world \<Rightarrow> ('z, unit) lstep" where
  "mount_overlay env w =
     when_s (mode_is kCasual)
       (let (n, answer, errno) = o_confstr env in
        bind_s (lift_s (overlay_state_dir n answer errno)) (\<lambda>root.
        bind_s (on_conf (\<lambda>s. case w_ensure_udir w root of Some e \<Rightarrow> (Inl e, s) | None \<Rightarrow> (Inr (), s))) (\<lambda>_.
        bind_s (on_conf (\<lambda>s. ensured w (path_append root (cat (sandbox_name s) ''.changes'')) s)) (\<lambda>u.
        bind_s (update_s (\<lambda>k. k\<lparr>conf := (conf k)\<lparr>overlay_upper := u\<rparr>\<rparr>)) (\<lambda>_.
        bind_s (on_conf (\<lambda>s. ensured w (path_append root (cat (sandbox_name s) ''.mount'')) s)) (\<lambda>m.
        bind_s (update_s (\<lambda>k. k\<lparr>conf := (conf k)\<lparr>overlay_mount := m\<rparr>\<rparr>)) (\<lambda>_.
        bind_s (stale_mount m) (\<lambda>_.
        bind_s (on_conf (find_overlay_helper w)) (\<lambda>h.
        bind_s (or_syserr (call_on ''stat'' m) (stat_device m)) (\<lambda>pre.
        bind_s (start_helper h) (\<lambda>_.
        bind_s (poll_mount env pre [0..<poll_limit]) (\<lambda>mounted.
          if \<not> mounted then
            bind_s kill_helper (\<lambda>_.
            bind_s reap_helper (\<lambda>_.
            bind_s (update_s (\<lambda>k. k\<lparr>overlay_pid := 0\<rparr>)) (\<lambda>_.
              throw_s (RuntimeError (''jaim-overlay failed to mount within timeout at '' @ m)))))
          else
            update_s (\<lambda>k. k\<lparr>overlay_mounted := True, conf := set_var ''HOME'' m (conf k)\<rparr>)))))))))))))"

section \<open>The start-up script\<close>

definition script_chars :: string where
  "script_chars = ''+0123456789=ABCDEFGHIJKLMNOPQRSTUVWXYZabcdefghijklmnopqrstuvwxyz''"

definition script_name :: "nat list \<Rightarrow> path" where
  "script_name bytes = ''.jaimrc'' @ map (\<lambda>i. script_chars ! (i mod 64)) bytes"

definition script_trailer :: string where
  "script_trailer =
     [NL] @ ''# Remove $JAIM_SCRIPT once sourced unless JAIM_KEEP_SCRIPT is set'' @ [NL] @
     ''if [[ -n $JAIM_SCRIPT && -z ${JAIM_KEEP_SCRIPT+set} ]]; then'' @ [NL] @
     ''    rm -f '' @ [DQ] @ ''$JAIM_SCRIPT'' @ [DQ, NL] @
     ''    unset JAIM_SCRIPT'' @ [NL] @ ''fi'' @ [NL]"

definition append_text :: "nat \<Rightarrow> string \<Rightarrow> nat \<Rightarrow> ('z, nat) mstep" where
  "append_text fd sv off = dowrite (length sv) fd off sv"

primrec copy_inputs :: "nat \<Rightarrow> path list \<Rightarrow> nat \<Rightarrow> ('z, nat) mstep" where
  "copy_inputs fd [] off = return_s off"
| "copy_inputs fd (input # rest) off =
     bind_s (read_file input) (\<lambda>s.
     bind_s (append_text fd s off) (\<lambda>off1.
     bind_s (append_text fd [NL] off1) (\<lambda>off2. copy_inputs fd rest off2)))"

definition make_script :: "surroundings \<Rightarrow> ('z, path) lstep" where
  "make_script env =
     bind_s (get_s conf) (\<lambda>s.
       if script_inputs s = [] then return_s []
       else if private_tmp s = [] then throw_s (LogicError ''make_script: private_tmp_ unset'')
       else
         let fullpath = path_append (private_tmp s) (script_name (o_random env)) in
         bind_s (or_syserr (call_on ''openat'' fullpath) (sys_create fullpath 256)) (\<lambda>fd.
           open_ended fd
             (bind_s (copy_inputs fd (script_inputs s) 0) (\<lambda>off.
              bind_s (append_text fd script_trailer off) (\<lambda>_. return_s fullpath)))))"

section \<open>Grants of strict mode\<close>

definition hand_over :: "path \<Rightarrow> ('z, unit) lstep" where
  "hand_over script =
     when_s (mode_is kStrict)
       (bind_s (get_s (\<lambda>k. (private_tmp (conf k), jaim_cred k))) (\<lambda>(tmp, c).
        bind_s (or_syserr (''chown('' @ tmp @ '', _jaim)'') (sys_chown tmp (c_uid c) (c_gid c))) (\<lambda>_.
          if script = [] then return_s ()
          else or_syserr (''chown('' @ script @ '', _jaim)'') (sys_chown script (c_uid c) (c_gid c)))))"

definition dir_perms :: "cint \<Rightarrow> perm_mask" where
  "dir_perms flags = (if flags AND kGrantRO \<noteq> 0 then kReadExec else kReadWriteExec)"

definition file_perms :: "cint \<Rightarrow> perm_mask" where
  "file_perms flags = (if flags AND kGrantRO \<noteq> 0 then kRead else kRead OR kWrite)"

definition grant_entries :: "surroundings \<Rightarrow> world \<Rightarrow> ('z, unit) lstep" where
  "grant_entries env w =
     when_s (mode_is kStrict)
       (bind_s (get_s (\<lambda>k. (conf k, c_uid (jaim_cred k)))) (\<lambda>(s, u).
        bind_s (for_each (grant_directories s) (\<lambda>(d, flags).
                  apply_recursive (o_members env) d u (dir_perms flags))) (\<lambda>_.
        bind_s (for_each (grant_files s) (\<lambda>(f, flags).
                  warning (add_allow_user (o_members env) f u (file_perms flags)))) (\<lambda>_.
          if grant_cwd s then
            bind_s (on_conf (cwd w)) (\<lambda>c. apply_recursive (o_members env) c u kReadWriteExec)
          else return_s ()))))"

section \<open>Before the fork\<close>

text \<open>
  \<open>std::filesystem::remove_all\<close> with an error code, which gives the number of removed files: the path
  itself is not followed.
\<close>

definition sys_remove_all :: "path \<Rightarrow> ('z, nat) sys" where
  "sys_remove_all p =
     at_path p False (\<lambda>l k.
       (Inr (length (filter (\<lambda>(l', i). prefix l l') (dir_table k))),
        k\<lparr>dir_table := filter (\<lambda>(l', i). \<not> prefix l l') (dir_table k)\<rparr>))"

definition remove_private_tmp :: "('z, unit) lstep" where
  "remove_private_tmp =
     bind_s (get_s (\<lambda>k. private_tmp (conf k))) (\<lambda>p.
       if p = [] then return_s () else ignore (sys_remove_all p))"

definition has_mount :: "'z launcher_scheme \<Rightarrow> bool" where
  "has_mount k \<longleftrightarrow> overlay_mounted k \<and> overlay_mount (conf k) \<noteq> []"

definition pre_fork_cleanup :: "('z, unit) lstep" where
  "pre_fork_cleanup =
     bind_s (when_s has_mount
       (bind_s (get_s (\<lambda>k. overlay_mount (conf k))) (\<lambda>m.
        bind_s (attempt (sys_unmount m)) (\<lambda>r.
        bind_s (case r of Inl _ \<Rightarrow> ignore (sys_unmount m) | Inr _ \<Rightarrow> return_s ()) (\<lambda>_.
          update_s (\<lambda>k. k\<lparr>overlay_mounted := False\<rparr>)))))) (\<lambda>_.
     bind_s (when_s (\<lambda>k. overlay_pid k > 0)
       (bind_s kill_helper (\<lambda>_.
        bind_s reap_helper (\<lambda>_. update_s (\<lambda>k. k\<lparr>overlay_pid := 0\<rparr>))))) (\<lambda>_.
       remove_private_tmp))"

definition guarded_part :: "surroundings \<Rightarrow> world \<Rightarrow> ('z, path \<times> string) lstep" where
  "guarded_part env w =
     bind_s (make_script env) (\<lambda>script.
     bind_s (hand_over script) (\<lambda>_.
     bind_s (grant_entries env w) (\<lambda>_.
     bind_s (on_conf (generate_sandbox_profile w)) (\<lambda>profile. return_s (script, profile)))))"

text \<open>\<open>exec\<close> up to the fork of the command: the script and the profile that the child is given.\<close>

definition prepare :: "surroundings \<Rightarrow> world \<Rightarrow> ('z, path \<times> string) lstep" where
  "prepare env w =
     bind_s (elevate env w) (\<lambda>_.
     bind_s (on_conf (refuse_masked_cwd w)) (\<lambda>_.
     bind_s (make_private_tmp env) (\<lambda>_.
     bind_s (on_conf (bare_home w)) (\<lambda>_.
     bind_s (mount_overlay env w) (\<lambda>_.
     bind_s (on_error (guarded_part env w) pre_fork_cleanup) (\<lambda>r.
     bind_s (or_syserr ''fork'' xfork) (\<lambda>_. return_s r)))))))"

end
