(* ===== verification/Supervision.thy ===== *)
theory Supervision
  imports Launch
begin

text \<open>
  \<open>Config::exec\<close> from the fork on: the child, which gives up its privileges, enters the sandbox and
  becomes the command, and the parent, which waits for it and cleans up.
\<close>

section \<open>The child\<close>

text \<open>What the command starts with.\<close>

record task =
  t_sandbox :: "string option"
  t_ids :: ids
  t_fds :: "nat list"
  t_cwd :: path
  t_umask :: nat
  t_file :: path
  t_argv :: "string list"
  t_env :: "string list"

datatype child_end = Executed task | Child_exit nat

definition sandbox_init :: "string \<Rightarrow> ('z launcher_ext machine_ext, unit) sys" where
  "sandbox_init profile = syscall (\<lambda>k. (Inr (), k\<lparr>sandbox := Some profile\<rparr>))"

definition enter_sandbox :: "string \<Rightarrow> ('z, unit) lstep" where
  "enter_sandbox profile =
     bind_s (attempt (sandbox_init profile)) (\<lambda>r.
       case r of Inl e \<Rightarrow> throw_s (RuntimeError ''sandbox_init'') | Inr _ \<Rightarrow> return_s ())"

text \<open>
  \<open>proc_pidinfo\<close> first gives the size of the list, then the list.  Where it fails nothing is closed.
\<close>

definition list_fds :: "('z launcher_ext machine_ext, nat list) sys" where
  "list_fds = syscall (\<lambda>k. (Inr (open_fds k), k))"

definition close_fd :: "nat \<Rightarrow> ('z, unit) lstep" where
  "close_fd fd = ignore (syscall (\<lambda>k. (Inr (), k\<lparr>open_fds := filter (\<lambda>f. f \<noteq> fd) (open_fds k)\<rparr>)))"

definition scrub_fds :: "('z, unit) lstep" where
  "scrub_fds =
     bind_s (attempt list_fds) (\<lambda>need.
       case need of
         Inl _ \<Rightarrow> return_s ()
       | Inr fds0 \<Rightarrow>
           if fds0 = [] then return_s ()
           else
             bind_s (attempt list_fds) (\<lambda>got.
               case got of
                 Inl _ \<Rightarrow> return_s ()
               | Inr fds1 \<Rightarrow>
                   for_each (take (length fds0) fds1) (\<lambda>fd.
                     if fd \<ge> 3 then close_fd fd else return_s ())))"

definition name_script :: "path \<Rightarrow> ('z, unit) lstep" where
  "name_script script =
     (if script = [] then return_s ()
      else update_s (\<lambda>k. k\<lparr>conf := (conf k)\<lparr>environ := putenv ''JAIM_SCRIPT'' script (environ (conf k))\<rparr>\<rparr>))"

definition enter_cwd :: "world \<Rightarrow> ('z, unit) lstep" where
  "enter_cwd w =
     bind_s (on_conf (cwd w)) (\<lambda>c.
       or_syserr (call_on ''chdir'' c) (syscall (\<lambda>k. (Inr (), k\<lparr>work_dir := c\<rparr>))))"

text \<open>With \<open>--command\<close> the program is the shell, whose arguments end with those given.\<close>

definition PATH_BASH :: path where "PATH_BASH = ''/bin/bash''"

definition shell_argv :: "config \<Rightarrow> string list \<Rightarrow> string list" where
  "shell_argv s argv =
     (if shellcmd s = [] then argv else [''init'', ''-c'', shellcmd s] @ argv)"

definition shell_program :: "config \<Rightarrow> string list \<Rightarrow> path" where
  "shell_program s argv = (if shellcmd s = [] then hd argv else PATH_BASH)"

text \<open>
  \<open>execvp\<close>: a name with a slash as it is, another along \<open>PATH\<close>; \<open>runs p\<close> says whether
  \<open>execve\<close> accepts the file.  The environment is that of the process.
\<close>

definition execvp_candidates :: "string list \<Rightarrow> path \<Rightarrow> path list" where
  "execvp_candidates env file =
     (if SLASH \<in> set file then [file]
      else map (\<lambda>d. if d = [] then file else path_append d file)
             (split_on (CHR '':'')
               (case getenv env ''PATH'' of None \<Rightarrow> ''/usr/bin:/bin'' | Some p \<Rightarrow> p)))"

definition started_task :: "path \<Rightarrow> string list \<Rightarrow> string list \<Rightarrow> 'z launcher_scheme \<Rightarrow> task" where
  "started_task file argv env k =
     \<lparr>t_sandbox = sandbox k, t_ids = (proc k)\<lparr>suid := euid (proc k), sgid := egid (proc k)\<rparr>,
      t_fds = open_fds k, t_cwd = work_dir k, t_umask = file_mask k,
      t_file = file, t_argv = argv, t_env = env\<rparr>"

definition exec_program :: "(path \<Rightarrow> bool) \<Rightarrow> string list \<Rightarrow> ('z, task option) lstep" where
  "exec_program runs argv =
     bind_s (get_s (\<lambda>k. (shell_program (conf k) argv, shell_argv (conf k) argv))) (\<lambda>(argv0, argv').
     bind_s (on_conf make_env) (\<lambda>env k.
       (Inr (if runs argv0 then Some (started_task argv0 argv' env k)
             else
               case find runs (execvp_candidates (environ (conf k)) argv0) of
                 Some file \<Rightarrow> Some (started_task file argv' (environ (conf k)) k)
               | None \<Rightarrow> None), k)))"

definition child_steps ::
    "world \<Rightarrow> (path \<Rightarrow> bool) \<Rightarrow> path \<Rightarrow> string \<Rightarrow> string list \<Rightarrow> ('z, task option) lstep" where
  "child_steps w runs script profile argv =
     bind_s (bind_s (get_s (\<lambda>k. (mode_is kStrict k, jaim_cred k))) (\<lambda>(strict, c).
               if strict then enter_permanently c else return_s ())) (\<lambda>_.
     bind_s (enter_sandbox profile) (\<lambda>_.
     bind_s scrub_fds (\<lambda>_.
     bind_s (name_script script) (\<lambda>_.
     bind_s (enter_cwd w) (\<lambda>_.
     bind_s (update_s (\<lambda>k. k\<lparr>file_mask := old_umask k\<rparr>)) (\<lambda>_.
       exec_program runs argv))))))"

text \<open>An exception ends the child with status 1, and so does a program that cannot be started.\<close>

definition child ::
    "world \<Rightarrow> (path \<Rightarrow> bool) \<Rightarrow> path \<Rightarrow> string \<Rightarrow> string list \<Rightarrow> 'z launcher_scheme \<Rightarrow> child_end" where
  "child w runs script profile argv k =
     (case fst (child_steps w runs script profile argv k) of
        Inr (Some t) \<Rightarrow> Executed t
      | _ \<Rightarrow> Child_exit 1)"

section \<open>The end of the command\<close>

definition strip_grants :: "surroundings \<Rightarrow> config \<Rightarrow> nat \<Rightarrow> ('z, unit) mstep" where
  "strip_grants env s u =
     bind_s (for_each (grant_directories s) (\<lambda>(d, _). warning (remove_recursive (o_members env) d u))) (\<lambda>_.
     bind_s (for_each (grant_files s) (\<lambda>(f, _). warning (remove_user_entries (o_members env) f u))) (\<lambda>_.
       if grant_cwd s \<and> cwd_path s \<noteq> [] then warning (remove_recursive (o_members env) (cwd_path s) u)
       else return_s ()))"

definition atexit_entries :: "surroundings \<Rightarrow> ('z, unit) lstep" where
  "atexit_entries env =
     when_s (\<lambda>k. mode_is kStrict k \<and> populated (jaim_cred k))
       (bind_s (get_s (\<lambda>k. (conf k, c_uid (jaim_cred k)))) (\<lambda>(s, u). strip_grants env s u))"

definition atexit_mount :: "('z, unit) lstep" where
  "atexit_mount =
     when_s has_mount
       (bind_s (get_s (\<lambda>k. overlay_mount (conf k))) (\<lambda>m.
        bind_s (attempt (sys_unmount m)) (\<lambda>r.
        bind_s (case r of
                  Inl e \<Rightarrow> if e \<noteq> EINVAL \<and> e \<noteq> ENOENT then ignore (sys_unmount m) else return_s ()
                | Inr _ \<Rightarrow> return_s ()) (\<lambda>_.
          update_s (\<lambda>k. k\<lparr>overlay_mounted := False\<rparr>)))))"

text \<open>\<open>waitpid(overlay_pid_, &status, WNOHANG)\<close>: whether the helper has been waited for.\<close>

definition wait_nohang :: "('z launcher_ext machine_ext, bool) sys" where
  "wait_nohang =
     syscall (\<lambda>k. if helper k = Ended then (Inr True, k\<lparr>helper := Absent\<rparr>) else (Inr False, k))"

primrec poll_helper :: "nat \<Rightarrow> ('z, unit) lstep" where
  "poll_helper 0 = return_s ()"
| "poll_helper (Suc n) =
     bind_s (attempt wait_nohang) (\<lambda>r.
       if r = Inr True then update_s (\<lambda>k. k\<lparr>overlay_pid := 0\<rparr>) else poll_helper n)"

definition atexit_helper :: "('z, unit) lstep" where
  "atexit_helper =
     when_s (\<lambda>k. overlay_pid k > 0)
       (bind_s (poll_helper 20) (\<lambda>_.
          when_s (\<lambda>k. overlay_pid k > 0)
            (bind_s kill_helper (\<lambda>_.
             bind_s reap_helper (\<lambda>_. update_s (\<lambda>k. k\<lparr>overlay_pid := 0\<rparr>))))))"

definition atexit_fn :: "surroundings \<Rightarrow> ('z, unit) lstep" where
  "atexit_fn env =
     bind_s (atexit_entries env) (\<lambda>_.
     bind_s atexit_mount (\<lambda>_.
     bind_s atexit_helper (\<lambda>_. remove_private_tmp)))"

section \<open>The parent\<close>

datatype status = Exit_status nat | Signal_status nat | Stop_status nat | Continue_status

definition SIGSTOP :: nat where "SIGSTOP = 17"
definition SIGTSTP :: nat where "SIGTSTP = 18"
definition SIGTTIN :: nat where "SIGTTIN = 21"
definition SIGTTOU :: nat where "SIGTTOU = 22"

text \<open>
  Signals whose default action does not end a process: those that stop it, and SIGURG, SIGCONT,
  SIGCHLD, SIGIO, SIGWINCH and SIGINFO.
\<close>

definition default_ends :: "nat \<Rightarrow> bool" where
  "default_ends sig \<longleftrightarrow> sig \<notin> {SIGSTOP, SIGTSTP, SIGTTIN, SIGTTOU, 16, 19, 20, 23, 28, 29}"

datatype verdict = Goes_on nat | Ends nat | Killed nat

text \<open>After \<open>signal(sig, SIG_DFL)\<close> and the unblocking, \<open>raise(sig)\<close> takes the default action.\<close>

definition propagate_termination_status ::
    "status \<Rightarrow> ('z, unit) lstep \<Rightarrow> ('z, verdict) lstep" where
  "propagate_termination_status st at_exit =
     (case st of
        Stop_status sig \<Rightarrow>
          return_s (Goes_on (if sig = SIGSTOP \<or> sig = SIGTSTP \<or> sig = SIGTTIN \<or> sig = SIGTTOU then sig else 0))
      | Exit_status n \<Rightarrow> bind_s at_exit (\<lambda>_. return_s (Ends n))
      | Signal_status sig \<Rightarrow>
          if default_ends sig then return_s (Killed sig)
          else bind_s at_exit (\<lambda>_. return_s (Ends 255))
      | Continue_status \<Rightarrow> return_s (Goes_on 0))"

text \<open>The answers of \<open>waitpid\<close>; an unfinished list is a command that still runs.\<close>

datatype wait_event = Wait_error nat | Wait_other | Wait_status status

datatype parent_end = Parent_exit nat | Parent_killed nat | Waiting

text \<open>A parent that stops itself goes on with the loop when it is continued.\<close>

fun wait_child :: "surroundings \<Rightarrow> wait_event list \<Rightarrow> ('z, parent_end) lstep" where
  "wait_child env [] = return_s Waiting"
| "wait_child env (Wait_error e # es) =
     (if e \<noteq> EINTR then bind_s (atexit_fn env) (\<lambda>_. throw_s (SysError e ''waitpid''))
      else wait_child env es)"
| "wait_child env (Wait_other # es) = wait_child env es"
| "wait_child env (Wait_status st # es) =
     bind_s (propagate_termination_status st (atexit_fn env)) (\<lambda>v.
       case v of
         Goes_on sig \<Rightarrow> wait_child env es
       | Ends n \<Rightarrow> return_s (Parent_exit n)
       | Killed sig \<Rightarrow> return_s (Parent_killed sig))"

text \<open>
  \<open>Config::exec\<close>.  What the command does to the machine while it runs is the argument \<open>command\<close>.
\<close>

definition exec ::
    "surroundings \<Rightarrow> world \<Rightarrow> (path \<Rightarrow> bool) \<Rightarrow> (child_end \<Rightarrow> 'z launcher_scheme \<Rightarrow> 'z launcher_scheme) \<Rightarrow>
     wait_event list \<Rightarrow> string list \<Rightarrow> ('z, parent_end) lstep" where
  "exec env w runs command events argv =
     bind_s (prepare env w) (\<lambda>(script, profile).
     bind_s (update_s (\<lambda>k. command (child w runs script profile argv k) k)) (\<lambda>_.
       wait_child env events))"

end
