(* ===== verification/Supervision_Facts.thy ===== *)
theory Supervision_Facts
  imports Supervision Credentials_Facts
begin

text \<open>
  What the command starts with, and what is left after it has ended.
\<close>

section \<open>The child\<close>

text \<open>The identity, the profile and the file mask that the steps after the sandbox keep.\<close>

definition attired :: "ids \<Rightarrow> string option \<Rightarrow> nat \<Rightarrow> 'z launcher_scheme \<Rightarrow> bool" where
  "attired P S U k \<longleftrightarrow> proc k = P \<and> sandbox k = S \<and> old_umask k = U"

lemma keeps_planned_call:
  assumes "\<And>s q. I s \<Longrightarrow> I (s\<lparr>plans := q\<rparr>)" and "keeps I m"
  shows "keeps I (syscall m)"
  using assms unfolding keeps_def syscall_def
  by (auto split: list.split plan.split)

lemma keeps_if: "keeps I a \<Longrightarrow> keeps I b \<Longrightarrow> keeps I (if c then a else b)"
  by simp

lemma keeps_fun: "(\<And>s. I s \<Longrightarrow> I (g s)) \<Longrightarrow> keeps I (\<lambda>s. (r s, g s))"
  by (simp add: keeps_def)

lemma keeps_ignore_s: "keeps I m \<Longrightarrow> keeps I (ignore m)"
  unfolding ignore_def by (intro keeps_bind keeps_attempt keeps_return)

lemma keeps_on_conf: "(\<And>s c. I s \<Longrightarrow> I (s\<lparr>conf := c\<rparr>)) \<Longrightarrow> keeps I (on_conf m)"
  by (simp add: keeps_def on_conf_def split: prod.split)

lemma attired_simps [simp]:
  "attired P S U (k\<lparr>plans := q\<rparr>) = attired P S U k" "attired P S U (k\<lparr>conf := c\<rparr>) = attired P S U k"
  "attired P S U (k\<lparr>open_fds := f\<rparr>) = attired P S U k" "attired P S U (k\<lparr>work_dir := d\<rparr>) = attired P S U k"
  "attired P S U (k\<lparr>file_mask := m\<rparr>) = attired P S U k"
  by (simp_all add: attired_def)

lemma keeps_scrub: "keeps (attired P S U) scrub_fds"
  unfolding scrub_fds_def list_fds_def close_fd_def
  by (auto intro!: keeps_bind keeps_attempt keeps_planned_call keeps_for_each keeps_ignore_s keeps_fun
      split: sum.split)

lemma keeps_name_script: "keeps (attired P S U) (name_script p)"
  unfolding name_script_def by (auto intro!: keeps_update)

lemma keeps_enter_cwd: "keeps (attired P S U) (enter_cwd w)"
  unfolding enter_cwd_def
  by (auto intro!: keeps_bind keeps_on_conf keeps_or_syserr keeps_planned_call keeps_fun)

lemma exec_program_attired:
  "triple (\<lambda>k. attired P S U k \<and> file_mask k = U) (exec_program runs argv)
     (\<lambda>r k. \<forall>t. r = Some t \<longrightarrow> t_sandbox t = S \<and> t_umask t = U \<and>
        t_ids t = P\<lparr>suid := euid P, sgid := egid P\<rparr>) (\<lambda>k. True)"
  by (rule tripleI)
    (auto simp: exec_program_def get_s_def bind_s_def on_conf_def attired_def started_task_def
      split: prod.splits sum.splits option.splits if_splits)

text \<open>The calls that change ids change nothing else.\<close>

definition same_program :: "'z launcher_scheme \<Rightarrow> 'z launcher_scheme \<Rightarrow> bool" where
  "same_program k0 k \<longleftrightarrow> machine.more k = machine.more k0"

lemma same_programD:
  assumes "same_program k0 k"
  shows "conf k = conf k0" "jaim_cred k = jaim_cred k0" "old_umask k = old_umask k0"
    "sandbox k = sandbox k0" "mounts k = mounts k0" "helper k = helper k0"
    "overlay_pid k = overlay_pid k0" "overlay_mounted k = overlay_mounted k0"
    "open_fds k = open_fds k0"
  using assms unfolding same_program_def by (cases k; cases k0; simp)+

lemma same_program_simps [simp]:
  "same_program k0 k0" "same_program k0 (k\<lparr>plans := q\<rparr>) = same_program k0 k"
  "same_program k0 (k\<lparr>proc := p\<rparr>) = same_program k0 k"
  by (simp_all add: same_program_def)

lemma keeps_id_call: "keeps (same_program k0) (id_call f)"
  unfolding id_call_def by (rule keeps_planned_call) (auto simp: keeps_def split: sum.split)

lemma keeps_enter_permanently: "keeps (same_program k0) (enter_permanently c)"
  unfolding enter_permanently_def sys_setgroups_def sys_setgid_def sys_setuid_def
  by (intro keeps_bind keeps_get keeps_if keeps_throw keeps_or_syserr keeps_id_call)

definition ids_of :: "credentials \<Rightarrow> ids" where
  "ids_of c =
     \<lparr>ruid = c_uid c, euid = c_uid c, suid = c_uid c, rgid = c_gid c, egid = c_gid c, sgid = c_gid c,
      group_list = c_groups c\<rparr>"

text \<open>The way of a child that becomes the command.\<close>

lemma child_executed:
  assumes "child w runs script profile argv k = Executed t"
  obtains k1 k2 k3 k4 k5 k6 where
    "(if mode_is kStrict k then enter_permanently (jaim_cred k) else return_s ()) k = (Inr (), k1)"
    "enter_sandbox profile k1 = (Inr (), k2)" "scrub_fds k2 = (Inr (), k3)"
    "name_script script k3 = (Inr (), k4)" "enter_cwd w k4 = (Inr (), k5)"
    "exec_program runs argv (k5\<lparr>file_mask := old_umask k5\<rparr>) = (Inr (Some t), k6)"
proof -
  from assms obtain k6 where "child_steps w runs script profile argv k = (Inr (Some t), k6)"
    by (cases "child_steps w runs script profile argv k") (auto simp: child_def split: sum.splits option.splits)
  then show thesis
    using that by (auto simp: child_steps_def get_s_def update_s_def dest!: bind_s_cases)
qed

end
