(* ===== verification/Cleanup.thy ===== *)
theory Cleanup
  imports Supervision_Facts Acl_Theorems
begin

text \<open>
  What is left after the command has ended: the clean-up of \<open>atexit_fn\<close>, step by step, and what the
  loop on \<open>waitpid\<close> makes of it.
\<close>

section \<open>Stripping the lists\<close>

text \<open>\<open>short_lists k\<close>: as the system guarantees, no list is longer than the limit.\<close>

definition short_lists :: "'z machine_scheme \<Rightarrow> bool" where
  "short_lists k \<longleftrightarrow> (\<forall>i. length (acl_entries k i) \<le> acl_max_entries)"

definition stripped_at :: "uuid \<Rightarrow> ino set \<Rightarrow> 'z machine_scheme \<Rightarrow> ino \<Rightarrow> ace list" where
  "stripped_at uu A k i =
     (if i \<in> A \<inter> acl_writable k then others uu (acl_entries k i) else acl_entries k i)"

definition strips :: "uuid \<Rightarrow> ('z machine_scheme \<Rightarrow> ino set) \<Rightarrow> ('z, unit) mstep \<Rightarrow> bool" where
  "strips uu B m \<longleftrightarrow>
     (\<forall>k k'. same_store k k' \<longrightarrow> B k' = B k) \<and>
     (\<forall>k. wf_kernel k \<and> plans k = [] \<and> short_lists k \<longrightarrow>
        same_store k (snd (m k)) \<and> plans (snd (m k)) = [] \<and>
        acl_entries (snd (m k)) = stripped_at uu (B k) k)"

lemma stripsD:
  assumes "strips uu B m" and "wf_kernel k" and "plans k = []" and "short_lists k"
  shows "same_store k (snd (m k))" "plans (snd (m k)) = []"
    "acl_entries (snd (m k)) = stripped_at uu (B k) k"
  using assms by (simp_all add: strips_def)

lemma same_store_trans: "same_store a b \<Longrightarrow> same_store b c \<Longrightarrow> same_store a c"
  by (simp add: same_store_def)

lemma others_length_le: "length (others uu es) \<le> length es"
  by (simp add: others_def)

lemma short_stripped: "short_lists k \<Longrightarrow> acl_entries k' = stripped_at uu A k \<Longrightarrow> short_lists k'"
  using le_trans [OF others_length_le] by (auto simp: short_lists_def stripped_at_def)

lemma strips_return: "strips uu (\<lambda>k. {}) (return_s ())"
  by (simp add: strips_def return_s_def stripped_at_def fun_eq_iff)

lemma strips_cong: "strips uu B m \<Longrightarrow> (\<And>k. B k = C k) \<Longrightarrow> strips uu C m"
  by (simp add: strips_def)

lemma strips_warning:
  assumes "strips uu B m"
  shows "strips uu B (warning m)"
  unfolding strips_def
proof (intro conjI allI impI)
  fix k k' :: "'a machine_scheme" assume "same_store k k'" then show "B k' = B k"
    using assms by (simp add: strips_def)
next
  fix k :: "'a machine_scheme" assume "wf_kernel k \<and> plans k = [] \<and> short_lists k"
  then have "same_store k (snd (m k)) \<and> plans (snd (m k)) = [] \<and>
      acl_entries (snd (m k)) = stripped_at uu (B k) k"
    using stripsD [OF assms] by blast
  moreover have "\<exists>ws. snd (warning m k) = snd (m k) \<or> snd (warning m k) = (snd (m k))\<lparr>warned := ws\<rparr>"
    by (auto simp: warning_def bind_s_def attempt_def report_def update_s_def return_s_def
        split: prod.split sum.split)
  ultimately show "same_store k (snd (warning m k))" "plans (snd (warning m k)) = []"
    "acl_entries (snd (warning m k)) = stripped_at uu (B k) k"
    by auto
qed

lemma strips_bind:
  assumes m: "strips uu B m" "no_throw m" and n: "strips uu C n"
  shows "strips uu (\<lambda>k. B k \<union> C k) (bind_s m (\<lambda>_. n))"
  unfolding strips_def
proof (intro conjI allI impI)
  fix k k' :: "'a machine_scheme" assume "same_store k k'" then show "B k' \<union> C k' = B k \<union> C k"
    using m n by (simp add: strips_def)
next
  fix k :: "'a machine_scheme" assume ok: "wf_kernel k \<and> plans k = [] \<and> short_lists k"
  let ?k1 = "snd (m k)"
  have run: "bind_s m (\<lambda>_. n) k = n ?k1" by (rule no_throw_run [OF m(2)])
  have one: "same_store k ?k1" "plans ?k1 = []" "acl_entries ?k1 = stripped_at uu (B k) k"
    using stripsD [OF m(1)] ok by blast+
  have two: "same_store ?k1 (snd (n ?k1))" "plans (snd (n ?k1)) = []"
    "acl_entries (snd (n ?k1)) = stripped_at uu (C ?k1) ?k1"
    using stripsD [OF n, of ?k1] one ok same_store_wf short_stripped by blast+
  have C: "C ?k1 = C k" using n one(1) by (simp add: strips_def)
  have w: "acl_writable ?k1 = acl_writable k"
    using same_storeD [OF one(1)] by (simp add: acl_writable_def)
  show "same_store k (snd (bind_s m (\<lambda>_. n) k))" "plans (snd (bind_s m (\<lambda>_. n) k)) = []"
    unfolding run using one two same_store_trans by blast+
  show "acl_entries (snd (bind_s m (\<lambda>_. n) k)) = stripped_at uu (B k \<union> C k) k"
    unfolding run two(3) C by (auto simp: stripped_at_def one(3) w fun_eq_iff)
qed

lemma strips_for_each:
  "(\<And>x. x \<in> set xs \<Longrightarrow> strips uu (B x) (f x)) \<Longrightarrow> (\<And>x. no_throw (f x)) \<Longrightarrow>
   strips uu (\<lambda>k. \<Union>x \<in> set xs. B x k) (for_each xs f)"
proof (induction xs)
  case Nil
  then show ?case using strips_return by simp
next
  case (Cons x xs)
  then show ?case
    using strips_bind [OF Cons.prems(1) [of x] Cons.prems(2) [of x] Cons.IH] by simp
qed

lemma tree_inos_same: "same_store k k' \<Longrightarrow> tree_inos k' p = tree_inos k p"
  using same_storeD [of k k'] by (simp add: tree_inos_def)

lemma leads_to_same: "same_store k k' \<Longrightarrow> leads_to k' p = leads_to k p"
  using same_storeD [of k k'] by (simp add: leads_to_def fun_eq_iff)

lemma stripsI:
  assumes "\<And>k k'. same_store k k' \<Longrightarrow> B k' = B k"
    and "\<And>k. wf_kernel k \<Longrightarrow> plans k = [] \<Longrightarrow> short_lists k \<Longrightarrow>
      \<exists>r k'. m k = (r, k') \<and> same_store k k' \<and> plans k' = [] \<and>
        acl_entries k' = (\<lambda>i. if i \<in> B k \<inter> acl_writable k then others uu (acl_entries k i) else acl_entries k i)"
  shows "strips uu B m"
  unfolding strips_def
proof (intro conjI allI impI)
  fix k :: "'a machine_scheme" assume "wf_kernel k \<and> plans k = [] \<and> short_lists k"
  then obtain r k' where "m k = (r, k')" "same_store k k'" "plans k' = []"
    "acl_entries k' = (\<lambda>i. if i \<in> B k \<inter> acl_writable k then others uu (acl_entries k i) else acl_entries k i)"
    using assms(2) by blast
  then show "same_store k (snd (m k))" "plans (snd (m k)) = []"
    "acl_entries (snd (m k)) = stripped_at uu (B k) k"
    by (simp_all add: stripped_at_def fun_eq_iff)
qed (rule assms(1))

lemma strips_tree: "mbr u = Inr uu \<Longrightarrow> strips uu (\<lambda>k. tree_inos k p) (remove_recursive mbr p u)"
proof (rule stripsI [OF tree_inos_same])
  fix k :: "'a machine_scheme"
  assume "mbr u = Inr uu" "wf_kernel k" "plans k = []" "short_lists k"
  with removal_spec [of k mbr u uu p]
  show "\<exists>r k'. remove_recursive mbr p u k = (r, k') \<and> same_store k k' \<and> plans k' = [] \<and>
      acl_entries k' = (\<lambda>i. if i \<in> tree_inos k p \<inter> acl_writable k
        then others uu (acl_entries k i) else acl_entries k i)"
    unfolding short_lists_def by blast
qed

lemma strips_file: "mbr u = Inr uu \<Longrightarrow> strips uu (\<lambda>k. {i. leads_to k p i}) (remove_user_entries mbr p u)"
proof (rule stripsI)
  fix k :: "'a machine_scheme"
  assume "mbr u = Inr uu" "plans k = []" "short_lists k"
  with file_removal_spec [of k mbr u uu p]
  show "\<exists>r k'. remove_user_entries mbr p u k = (r, k') \<and> same_store k k' \<and> plans k' = [] \<and>
      acl_entries k' = (\<lambda>i. if i \<in> {i. leads_to k p i} \<inter> acl_writable k
        then others uu (acl_entries k i) else acl_entries k i)"
    unfolding short_lists_def by simp
qed (simp add: leads_to_same)

section \<open>The steps of atexit\_fn\<close>

text \<open>The inodes that the grants of a configuration lead to.\<close>

definition granted_inos :: "config \<Rightarrow> 'z machine_scheme \<Rightarrow> ino set" where
  "granted_inos s k =
     (\<Union>(d, flags) \<in> set (grant_directories s). tree_inos k d) \<union>
     (\<Union>(f, flags) \<in> set (grant_files s). {i. leads_to k f i}) \<union>
     (if grant_cwd s \<and> cwd_path s \<noteq> [] then tree_inos k (cwd_path s) else {})"

lemma strips_grants:
  assumes "o_members env u = Inr uu"
  shows "strips uu (granted_inos s) (strip_grants env s u)"
proof -
  let ?dirs = "for_each (grant_directories s) (\<lambda>(d, _). warning (remove_recursive (o_members env) d u))"
  let ?files = "for_each (grant_files s) (\<lambda>(f, _). warning (remove_user_entries (o_members env) f u))"
  let ?cwd = "if grant_cwd s \<and> cwd_path s \<noteq> [] then warning (remove_recursive (o_members env) (cwd_path s) u)
    else return_s ()"
  have d: "strips uu (\<lambda>k. \<Union>x \<in> set (grant_directories s). tree_inos k (fst x)) ?dirs"
    by (rule strips_for_each [where B = "\<lambda>x k. tree_inos k (fst x)"])
      (auto intro!: strips_warning strips_tree no_throw_warning assms split: prod.split)
  have f: "strips uu (\<lambda>k. \<Union>x \<in> set (grant_files s). {i. leads_to k (fst x) i}) ?files"
    by (rule strips_for_each [where B = "\<lambda>x k. {i. leads_to k (fst x) i}"])
      (auto intro!: strips_warning strips_file no_throw_warning assms split: prod.split)
  have c: "strips uu (\<lambda>k. if grant_cwd s \<and> cwd_path s \<noteq> [] then tree_inos k (cwd_path s) else {}) ?cwd"
    by (auto intro!: strips_warning strips_tree strips_return assms)
  have quiet: "no_throw ?dirs" "no_throw ?files"
    by (auto intro!: no_throw_for_each no_throw_warning split: prod.split)
  show ?thesis
    unfolding strip_grants_def
    by (rule strips_cong [OF strips_bind [OF d quiet(1) strips_bind [OF f quiet(2) c]]])
      (auto simp: granted_inos_def)
qed

lemma no_throw_grants: "no_throw (strip_grants env s u)"
  unfolding strip_grants_def
  by (auto intro!: no_throw_bind no_throw_for_each no_throw_warning no_throw_return split: prod.split)

lemma atexit_entries_run:
  "atexit_entries env k =
     (if mode_is kStrict k \<and> populated (jaim_cred k)
      then strip_grants env (conf k) (c_uid (jaim_cred k)) k else (Inr (), k))"
  by (simp add: atexit_entries_def when_s_def get_s_def bind_s_def)

text \<open>The steps on the mount and the helper leave the files and the configuration alone.\<close>

definition same_files :: "'z launcher_scheme \<Rightarrow> 'z launcher_scheme \<Rightarrow> bool" where
  "same_files k0 k \<longleftrightarrow> machine.truncate k = machine.truncate k0 \<and> conf k = conf k0"

lemma same_files_refl: "same_files k k"
  by (simp add: same_files_def)

lemma same_files_trans: "same_files a b \<Longrightarrow> same_files b c \<Longrightarrow> same_files a c"
  by (simp add: same_files_def)

lemma same_filesD:
  assumes "same_files k0 k"
  shows "dir_table k = dir_table k0" "plans k = plans k0" "acl_entries k = acl_entries k0" "conf k = conf k0"
    "inodes k = inodes k0"
  using assms by (cases k; cases k0; simp add: same_files_def machine.truncate_def acl_entries_def fun_eq_iff)+

lemma same_files_updates [simp]:
  "same_files k0 (k\<lparr>mounts := m\<rparr>) = same_files k0 k" "same_files k0 (k\<lparr>helper := h\<rparr>) = same_files k0 k"
  "same_files k0 (k\<lparr>overlay_pid := n\<rparr>) = same_files k0 k"
  "same_files k0 (k\<lparr>overlay_mounted := b\<rparr>) = same_files k0 k"
  by (simp_all add: same_files_def machine.truncate_def)

lemma unplanned: "plans k = [] \<Longrightarrow> syscall m k = m k"
  by (simp add: syscall_def)

lemma ignore_run: "ignore m k = (Inr (), snd (m k))"
  by (simp add: ignore_def bind_s_def attempt_def return_s_def split: prod.split)

lemma unmounted_none: "map_of (filter (\<lambda>(q, d). q \<noteq> p) ms) p = None"
  by (induction ms) auto

lemma atexit_mount_run:
  assumes "plans k = []"
  shows "\<exists>k'. atexit_mount k = (Inr (), k') \<and> same_files k k' \<and> overlay_pid k' = overlay_pid k \<and>
     \<not> has_mount k' \<and> (has_mount k \<longrightarrow> map_of (mounts k') (overlay_mount (conf k)) = None)"
  using assms
  by (auto simp: atexit_mount_def when_s_def has_mount_def bind_s_def get_s_def attempt_def sys_unmount_def
      unplanned end_helper_def update_s_def return_s_def unmounted_none same_files_refl)

lemma poll_helper_run:
  assumes "plans k = []"
  shows "\<exists>k'. poll_helper n k = (Inr (), k') \<and> same_files k k' \<and> mounts k' = mounts k \<and>
     has_mount k' = has_mount k \<and>
     (k' = k \<or> overlay_pid k' = 0 \<and> helper k' = Absent)"
  using assms
proof (induction n arbitrary: k)
  case 0
  then show ?case by (simp add: return_s_def same_files_refl)
next
  case (Suc n)
  have "wait_nohang k = (Inr True, k\<lparr>helper := Absent\<rparr>) \<or> wait_nohang k = (Inr False, k)"
    using Suc.prems by (simp add: wait_nohang_def unplanned)
  then show ?case
  proof
    assume "wait_nohang k = (Inr True, k\<lparr>helper := Absent\<rparr>)"
    then show ?thesis by (simp add: bind_s_def attempt_def update_s_def same_files_refl has_mount_def)
  next
    assume "wait_nohang k = (Inr False, k)"
    then show ?thesis using Suc by (simp add: bind_s_def attempt_def)
  qed
qed

lemma reap_run:
  assumes "plans k = []"
  shows "reap_helper k = (Inr (), k\<lparr>helper := Absent\<rparr>)"
proof -
  have "k\<lparr>plans := []\<rparr> = k" using assms by simp
  then show ?thesis using assms by (simp add: reap_helper_def ignore_run unplanned)
qed

lemma kill_run: "plans k = [] \<Longrightarrow> kill_helper k = (Inr (), end_helper k)"
  by (simp add: kill_helper_def ignore_run unplanned)

lemma end_helper_same [simp]:
  "same_files k0 (end_helper k) = same_files k0 k" "mounts (end_helper k) = mounts k"
  "plans (end_helper k) = plans k" "overlay_pid (end_helper k) = overlay_pid k"
  by (simp_all add: end_helper_def)

lemma atexit_helper_run:
  assumes "plans k = []"
  shows "\<exists>k'. atexit_helper k = (Inr (), k') \<and> same_files k k' \<and> mounts k' = mounts k \<and>
     has_mount k' = has_mount k \<and>
     overlay_pid k' = 0 \<and> (overlay_pid k > 0 \<longrightarrow> helper k' = Absent)"
proof (cases "overlay_pid k > 0")
  case False
  then show ?thesis by (simp add: atexit_helper_def when_s_def same_files_refl)
next
  case True
  from poll_helper_run [OF assms, of 20] obtain k1 where poll: "poll_helper 20 k = (Inr (), k1)"
    and st: "same_files k k1" "mounts k1 = mounts k" "has_mount k1 = has_mount k"
    and two: "k1 = k \<or> overlay_pid k1 = 0 \<and> helper k1 = Absent" by blast
  have free: "plans k1 = []" using same_filesD [OF st(1)] assms by simp
  have k2: "atexit_helper k = (if overlay_pid k1 > 0
      then (Inr (), (end_helper k1)\<lparr>helper := Absent, overlay_pid := 0\<rparr>) else (Inr (), k1))"
    using True poll free
    by (simp add: atexit_helper_def when_s_def bind_s_def kill_run reap_run update_s_def)
  show ?thesis
    unfolding k2 using st two True by (auto simp: has_mount_def end_helper_def)
qed

lemma remove_tmp_run:
  assumes "plans k = []"
  shows "\<exists>k'. remove_private_tmp k = (Inr (), k') \<and> machine.more k' = machine.more k \<and> acls k' = acls k \<and>
     inodes k' = inodes k \<and> plans k' = [] \<and>
     dir_table k' = (case lookup_path k (private_tmp (conf k)) False of
         Inr l \<Rightarrow> if private_tmp (conf k) = [] then dir_table k
                  else filter (\<lambda>(l', i). \<not> prefix l l') (dir_table k)
       | Inl _ \<Rightarrow> dir_table k)"
  using assms
  by (auto simp: remove_private_tmp_def bind_s_def get_s_def return_s_def ignore_run sys_remove_all_def
      at_path_def unplanned split: sum.split)

text \<open>\<open>swept A k k'\<close>: the store without what is below the private directory.\<close>

definition swept :: "'z launcher_scheme \<Rightarrow> 'z launcher_scheme \<Rightarrow> bool" where
  "swept k k' \<longleftrightarrow>
     inodes k' = inodes k \<and>
     dir_table k' = (case lookup_path k (private_tmp (conf k)) False of
         Inr l \<Rightarrow> if private_tmp (conf k) = [] then dir_table k
                  else filter (\<lambda>(l', i). \<not> prefix l l') (dir_table k)
       | Inl _ \<Rightarrow> dir_table k)"

lemma same_lookup:
  "dir_table k' = dir_table k \<Longrightarrow> inodes k' = inodes k \<Longrightarrow> lookup_path k' p f = lookup_path k p f"
  by (simp add: lookup_path_def kind_at_def [abs_def] node_def [abs_def] entry_def [abs_def])

definition tidy :: "surroundings \<Rightarrow> 'z launcher_scheme \<Rightarrow> 'z launcher_scheme \<Rightarrow> bool" where
  "tidy env k k' \<longleftrightarrow>
     swept k k' \<and>
     (\<forall>uu. mode_is kStrict k \<and> populated (jaim_cred k) \<and> o_members env (c_uid (jaim_cred k)) = Inr uu \<longrightarrow>
        acl_entries k' = stripped_at uu (granted_inos (conf k) k) k) \<and>
     (has_mount k \<longrightarrow> map_of (mounts k') (overlay_mount (conf k)) = None) \<and> \<not> has_mount k' \<and>
     overlay_pid k' = 0 \<and> (overlay_pid k > 0 \<longrightarrow> helper k' = Absent)"

lemma atexit_tidies:
  assumes wf: "wf_kernel k" and free: "plans k = []" and short: "short_lists k"
    and known: "mode_is kStrict k \<longrightarrow> (\<exists>uu. o_members env (c_uid (jaim_cred k)) = Inr uu)"
  shows "\<exists>k'. atexit_fn env k = (Inr (), k') \<and> tidy env k k'"
proof -
  obtain k1 where one: "atexit_entries env k = (Inr (), k1)" and s1: "same_store k k1" and p1: "plans k1 = []"
    and e1: "\<And>uu. mode_is kStrict k \<and> populated (jaim_cred k) \<Longrightarrow> o_members env (c_uid (jaim_cred k)) = Inr uu \<Longrightarrow>
        acl_entries k1 = stripped_at uu (granted_inos (conf k) k) k"
  proof (cases "mode_is kStrict k \<and> populated (jaim_cred k)")
    case False
    then show thesis
      by (intro that [of k]) (use free False in \<open>auto simp: atexit_entries_run\<close>)
  next
    case True
    then obtain uu where uu: "o_members env (c_uid (jaim_cred k)) = Inr uu" using known by blast
    note st = stripsD [OF strips_grants [where s = "conf k", OF uu] wf free short]
    show thesis
      using no_throw_eq [OF no_throw_grants [of env "conf k" "c_uid (jaim_cred k)"], of k] st True uu
      by (intro that [of "snd (strip_grants env (conf k) (c_uid (jaim_cred k)) k)"])
        (simp_all add: atexit_entries_run)
  qed
  have more: "machine.more k1 = machine.more k" using s1 by (simp add: same_store_def)
  then have same1: "conf k1 = conf k" "mounts k1 = mounts k" "overlay_pid k1 = overlay_pid k"
    "has_mount k1 = has_mount k" "helper k1 = helper k"
    by (cases k1; cases k; simp add: has_mount_def)+
  obtain k2 where two: "atexit_mount k1 = (Inr (), k2)" and s2: "same_files k1 k2"
    and m2: "overlay_pid k2 = overlay_pid k" "\<not> has_mount k2"
      "has_mount k \<longrightarrow> map_of (mounts k2) (overlay_mount (conf k)) = None"
    using atexit_mount_run [OF p1] same1 by auto
  obtain k3 where three: "atexit_helper k2 = (Inr (), k3)" and s3: "same_files k2 k3" and m3: "mounts k3 = mounts k2" "has_mount k3 = has_mount k2"
    and h3: "overlay_pid k3 = 0" "overlay_pid k > 0 \<longrightarrow> helper k3 = Absent"
    using atexit_helper_run [of k2] same_filesD [OF s2] p1 m2 by auto
  have s13: "same_files k1 k3" by (rule same_files_trans [OF s2 s3])
  note d3 = same_filesD [OF s13]
  obtain k4 where four: "remove_private_tmp k3 = (Inr (), k4)" and m4: "machine.more k4 = machine.more k3" "acls k4 = acls k3"
    and sw: "swept k3 k4"
    using remove_tmp_run [of k3] d3 p1 by (auto simp: swept_def)
  have f4: "conf k4 = conf k3" "mounts k4 = mounts k3" "overlay_pid k4 = overlay_pid k3" "helper k4 = helper k3"
    "overlay_mounted k4 = overlay_mounted k3"
    using m4(1) by (cases k4; cases k3; simp)+
  have "swept k k4"
    using sw d3 same1(1) same_storeD [OF s1] same_lookup [of k3 k]
    by (simp add: swept_def split: sum.split)
  moreover have "acl_entries k4 = acl_entries k1"
    using m4(2) d3(3) by (simp add: acl_entries_def fun_eq_iff)
  ultimately have "tidy env k k4"
    using e1 m2 m3 h3 f4 d3(4) same_filesD(4) [OF s2] same_filesD(4) [OF s3] same1
    by (auto simp: tidy_def has_mount_def)
  moreover have "atexit_fn env k = (Inr (), k4)"
    by (simp add: atexit_fn_def bind_s_def one two three four)
  ultimately show ?thesis by blast
qed

end
