(* ===== verification/Supervision_Theorems.thy ===== *)
theory Supervision_Theorems
  imports Cleanup
begin

text \<open>
  The guarantees of a run as a whole, and where they end.
\<close>

section \<open>A sample\<close>

text \<open>
  A small machine on which whole runs are evaluated: a user with id 501 has started the program
  from a setuid-root installation, so that the effective id is 501 and the saved one 0.
\<close>

definition launch_files :: "(loc \<times> fkind \<times> nat \<times> nat) list" where
  "launch_files =
     [([], Dir, 0, 493), ([''tmp''], Dir, 0, 511), ([''w''], Dir, 501, 493),
      ([''w'', ''f''], Reg ''abc'', 501, 420), ([''w'', ''r''], Reg ''root'', 0, 420),
      ([''secret''], Reg ''key'', 0, 384)]"

definition system_account :: passwd where
  "system_account =
     \<lparr>pw_name = ''_jaim'', pw_uid = 305, pw_gid = 306, pw_dir = ''/var/empty'', pw_shell = ''/usr/bin/false''\<rparr>"

definition sample_outside :: surroundings where
  "sample_outside =
     \<lparr>o_temp_dir = Inr ''/tmp'', o_suffix = ''Ab12Cd34'', o_confstr = (20, ''/var/folders/C'', 0),
      o_mount_up = (\<lambda>i. i = 2), o_helper_gone = (\<lambda>i. False),
      o_getpwnam = (\<lambda>n. Inr (if n = ''_jaim'' then Some system_account else None)),
      o_grouplist = (\<lambda>n g room. if room = 0 then (-1, 2, []) else (0, 2, [306, 12])),
      o_members = sample_member, o_random = [1, 2, 3, 4, 5, 6, 7, 8, 9, 10]\<rparr>"

definition launch_config :: "mode \<Rightarrow> path list \<Rightarrow> config" where
  "launch_config m scripts =
     sample_config\<lparr>jail_mode := m, grant_directories := [(''/w'', 0)], grant_cwd := False,
       sandbox_name := ''default'', script_inputs := scripts\<rparr>"

definition sample_launcher :: "mode \<Rightarrow> path list \<Rightarrow> launcher" where
  "sample_launcher m scripts =
     \<lparr>dir_table = zip (map fst launch_files) [0..<6],
      inodes = (\<lambda>i. if i < 6 then
          let (l, kd, u, md) = launch_files ! i in
          Some \<lparr>i_kind = kd, i_mode = md, i_uid = u, i_gid = 20, i_atime = (1, 0), i_mtime = (2, 0), i_xattr = []\<rparr>
        else None),
      next_ino = 6, fds = (\<lambda>_. None), next_fd = 3, plans = [],
      proc = \<lparr>ruid = 501, euid = 501, suid = 0, rgid = 20, egid = 20, sgid = 20, group_list = [20]\<rparr>,
      acls = (\<lambda>i. None), dirent_types = True, warned = [],
      conf = launch_config m scripts, jaim_cred = \<lparr>c_uid = 0, c_gid = 0, c_groups = []\<rparr>, overlay_pid = 0, overlay_mounted = False,
      helper = Absent, helper_args = [], mounts = [], sandbox = None, open_fds = [0, 1, 2, 7],
      work_dir = ''/Users/u/proj'', file_mask = 0, old_umask = 18, out_lines = []\<rparr>"

definition prepared :: "mode \<Rightarrow> path list \<Rightarrow> (error + path \<times> string) \<times> launcher" where
  "prepared m scripts = prepare sample_outside sample_world (sample_launcher m scripts)"

text \<open>The state that \<open>prepare\<close> leaves for the fork, with a variable that must not be inherited.\<close>

definition at_fork :: launcher where
  "at_fork =
     (sample_launcher kStrict [])\<lparr>
       proc := \<lparr>ruid = 501, euid = 0, suid = 0, rgid = 20, egid = 20, sgid = 20, group_list = [20]\<rparr>,
       jaim_cred := \<lparr>c_uid = 305, c_gid = 306, c_groups = [306, 12]\<rparr>,
       acls := (\<lambda>i. if i = 4 then Some [new_entry 1305 kReadWriteExec False, sample_entry] else None),
       conf := (launch_config kStrict [])\<lparr>private_tmp := ''/tmp'', env_filter := os_insert str_less ''KEY'' [],
         environ := [''HOME=/Users/u'', ''KEY=x'', ''PATH=/usr/bin:/bin'']\<rparr>\<rparr>"

definition only_ls :: "path \<Rightarrow> bool" where
  "only_ls p \<longleftrightarrow> p = ''/bin/ls''"

lemma at_fork_wf: "wf_kernel at_fork"
proof (rule wf_checkI)
  show "wf_check at_fork" by code_simp
qed (simp add: at_fork_def sample_launcher_def)

lemma at_fork_facts:
  "plans at_fork = []" "short_lists at_fork" "mode_is kStrict at_fork"
  "o_members sample_outside (c_uid (jaim_cred at_fork)) = Inr 1305"
  by (simp_all add: at_fork_def sample_launcher_def launch_config_def short_lists_def acl_entries_def
      acl_max_entries_def sample_outside_def sample_member_def mode_is_def)

text \<open>A whole start in strict mode, with a file of root as the script: what it leaves is looked up below.\<close>

definition content :: "'z kernel_scheme \<Rightarrow> loc \<Rightarrow> string option" where
  "content k l = (case node k l of Some nd \<Rightarrow> (case i_kind nd of Reg s \<Rightarrow> Some s | _ \<Rightarrow> None) | None \<Rightarrow> None)"

definition owner :: "'z kernel_scheme \<Rightarrow> loc \<Rightarrow> nat option" where
  "owner k l = map_option i_uid (node k l)"

definition grants_right :: "'z machine_scheme \<Rightarrow> uuid \<Rightarrow> acl_perm \<Rightarrow> loc \<Rightarrow> bool" where
  "grants_right k uu p l \<longleftrightarrow>
     (case entry k l of
        None \<Rightarrow> False
      | Some i \<Rightarrow> list_ex (\<lambda>a. ace_tag a = ACL_EXTENDED_ALLOW \<and> ace_qualifier a = Some uu \<and> p \<in> ace_perms a)
          (acl_entries k i))"

definition tmp_loc :: loc where "tmp_loc = [''tmp'', ''jaim.Ab12Cd34'']"

definition script_loc :: loc where "script_loc = tmp_loc @ [''.jaimrc0123456789'']"

definition root_files_given :: "(error + path \<times> string) \<times> launcher \<Rightarrow> bool" where
  "root_files_given r \<longleftrightarrow>
     (case r of
        (Inl _, _) \<Rightarrow> False
      | (Inr _, k1) \<Rightarrow>
          prefix ''key'' (the (content k1 script_loc)) \<and> owner k1 script_loc = Some 305 \<and>
          grants_right k1 1305 ACL_WRITE_DATA [''w'', ''r''] \<and> owner k1 [''w'', ''r''] = Some 0 \<and>
          entry k1 tmp_loc \<noteq> None)"

lemma root_files_sample: "root_files_given (prepared kStrict [''/secret''])"
  by code_simp

section \<open>The child\<close>

lemma sample_child:
  "case child sample_world only_ls [] ''(version 1)'' [''ls''] at_fork of
     Executed t \<Rightarrow> t_file t = ''/bin/ls'' \<and> t_env t = environ (conf at_fork) \<and> t_fds t = [0, 1, 2]
   | Child_exit n \<Rightarrow> False"
  by code_simp

text \<open>C6: Whatever calls fail, the command is only ever started inside the sandbox, under the profile
  that was generated, with the file mask of the user; in strict mode its real, effective and saved
  ids and its groups are those of the system user.  All other ways out of the child are an exit.\<close>

theorem command_starts_confined:
  assumes "child w runs script profile argv k = Executed t"
  shows "t_sandbox t = Some profile \<and> t_umask t = old_umask k \<and>
     (jail_mode (conf k) \<noteq> kStrict \<or> t_ids t = ids_of (jaim_cred k))"
proof -
  from assms obtain k1 k2 k3 k4 k5 k6 where
    drop: "(if mode_is kStrict k then enter_permanently (jaim_cred k) else return_s ()) k = (Inr (), k1)"
    and enter: "enter_sandbox profile k1 = (Inr (), k2)"
    and rest: "scrub_fds k2 = (Inr (), k3)" "name_script script k3 = (Inr (), k4)"
      "enter_cwd w k4 = (Inr (), k5)"
    and run: "exec_program runs argv (k5\<lparr>file_mask := old_umask k5\<rparr>) = (Inr (Some t), k6)"
    by (rule child_executed)
  have old: "old_umask k1 = old_umask k"
    and ids: "jail_mode (conf k) = kStrict \<Longrightarrow> proc k1 = ids_of (jaim_cred k)"
    using drop keepsD [OF keeps_enter_permanently [of k "jaim_cred k"], of k]
    by (auto simp: mode_is_def ids_of_def return_s_def dest: same_programD(3) enter_permanently_ids split: if_splits)
  let ?I = "attired (proc k1) (Some profile) (old_umask k)"
  have "?I k2"
    using enter old
    by (auto simp: enter_sandbox_def sandbox_init_def syscall_def bind_s_def attempt_def attired_def
        throw_s_def return_s_def split: list.splits plan.splits)
  then have "?I k5"
    using rest keepsD [OF keeps_scrub] keepsD [OF keeps_name_script] keepsD [OF keeps_enter_cwd]
    by (metis snd_conv)
  then have "?I (k5\<lparr>file_mask := old_umask k5\<rparr>) \<and> file_mask (k5\<lparr>file_mask := old_umask k5\<rparr>) = old_umask k"
    by (simp add: attired_def)
  from triple_Inr [OF exec_program_attired this run]
  show ?thesis using ids by (auto simp: ids_of_def)
qed

theorem command_starts_confined_witness:
  "\<exists>t. child sample_world only_ls [] ''(version 1)'' [''ls''] at_fork = Executed t \<and>
     t_sandbox t = Some ''(version 1)'' \<and> t_umask t = 18 \<and> t_ids t = ids_of (jaim_cred at_fork)"
proof -
  obtain t where run: "child sample_world only_ls [] ''(version 1)'' [''ls''] at_fork = Executed t"
    using sample_child by (auto split: child_end.splits)
  show ?thesis
    using command_starts_confined [OF run] run
    by (auto simp: at_fork_def launch_config_def sample_launcher_def)
qed

section \<open>The wait for the command\<close>

text \<open>Answers of \<open>waitpid\<close> after which the loop goes on.\<close>

fun goes_on :: "wait_event \<Rightarrow> bool" where
  "goes_on (Wait_error e) = (e = EINTR)"
| "goes_on Wait_other = True"
| "goes_on (Wait_status (Stop_status sig)) = True"
| "goes_on (Wait_status Continue_status) = True"
| "goes_on (Wait_status st) = False"

lemma wait_child_goes_on: "goes_on e \<Longrightarrow> wait_child env (e # es) = wait_child env es"
  by (cases e rule: goes_on.cases) (auto simp: propagate_termination_status_def)

lemma wait_child_skip: "list_all goes_on es \<Longrightarrow> wait_child env (es @ fs) = wait_child env fs"
  by (induction es) (simp_all add: wait_child_goes_on)

text \<open>C8: However often the wait is interrupted and the command stopped and continued, when the command
  exits the parent ends with its status and, if no call fails, has cleaned up: the private directory is
  gone with all below it and nothing else of the store is; in strict mode every list of a granted
  file has lost the entries of the system user and no others; the overlay is unmounted and its helper
  has ended and been waited for.\<close>

theorem orderly_end_cleans_up:
  assumes "wf_kernel k" and "plans k = []" and "short_lists k"
    and "mode_is kStrict k \<longrightarrow> (\<exists>uu. o_members env (c_uid (jaim_cred k)) = Inr uu)"
    and "list_all goes_on es"
  shows "\<exists>k'. wait_child env (es @ [Wait_status (Exit_status n)]) k = (Inr (Parent_exit n), k') \<and> tidy env k k'"
  using atexit_tidies [OF assms(1-4)]
  by (auto simp: wait_child_skip [OF assms(5)] propagate_termination_status_def bind_s_def return_s_def)

theorem orderly_end_cleans_up_witness:
  "\<exists>k'. wait_child sample_outside ([Wait_status (Stop_status SIGTSTP), Wait_error EINTR] @ [Wait_status (Exit_status 3)])
      at_fork = (Inr (Parent_exit 3), k') \<and> tidy sample_outside at_fork k'"
  by (rule orderly_end_cleans_up [OF at_fork_wf]) (simp_all add: at_fork_facts)

text \<open>C10: When a signal ends the command, the parent dies of the same signal without cleaning up: the run
  ends in the very state that the command has left, with the entries of strict mode, the mounted
  overlay, its helper and the private directory.\<close>

theorem killed_command_leaves_everything:
  assumes "prepare env w k = (Inr (script, profile), k1)" and "list_all goes_on es" and "default_ends sig"
  shows "exec env w runs command (es @ [Wait_status (Signal_status sig)]) argv k =
     (Inr (Parent_killed sig), command (child w runs script profile argv k1) k1)"
  using assms
  by (simp add: exec_def bind_s_def update_s_def wait_child_skip propagate_termination_status_def return_s_def)

theorem killed_command_leaves_everything_witness:
  "\<exists>k1. exec sample_outside sample_world only_ls (\<lambda>e k. k) ([Wait_other] @ [Wait_status (Signal_status 9)])
      [''/bin/ls''] (sample_launcher kStrict [''/secret'']) = (Inr (Parent_killed 9), k1) \<and>
     grants_right k1 1305 ACL_WRITE_DATA [''w'', ''r''] \<and> entry k1 tmp_loc \<noteq> None"
proof -
  obtain script profile k1 where run: "prepare sample_outside sample_world (sample_launcher kStrict [''/secret'']) =
      (Inr (script, profile), k1)"
    and left: "grants_right k1 1305 ACL_WRITE_DATA [''w'', ''r'']" "entry k1 tmp_loc \<noteq> None"
    using root_files_sample
    by (auto simp: root_files_given_def prepared_def split: prod.splits sum.splits)
  show ?thesis
    using killed_command_leaves_everything [OF run, where es = "[Wait_other]" and sig = 9] left
    by (auto simp: default_ends_def SIGSTOP_def SIGTSTP_def SIGTTIN_def SIGTTOU_def)
qed

section \<open>What goes around the configuration\<close>

text \<open>The environment of the process and the program, which the steps of the child keep.\<close>

definition told :: "string list \<Rightarrow> string \<Rightarrow> 'z launcher_scheme \<Rightarrow> bool" where
  "told E C k \<longleftrightarrow> environ (conf k) = E \<and> shellcmd (conf k) = C"

lemma told_simps [simp]:
  "told E C (k\<lparr>plans := q\<rparr>) = told E C k" "told E C (k\<lparr>sandbox := s\<rparr>) = told E C k"
  "told E C (k\<lparr>open_fds := f\<rparr>) = told E C k" "told E C (k\<lparr>work_dir := d\<rparr>) = told E C k"
  "told E C (k\<lparr>file_mask := m\<rparr>) = told E C k"
  by (simp_all add: told_def)

lemma told_enter_sandbox: "keeps (told E C) (enter_sandbox p)"
  unfolding enter_sandbox_def sandbox_init_def
  by (auto intro!: keeps_bind keeps_attempt keeps_planned_call keeps_fun split: sum.split)

lemma told_scrub: "keeps (told E C) scrub_fds"
  unfolding scrub_fds_def list_fds_def close_fd_def
  by (auto intro!: keeps_bind keeps_attempt keeps_planned_call keeps_for_each keeps_ignore_s keeps_fun
      split: sum.split)

lemma told_enter_cwd: "keeps (told E C) (enter_cwd w)"
proof -
  have "keeps (told E C) (on_conf (cwd w))"
    unfolding keeps_def
    by (auto simp: on_conf_def cwd_def bind_s_def get_s_def update_s_def return_s_def lift_s_def told_def
        split: prod.splits sum.splits if_splits)
  then show ?thesis
    unfolding enter_cwd_def
    by (auto intro!: keeps_bind keeps_or_syserr keeps_planned_call keeps_fun)
qed

text \<open>C9: When the program is not accepted as it is given, which is every name that is to be looked up along
  \<open>PATH\<close>, the command starts with the environment of the process and not with the one that the
  configuration makes: nothing is filtered or set, and \<open>HOME\<close> and \<open>TMPDIR\<close> stay those of the user.\<close>

theorem path_lookup_ignores_environment:
  assumes "child w runs script profile argv k = Executed t" and "\<not> runs (shell_program (conf k) argv)"
  shows "t_env t = (if script = [] then environ (conf k) else putenv ''JAIM_SCRIPT'' script (environ (conf k)))"
proof -
  from assms(1) obtain k1 k2 k3 k4 k5 k6 where
    drop: "(if mode_is kStrict k then enter_permanently (jaim_cred k) else return_s ()) k = (Inr (), k1)"
    and enter: "enter_sandbox profile k1 = (Inr (), k2)" and scrub: "scrub_fds k2 = (Inr (), k3)"
    and name: "name_script script k3 = (Inr (), k4)" and into: "enter_cwd w k4 = (Inr (), k5)"
    and run: "exec_program runs argv (k5\<lparr>file_mask := old_umask k5\<rparr>) = (Inr (Some t), k6)"
    by (rule child_executed)
  let ?C = "shellcmd (conf k)"
  let ?E = "if script = [] then environ (conf k) else putenv ''JAIM_SCRIPT'' script (environ (conf k))"
  have "told (environ (conf k)) ?C k1"
    using drop keepsD [OF keeps_enter_permanently [of k "jaim_cred k"], of k]
    by (auto simp: told_def return_s_def dest: same_programD(1) split: if_splits)
  then have "told (environ (conf k)) ?C k3"
    using keepsD [OF told_enter_sandbox [of _ _ profile]] keepsD [OF told_scrub] enter scrub by (metis snd_conv)
  then have "told ?E ?C k4"
    using name by (auto simp: name_script_def told_def update_s_def return_s_def split: if_splits)
  then have "told ?E ?C k5" using keepsD [OF told_enter_cwd [of _ _ w]] into by (metis snd_conv)
  moreover have "shell_program (conf k5) argv = shell_program (conf k) argv"
    using calculation by (simp add: told_def shell_program_def)
  ultimately show ?thesis
    using run assms(2)
    by (auto simp: exec_program_def get_s_def bind_s_def on_conf_def make_env_def told_def started_task_def
        split: option.splits if_splits)
qed

theorem path_lookup_ignores_environment_witness:
  "\<exists>t. child sample_world only_ls [] ''(version 1)'' [''ls''] at_fork = Executed t \<and>
     ''KEY=x'' \<in> set (t_env t) \<and> ''HOME=/Users/u'' \<in> set (t_env t) \<and> filtered (conf at_fork) ''KEY''"
proof -
  obtain t where run: "child sample_world only_ls [] ''(version 1)'' [''ls''] at_fork = Executed t"
    using sample_child by (auto split: child_end.splits)
  have "\<not> only_ls (shell_program (conf at_fork) [''ls''])" "filtered (conf at_fork) ''KEY''" by code_simp+
  moreover have "environ (conf at_fork) = [''HOME=/Users/u'', ''KEY=x'', ''PATH=/usr/bin:/bin'']"
    by (simp add: at_fork_def)
  ultimately show ?thesis
    using path_lookup_ignores_environment [OF run] run by simp
qed

end
