(* ===== verification/Accounts.thy ===== *)
theory Accounts
  imports Credentials Files
begin

text \<open>
  \<open>src/setup_user.cc\<close>: the account of strict mode, created and removed through \<open>dscl\<close>, and the
  setuid-root installation.

  The directory service is not part of the sources.  Its state is the type variable \<open>'d\<close> and its
  answers are the fields of the record \<open>directory\<close>: how a command ends and the state after it, and
  what the lookups of accounts and groups find.
\<close>

section \<open>The directory service\<close>

datatype cmd_end = No_fork nat | No_wait nat | Exited nat | Killed_by nat | Odd_status nat

record 'd directory =
  d_run :: "string list \<Rightarrow> 'd \<Rightarrow> cmd_end \<times> 'd"
  d_getpwnam :: "'d \<Rightarrow> string \<Rightarrow> error + passwd option"
  d_getpwuid :: "'d \<Rightarrow> nat \<Rightarrow> error + passwd option"
  d_getgrnam :: "'d \<Rightarrow> string \<Rightarrow> error + nat option"
  d_getgrgid :: "'d \<Rightarrow> nat \<Rightarrow> error + nat option"

text \<open>The state of a one-shot command: the directory, who runs it, and what it printed and warned.\<close>

record 'd session =
  base :: 'd
  caller :: nat
  printed :: "string list"
  noted :: "string list"

type_synonym ('d, 'a) astep = "('d session, error, 'a) estep"

definition kDscl :: string where "kDscl = ''/usr/bin/dscl''"
definition kHomeDir :: string where "kHomeDir = ''/var/empty''"
definition kShell :: string where "kShell = ''/usr/bin/false''"
definition kRealName :: string where "kRealName = ''jaim Sandbox User''"
definition kGroupRealName :: string where "kGroupRealName = ''jaim Sandbox Group''"
definition kScanStart :: nat where "kScanStart = 300"
definition kScanEnd :: nat where "kScanEnd = 500"

definition println :: "string \<Rightarrow> ('d, unit) astep" where
  "println m = update_s (\<lambda>s. s\<lparr>printed := printed s @ [m]\<rparr>)"

definition note_warning :: "string \<Rightarrow> ('d, unit) astep" where
  "note_warning m = update_s (\<lambda>s. s\<lparr>noted := noted s @ [m]\<rparr>)"

definition ask :: "('d \<Rightarrow> error + 'a) \<Rightarrow> ('d, 'a) astep" where
  "ask f = bind_s (get_s base) (\<lambda>d. lift_s (f d))"

definition run_cmd :: "'d directory \<Rightarrow> string list \<Rightarrow> ('d, nat) astep" where
  "run_cmd ds argv s =
     (case d_run ds argv (base s) of (r, d) \<Rightarrow>
        ((case r of
            No_fork e \<Rightarrow> Inl (SysError e ''fork'')
          | No_wait e \<Rightarrow> Inl (SysError e (''waitpid('' @ hd argv @ '')''))
          | Exited n \<Rightarrow> Inr n
          | Killed_by sig \<Rightarrow> Inl (RuntimeError (hd argv @ '': killed by signal '' @ show_nat sig))
          | Odd_status st \<Rightarrow> Inl (RuntimeError (hd argv @ '': unexpected wait status '' @ show_nat st))),
         s\<lparr>base := d\<rparr>))"

text \<open>The loops over the ids of the range.\<close>

fun first_unused :: "(nat \<Rightarrow> error + 'a option) \<Rightarrow> nat list \<Rightarrow> error + nat option" where
  "first_unused look [] = Inr None"
| "first_unused look (u # us) =
     (case look u of
        Inl e \<Rightarrow> Inl e
      | Inr None \<Rightarrow> Inr (Some u)
      | Inr (Some _) \<Rightarrow> first_unused look us)"

definition none_unused :: "string \<Rightarrow> error" where
  "none_unused what =
     RuntimeError (''could not find an unused '' @ what @ '' in ['' @ show_nat kScanStart @ '', '' @
       show_nat kScanEnd @ '')'')"

definition find_unused_uid :: "'d directory \<Rightarrow> ('d, nat) astep" where
  "find_unused_uid ds =
     bind_s (ask (\<lambda>d. first_unused (d_getpwuid ds d) [kScanStart..<kScanEnd])) (\<lambda>r.
       case r of Some u \<Rightarrow> return_s u | None \<Rightarrow> throw_s (none_unused ''UID''))"

definition find_unused_gid :: "'d directory \<Rightarrow> ('d, nat) astep" where
  "find_unused_gid ds =
     bind_s (ask (\<lambda>d. first_unused (d_getgrgid ds d) [kScanStart..<kScanEnd])) (\<lambda>r.
       case r of Some g \<Rightarrow> return_s g | None \<Rightarrow> throw_s (none_unused ''GID''))"

definition dscl_set :: "'d directory \<Rightarrow> string \<Rightarrow> string \<Rightarrow> string \<Rightarrow> ('d, unit) astep" where
  "dscl_set ds rec key v =
     bind_s (run_cmd ds [kDscl, ''.'', ''-create'', rec, key, v]) (\<lambda>r.
       if r \<noteq> 0 then throw_s (RuntimeError (''dscl . -create '' @ rec @ '' '' @ key @ '': exit '' @ show_nat r))
       else return_s ())"

definition dscl_create_record :: "'d directory \<Rightarrow> string \<Rightarrow> ('d, unit) astep" where
  "dscl_create_record ds rec =
     bind_s (run_cmd ds [kDscl, ''.'', ''-create'', rec]) (\<lambda>r.
       if r \<noteq> 0 then throw_s (RuntimeError (''dscl . -create '' @ rec @ '': exit '' @ show_nat r))
       else return_s ())"

definition dscl_delete_record :: "'d directory \<Rightarrow> string \<Rightarrow> ('d, unit) astep" where
  "dscl_delete_record ds rec =
     bind_s (run_cmd ds [kDscl, ''.'', ''-delete'', rec]) (\<lambda>r.
       if r \<noteq> 0 then throw_s (RuntimeError (''dscl . -delete '' @ rec @ '': exit '' @ show_nat r))
       else return_s ())"

definition require_root :: "string \<Rightarrow> ('d, unit) astep" where
  "require_root flag =
     bind_s (get_s caller) (\<lambda>u.
       if u \<noteq> 0 then throw_s (RuntimeError (flag @ '' requires root; rerun with sudo'')) else return_s ())"

section \<open>Creating the account\<close>

definition user_record :: string where "user_record = ''/Users/'' @ kJaimSystemUser"
definition group_record :: string where "group_record = ''/Groups/'' @ kJaimSystemUser"

definition swallow :: "('s, 'e, 'a) estep \<Rightarrow> ('s, 'e, unit) estep" where
  "swallow m = bind_s (attempt m) (\<lambda>_. return_s ())"

definition report_existing :: "passwd \<Rightarrow> ('d, unit) astep" where
  "report_existing pw =
     bind_s (println (''user '' @ kJaimSystemUser @ '' already exists (uid='' @ show_nat (pw_uid pw) @
               '', gid='' @ show_nat (pw_gid pw) @ '')'')) (\<lambda>_.
     bind_s (if pw_dir pw \<noteq> kHomeDir then
               note_warning (''existing '' @ kJaimSystemUser @ '': NFSHomeDirectory='' @ pw_dir pw @
                 '' (expected '' @ kHomeDir @ '')'')
             else return_s ()) (\<lambda>_.
       if pw_shell pw \<noteq> kShell then
         note_warning (''existing '' @ kJaimSystemUser @ '': UserShell='' @ pw_shell pw @
           '' (expected '' @ kShell @ '')'')
       else return_s ()))"

definition group_attributes :: "nat \<Rightarrow> (string \<times> string) list" where
  "group_attributes gid =
     [(''PrimaryGroupID'', show_nat gid), (''RealName'', kGroupRealName), (''Password'', ''*'')]"

definition user_attributes :: "nat \<Rightarrow> nat \<Rightarrow> (string \<times> string) list" where
  "user_attributes uid gid =
     [(''UniqueID'', show_nat uid), (''PrimaryGroupID'', show_nat gid), (''NFSHomeDirectory'', kHomeDir),
      (''UserShell'', kShell), (''RealName'', kRealName), (''Password'', ''*''), (''IsHidden'', ''1'')]"

definition set_attributes :: "'d directory \<Rightarrow> string \<Rightarrow> (string \<times> string) list \<Rightarrow> ('d, unit) astep" where
  "set_attributes ds rec kvs = for_each kvs (\<lambda>(key, v). dscl_set ds rec key v)"

definition not_created :: "string \<Rightarrow> error" where
  "not_created what = RuntimeError (kJaimSystemUser @ '' '' @ what @ '' was not created successfully'')"

text \<open>First the group, which is looked up again before the user's record refers to it, then the user.\<close>

definition create_group :: "'d directory \<Rightarrow> ('d, nat) astep" where
  "create_group ds =
     bind_s (find_unused_gid ds) (\<lambda>gid.
     bind_s (dscl_create_record ds group_record) (\<lambda>_.
     bind_s (on_error (set_attributes ds group_record (group_attributes gid))
               (swallow (dscl_delete_record ds group_record))) (\<lambda>_.
     bind_s (ask (\<lambda>d. d_getgrnam ds d kJaimSystemUser)) (\<lambda>gr.
       if gr = None then throw_s (not_created ''group'') else return_s gid))))"

definition create_user :: "'d directory \<Rightarrow> nat \<Rightarrow> ('d, nat) astep" where
  "create_user ds gid =
     bind_s (find_unused_uid ds) (\<lambda>uid.
     bind_s (dscl_create_record ds user_record) (\<lambda>_.
     bind_s (on_error (set_attributes ds user_record (user_attributes uid gid))
               (bind_s (swallow (dscl_delete_record ds user_record)) (\<lambda>_.
                  swallow (dscl_delete_record ds group_record)))) (\<lambda>_.
     bind_s (ask (\<lambda>d. d_getpwnam ds d kJaimSystemUser)) (\<lambda>pw.
       if pw = None then throw_s (not_created ''user'') else return_s uid))))"

definition create_account :: "'d directory \<Rightarrow> ('d, unit) astep" where
  "create_account ds =
     bind_s (create_group ds) (\<lambda>gid.
     bind_s (create_user ds gid) (\<lambda>uid.
       println (''created '' @ kJaimSystemUser @ '' (uid='' @ show_nat uid @ '', gid='' @ show_nat gid @
         '', home='' @ kHomeDir @ '', shell='' @ kShell @ '')'')))"

definition setup_jaim_user :: "'d directory \<Rightarrow> ('d, unit) astep" where
  "setup_jaim_user ds =
     bind_s (require_root ''--setup-user'') (\<lambda>_.
     bind_s (ask (\<lambda>d. d_getpwnam ds d kJaimSystemUser)) (\<lambda>pw.
       case pw of Some p \<Rightarrow> report_existing p | None \<Rightarrow> create_account ds))"

section \<open>Removing it\<close>

definition remove_if :: "'d directory \<Rightarrow> bool \<Rightarrow> string \<Rightarrow> string \<Rightarrow> ('d, unit) astep" where
  "remove_if ds found rec what =
     (if found then
        bind_s (dscl_delete_record ds rec) (\<lambda>_. println (''removed '' @ what @ '' '' @ kJaimSystemUser))
      else return_s ())"

definition remove_jaim_user :: "'d directory \<Rightarrow> ('d, unit) astep" where
  "remove_jaim_user ds =
     bind_s (require_root ''--remove-user'') (\<lambda>_.
     bind_s (ask (\<lambda>d. d_getpwnam ds d kJaimSystemUser)) (\<lambda>pw.
     bind_s (remove_if ds (pw \<noteq> None) user_record ''user'') (\<lambda>_.
     bind_s (ask (\<lambda>d. d_getgrnam ds d kJaimSystemUser)) (\<lambda>gr.
     bind_s (remove_if ds (gr \<noteq> None) group_record ''group'') (\<lambda>_.
       if pw = None \<and> gr = None then
         println (''user and group '' @ kJaimSystemUser @ '' not present; nothing to remove'')
       else return_s ())))))"

section \<open>The setuid installation\<close>

text \<open>
  \<open>exe\<close> is the answer of \<open>_NSGetExecutablePath\<close>; the lines printed are the result.
\<close>

definition running_executable_path :: "path option \<Rightarrow> ('z, path) mstep" where
  "running_executable_path exe =
     (case exe of
        None \<Rightarrow> throw_s (RuntimeError ''_NSGetExecutablePath: failed to retrieve executable path'')
      | Some p \<Rightarrow> or_syserr (call_on ''realpath'' p) (sys_realpath p))"

definition setuid_mode :: nat where "setuid_mode = 2048 + 256 + 64 + 32 + 8 + 4 + 1"

definition setup_setuid :: "path option \<Rightarrow> path \<Rightarrow> ('z, string list) mstep" where
  "setup_setuid exe prog =
     bind_s (get_s (\<lambda>k. euid (proc k))) (\<lambda>u.
       if u \<noteq> 0 then throw_s (RuntimeError ''--setup-setuid requires root; rerun with sudo'')
       else
         bind_s (running_executable_path exe) (\<lambda>p.
         bind_s (or_syserr (''chown(root:wheel) '' @ p) (sys_chown p 0 0)) (\<lambda>_.
         bind_s (or_syserr (''chmod(4555) '' @ p) (sys_chmod p setuid_mode)) (\<lambda>_.
           return_s [''installed '' @ p @ '' as setuid root (mode 4555)'',
             ''you can now run `'' @ filename prog @ '' -m strict` without sudo'']))))"

end
