(* ===== verification/Accounts_Theorems.thy ===== *)
theory Accounts_Theorems
  imports Accounts Machine_Facts Credentials_Facts "HOL-Library.AList"
begin

text \<open>
  What \<open>setup_jaim_user\<close> and \<open>remove_jaim_user\<close> do to the records of the directory, from what
  the manual page \<open>dscl(1)\<close> says of the commands they run.
\<close>

section \<open>The documented effect of dscl\<close>

type_synonym records = "string \<Rightarrow> (string \<rightharpoonup> string) option"

definition present :: "(string \<rightharpoonup> string) option \<Rightarrow> string \<rightharpoonup> string" where
  "present r = (case r of None \<Rightarrow> Map.empty | Some a \<Rightarrow> a)"

text \<open>
  \<open>-create rec\<close> makes a record unless it is there, \<open>-create rec key value\<close> sets an attribute of it,
  \<open>-delete rec\<close> removes it.
\<close>

fun effect :: "string list \<Rightarrow> records \<Rightarrow> records" where
  "effect [cmd, host, verb, r] R =
     (if verb = ''-create'' then R(r := Some (present (R r)))
      else if verb = ''-delete'' then R(r := None) else R)"
| "effect [cmd, host, verb, r, key, v] R =
     (if verb = ''-create'' then R(r := Some ((present (R r))(key \<mapsto> v))) else R)"
| "effect argv R = R"

text \<open>
  \<open>documented ds recs\<close>: \<open>recs d\<close> are the local records of the state \<open>d\<close>.  Of the three forms of the
  command that the program runs, one that exits with 0 has had its effect, and one that fails in any
  way has had it or has changed nothing.
\<close>

inductive dscl_form :: "string list \<Rightarrow> bool" where
  Create: "dscl_form [kDscl, ''.'', ''-create'', r]"
| Attribute: "dscl_form [kDscl, ''.'', ''-create'', r, key, v]"
| Delete: "dscl_form [kDscl, ''.'', ''-delete'', r]"

definition documented :: "'d directory \<Rightarrow> ('d \<Rightarrow> records) \<Rightarrow> bool" where
  "documented ds recs \<longleftrightarrow>
     (\<forall>argv d. dscl_form argv \<longrightarrow>
        (case d_run ds argv d of (r, d') \<Rightarrow>
           recs d' = effect argv (recs d) \<or> r \<noteq> Exited 0 \<and> recs d' = recs d))"

lemma run_cmd_cases:
  assumes "documented ds recs" and "dscl_form argv" and "run_cmd ds argv s = (r, t)"
  shows "caller t = caller s"
    and "recs (base t) = effect argv (recs (base s)) \<or> r \<noteq> Inr 0 \<and> recs (base t) = recs (base s)"
  using assms unfolding documented_def run_cmd_def
  by (auto split: prod.splits cmd_end.splits dest!: spec [of _ argv] spec [of _ "base s"])

section \<open>Steps\<close>

text \<open>\<open>sets recs m f\<close>: when \<open>m\<close> returns normally, it has done \<open>f\<close> to the records.\<close>

definition sets :: "('d \<Rightarrow> records) \<Rightarrow> ('d, unit) astep \<Rightarrow> (records \<Rightarrow> records) \<Rightarrow> bool" where
  "sets recs m f \<longleftrightarrow>
     (\<forall>s t. m s = (Inr (), t) \<longrightarrow> recs (base t) = f (recs (base s)) \<and> caller t = caller s)"

lemma setsD:
  assumes "sets recs m f" and "m s = (Inr (), t)"
  shows "recs (base t) = f (recs (base s))" "caller t = caller s"
  using assms by (simp_all add: sets_def)

lemma sets_dscl:
  assumes "documented ds recs"
  shows "sets recs (dscl_create_record ds r) (effect [kDscl, ''.'', ''-create'', r])"
    and "sets recs (dscl_delete_record ds r) (effect [kDscl, ''.'', ''-delete'', r])"
    and "sets recs (dscl_set ds r key v) (effect [kDscl, ''.'', ''-create'', r, key, v])"
  unfolding sets_def dscl_create_record_def dscl_delete_record_def dscl_set_def
  by (auto simp: throw_s_def return_s_def split: if_splits
      dest!: bind_s_cases dest: run_cmd_cases [OF assms dscl_form.Create]
        run_cmd_cases [OF assms dscl_form.Attribute] run_cmd_cases [OF assms dscl_form.Delete])

definition with_attribute :: "string \<Rightarrow> string \<times> string \<Rightarrow> records \<Rightarrow> records" where
  "with_attribute r kv R = R(r := Some ((present (R r))(fst kv \<mapsto> snd kv)))"

lemma sets_attribute:
  "documented ds recs \<Longrightarrow> sets recs (dscl_set ds r (fst kv) (snd kv)) (with_attribute r kv)"
  using sets_dscl(3) [of ds recs r "fst kv" "snd kv"] by (simp add: sets_def with_attribute_def)

lemma sets_attributes:
  assumes "documented ds recs"
  shows "sets recs (set_attributes ds r kvs) (fold (with_attribute r) kvs)"
proof (induction kvs)
  case Nil
  then show ?case by (simp add: sets_def set_attributes_def return_s_def)
next
  case (Cons kv kvs)
  show ?case
    unfolding sets_def
  proof (intro allI impI)
    fix s t assume "set_attributes ds r (kv # kvs) s = (Inr (), t)"
    then obtain u where "dscl_set ds r (fst kv) (snd kv) s = (Inr (), u)" and "set_attributes ds r kvs u = (Inr (), t)"
      by (auto simp: set_attributes_def split: prod.splits dest!: bind_s_cases)
    then show "recs (base t) = fold (with_attribute r) (kv # kvs) (recs (base s)) \<and> caller t = caller s"
      using setsD [OF sets_attribute [OF assms]] setsD [OF Cons] by simp
  qed
qed

text \<open>What a record holds after that; nothing else is touched.\<close>

lemma fold_attributes:
  "kvs \<noteq> [] \<Longrightarrow> fold (with_attribute r) kvs R = R(r := Some (present (R r) ++ map_of (rev kvs)))"
proof (induction kvs arbitrary: R)
  case (Cons kv kvs)
  have "present (with_attribute r kv R r) = (present (R r))(fst kv \<mapsto> snd kv)"
    by (simp add: with_attribute_def present_def)
  then show ?case
    using Cons.IH [of "with_attribute r kv R"]
    by (cases "kvs = []") (auto simp: with_attribute_def map_add_def fun_eq_iff split: option.splits)
qed simp

lemma first_unused_Some:
  "first_unused look us = Inr (Some u) \<Longrightarrow> u \<in> set us \<and> look u = Inr None"
  by (induction us) (auto split: sum.splits option.splits)

lemma first_unused_range:
  "first_unused look [a..<b] = Inr (Some u) \<Longrightarrow> a \<le> u \<and> u < b \<and> look u = Inr None"
  using first_unused_Some [of look "[a..<b]" u] by simp

lemma ask_run: "ask f s = (r, t) \<Longrightarrow> t = s \<and> f (base s) = r"
  by (auto simp: ask_def bind_s_def get_s_def lift_s_def)

lemma unused_ids:
  "find_unused_uid ds s = (Inr u, t) \<Longrightarrow> t = s \<and> kScanStart \<le> u \<and> u < kScanEnd \<and> d_getpwuid ds (base s) u = Inr None"
  "find_unused_gid ds s = (Inr u, t) \<Longrightarrow> t = s \<and> kScanStart \<le> u \<and> u < kScanEnd \<and> d_getgrgid ds (base s) u = Inr None"
  unfolding find_unused_uid_def find_unused_gid_def
  by (auto simp: throw_s_def return_s_def split: option.splits dest!: bind_s_cases ask_run
      dest: first_unused_range)

lemma on_error_Inr: "on_error m c s = (Inr a, t) \<Longrightarrow> m s = (Inr a, t)"
  by (auto simp: on_error_def split: prod.splits sum.splits)

section \<open>Creation\<close>

definition with_attributes :: "string \<Rightarrow> (string \<times> string) list \<Rightarrow> records \<Rightarrow> records" where
  "with_attributes r kvs R = R(r := Some (present (R r) ++ map_of (rev kvs)))"

lemma fill_record:
  assumes doc: "documented ds recs" and "kvs \<noteq> []" and c: "dscl_create_record ds r s = (Inr (), s1)"
    and a: "set_attributes ds r kvs s1 = (Inr (), s2)"
  shows "recs (base s2) = with_attributes r kvs (recs (base s)) \<and> caller s2 = caller s"
  using setsD [OF sets_dscl(1) [OF doc] c] setsD [OF sets_attributes [OF doc] a] assms(2)
  by (simp add: fold_attributes with_attributes_def present_def)

lemma create_group_records:
  assumes doc: "documented ds recs" and run: "create_group ds s = (Inr gid, t)"
  shows "kScanStart \<le> gid \<and> gid < kScanEnd \<and> d_getgrgid ds (base s) gid = Inr None \<and>
     recs (base t) = with_attributes group_record (group_attributes gid) (recs (base s)) \<and>
     (\<exists>g. d_getgrnam ds (base t) kJaimSystemUser = Inr (Some g)) \<and> caller t = caller s"
proof -
  from run obtain s0 s1 s2 gr where gid: "find_unused_gid ds s = (Inr gid, s0)"
    and new: "dscl_create_record ds group_record s0 = (Inr (), s1)"
    and set: "set_attributes ds group_record (group_attributes gid) s1 = (Inr (), s2)"
    and look: "ask (\<lambda>d. d_getgrnam ds d kJaimSystemUser) s2 = (Inr (Some gr), t)"
    by (auto simp: create_group_def throw_s_def return_s_def split: if_splits dest!: bind_s_cases on_error_Inr)
  show ?thesis
    using unused_ids(2) [OF gid] fill_record [OF doc _ new set] ask_run [OF look]
    by (auto simp: group_attributes_def)
qed

lemma create_user_records:
  assumes doc: "documented ds recs" and run: "create_user ds gid s = (Inr uid, t)"
  shows "kScanStart \<le> uid \<and> uid < kScanEnd \<and> d_getpwuid ds (base s) uid = Inr None \<and>
     recs (base t) = with_attributes user_record (user_attributes uid gid) (recs (base s)) \<and>
     (\<exists>p. d_getpwnam ds (base t) kJaimSystemUser = Inr (Some p)) \<and> caller t = caller s"
proof -
  from run obtain s0 s1 s2 p where uid: "find_unused_uid ds s = (Inr uid, s0)"
    and new: "dscl_create_record ds user_record s0 = (Inr (), s1)"
    and set: "set_attributes ds user_record (user_attributes uid gid) s1 = (Inr (), s2)"
    and look: "ask (\<lambda>d. d_getpwnam ds d kJaimSystemUser) s2 = (Inr (Some p), t)"
    by (auto simp: create_user_def throw_s_def return_s_def split: if_splits dest!: bind_s_cases on_error_Inr)
  show ?thesis
    using unused_ids(1) [OF uid] fill_record [OF doc _ new set] ask_run [OF look]
    by (auto simp: user_attributes_def)
qed

lemma setup_creates:
  assumes doc: "documented ds recs" and none: "d_getpwnam ds (base s) kJaimSystemUser = Inr None"
    and run: "setup_jaim_user ds s = (Inr (), t)"
  obtains uid gid s1 g where "caller s = 0" "caller t = 0" "create_group ds s = (Inr gid, s1)"
    "kScanStart \<le> gid" "gid < kScanEnd" "d_getgrgid ds (base s) gid = Inr None"
    "kScanStart \<le> uid" "uid < kScanEnd" "d_getpwuid ds (base s1) uid = Inr None"
    "recs (base s1) = with_attributes group_record (group_attributes gid) (recs (base s))"
    "recs (base t) = with_attributes user_record (user_attributes uid gid) (recs (base s1))"
    "d_getgrnam ds (base s1) kJaimSystemUser = Inr (Some g)" "\<exists>p. d_getpwnam ds (base t) kJaimSystemUser = Inr (Some p)"
proof -
  from run have root: "caller s = 0" and create: "create_account ds s = (Inr (), t)"
    using none
    by (auto simp: setup_jaim_user_def require_root_def get_s_def throw_s_def return_s_def
        split: if_splits dest!: bind_s_cases ask_run)
  from create obtain gid s1 uid s2 where g: "create_group ds s = (Inr gid, s1)"
    and u: "create_user ds gid s1 = (Inr uid, s2)" and t: "base t = base s2" "caller t = caller s2"
    by (auto simp: create_account_def println_def update_s_def dest!: bind_s_cases)
  show thesis
    using that [of gid s1 uid] create_group_records [OF doc g] create_user_records [OF doc u] t root g
    by auto
qed

lemma remove_if_run:
  "remove_if ds True r what s = (Inr (), t) \<Longrightarrow> \<exists>u. dscl_delete_record ds r s = (Inr (), u) \<and> base t = base u"
  by (auto simp: remove_if_def println_def update_s_def dest!: bind_s_cases)

section \<open>A sample directory\<close>

text \<open>
  Its state is a list of records with their attributes.  Another account has the first id of the
  range, and so has its group.
\<close>

type_synonym table = "(string \<times> (string \<times> string) list) list"

definition contents :: "table \<Rightarrow> records" where
  "contents T r = map_option map_of (map_of T r)"

definition listed :: "table \<Rightarrow> string \<Rightarrow> (string \<times> string) list" where
  "listed T r = (case map_of T r of None \<Rightarrow> [] | Some a \<Rightarrow> a)"

fun perform_command :: "string list \<Rightarrow> table \<Rightarrow> table" where
  "perform_command [cmd, host, verb, r] T =
     (if verb = ''-create'' then AList.update r (listed T r) T
      else if verb = ''-delete'' then AList.delete r T else T)"
| "perform_command [cmd, host, verb, r, key, v] T =
     (if verb = ''-create'' then AList.update r (AList.update key v (listed T r)) T else T)"
| "perform_command argv T = T"

lemma contents_listed: "map_of (listed T r) = present (contents T r)"
  by (simp add: listed_def present_def contents_def split: option.split)

lemma contents_performed: "contents (perform_command argv T) = effect argv (contents T)"
  by (induction argv T rule: perform_command.induct)
    (simp_all add: fun_eq_iff contents_def update_conv' delete_conv' contents_listed [unfolded contents_def])

text \<open>What is no number of the range reads as 0.\<close>

definition number :: "string \<Rightarrow> nat" where
  "number v = (case find (\<lambda>n. show_nat n = v) [300..<310] of None \<Rightarrow> 0 | Some n \<Rightarrow> n)"

definition attribute_id :: "table \<Rightarrow> string \<Rightarrow> string \<Rightarrow> nat option" where
  "attribute_id T r key = map_option number (map_of (listed T r) key)"

definition sample_account_of :: "table \<Rightarrow> string \<Rightarrow> passwd option" where
  "sample_account_of T n =
     map_option (\<lambda>u. \<lparr>pw_name = n, pw_uid = u, pw_gid = 0, pw_dir = [], pw_shell = []\<rparr>)
       (attribute_id T (''/Users/'' @ n) ''UniqueID'')"

definition sample_group_of :: "table \<Rightarrow> string \<Rightarrow> nat option" where
  "sample_group_of T n = attribute_id T (''/Groups/'' @ n) ''PrimaryGroupID''"

definition sample_names :: "string list" where "sample_names = [''_mail'', ''_jaim'']"

definition sample_directory :: "table directory" where
  "sample_directory =
     \<lparr>d_run = (\<lambda>argv T. (Exited 0, perform_command argv T)),
      d_getpwnam = (\<lambda>T n. Inr (sample_account_of T n)),
      d_getpwuid = (\<lambda>T u. Inr (Option.bind (find (\<lambda>n. map_option pw_uid (sample_account_of T n) = Some u) sample_names)
        (sample_account_of T))),
      d_getgrnam = (\<lambda>T n. Inr (sample_group_of T n)),
      d_getgrgid = (\<lambda>T g. Inr (Option.bind (find (\<lambda>n. sample_group_of T n = Some g) sample_names)
        (sample_group_of T)))\<rparr>"

definition sample_session :: "table session" where
  "sample_session =
     \<lparr>base = [(''/Users/_mail'', [(''UniqueID'', ''300'')]), (''/Groups/_mail'', [(''PrimaryGroupID'', ''300'')])],
      caller = 0, printed = [], noted = []\<rparr>"

lemma sample_documented: "documented sample_directory contents"
  by (simp add: documented_def sample_directory_def contents_performed)

definition with_group :: table where
  "with_group = base sample_session @
     [(''/Groups/_jaim'', [(''PrimaryGroupID'', ''301''), (''RealName'', kGroupRealName), (''Password'', ''*'')])]"

definition with_user :: table where
  "with_user = with_group @
     [(''/Users/_jaim'', [(''UniqueID'', ''301''), (''PrimaryGroupID'', ''301''), (''NFSHomeDirectory'', kHomeDir),
        (''UserShell'', kShell), (''RealName'', kRealName), (''Password'', ''*''), (''IsHidden'', ''1'')])]"

lemma sample_group: "create_group sample_directory sample_session = (Inr 301, sample_session\<lparr>base := with_group\<rparr>)"
  by code_simp

lemma sample_user_steps:
  "find_unused_uid sample_directory (sample_session\<lparr>base := with_group\<rparr>) =
     (Inr 301, sample_session\<lparr>base := with_group\<rparr>)"
  "dscl_create_record sample_directory user_record (sample_session\<lparr>base := with_group\<rparr>) =
     (Inr (), sample_session\<lparr>base := with_group @ [(user_record, [])]\<rparr>)"
  "set_attributes sample_directory user_record (user_attributes 301 301)
     (sample_session\<lparr>base := with_group @ [(user_record, [])]\<rparr>) = (Inr (), sample_session\<lparr>base := with_user\<rparr>)"
  "map_option pw_uid (sample_account_of with_user kJaimSystemUser) = Some 301"
  "map_option pw_uid (sample_account_of with_group kJaimSystemUser) = None"
  "sample_group_of with_group kJaimSystemUser = Some 301"
  "sample_group_of with_user kJaimSystemUser = Some 301"
  "perform_command [kDscl, ''.'', ''-delete'', user_record] with_user = with_group"
  "perform_command [kDscl, ''.'', ''-delete'', group_record] with_group = base sample_session"
  by code_simp+

lemma sample_absent: "d_getpwnam sample_directory (base sample_session) kJaimSystemUser = Inr None"
  by code_simp

lemma sample_user:
  "create_user sample_directory 301 (sample_session\<lparr>base := with_group\<rparr>) =
     (Inr 301, sample_session\<lparr>base := with_user\<rparr>)"
proof -
  obtain p where "sample_account_of with_user kJaimSystemUser = Some p" using sample_user_steps(4) by auto
  then have "ask (\<lambda>d. d_getpwnam sample_directory d kJaimSystemUser) (sample_session\<lparr>base := with_user\<rparr>) =
      (Inr (Some p), sample_session\<lparr>base := with_user\<rparr>)"
    by (simp add: ask_def bind_s_def get_s_def lift_s_def sample_directory_def)
  then show ?thesis
    by (simp add: create_user_def bind_s_def sample_user_steps on_error_def return_s_def)
qed

lemma sample_up:
  "\<exists>t. setup_jaim_user sample_directory sample_session = (Inr (), t) \<and> base t = with_user \<and> caller t = 0"
proof -
  have "ask (\<lambda>d. d_getpwnam sample_directory d kJaimSystemUser) sample_session = (Inr None, sample_session)"
    using sample_absent by (simp add: ask_def bind_s_def get_s_def lift_s_def)
  moreover have "caller sample_session = 0" by (simp add: sample_session_def)
  ultimately show ?thesis
    by (simp add: setup_jaim_user_def require_root_def bind_s_def get_s_def return_s_def create_account_def
        sample_group sample_user println_def update_s_def)
qed

lemma sample_down:
  assumes "base t = with_user" and "caller t = 0"
  shows "\<exists>t'. remove_jaim_user sample_directory t = (Inr (), t')"
proof -
  have run: "run_cmd sample_directory argv s = (Inr 0, s\<lparr>base := perform_command argv (base s)\<rparr>)" for argv s
    by (simp add: run_cmd_def sample_directory_def)
  have "d_getpwnam sample_directory with_user kJaimSystemUser = Inr (sample_account_of with_user kJaimSystemUser)"
    "d_getgrnam sample_directory with_group kJaimSystemUser = Inr (Some 301)"
    using sample_user_steps(6) by (simp_all add: sample_directory_def)
  moreover obtain p where "sample_account_of with_user kJaimSystemUser = Some p"
    using sample_user_steps(4) by auto
  ultimately show ?thesis
    using assms
    by (simp add: remove_jaim_user_def require_root_def bind_s_def get_s_def return_s_def ask_def lift_s_def
        remove_if_def dscl_delete_record_def run println_def update_s_def sample_user_steps del: perform_command.simps)
qed

section \<open>Properties\<close>

text \<open>C17: When there was no account, root asked for it and the set-up returns normally, the records are
  those before with a group and a user that have exactly the attributes given here set, under ids of
  the system range: the group's nobody had at the start, the user's nobody had once the group was
  made; the user's group is the new one.\<close>

theorem setup_account_exact:
  assumes "documented ds recs" and "d_getpwnam ds (base s) ''_jaim'' = Inr None"
    and "setup_jaim_user ds s = (Inr (), t)"
  shows "\<exists>uid gid s1. create_group ds s = (Inr gid, s1) \<and>
     300 \<le> gid \<and> gid < 500 \<and> d_getgrgid ds (base s) gid = Inr None \<and>
     300 \<le> uid \<and> uid < 500 \<and> d_getpwuid ds (base s1) uid = Inr None \<and>
     recs (base t) = (recs (base s))
       (''/Groups/_jaim'' \<mapsto> (present (recs (base s) ''/Groups/_jaim''))
          (''PrimaryGroupID'' \<mapsto> show_nat gid, ''RealName'' \<mapsto> ''jaim Sandbox Group'', ''Password'' \<mapsto> ''*''),
        ''/Users/_jaim'' \<mapsto> (present (recs (base s) ''/Users/_jaim''))
          (''UniqueID'' \<mapsto> show_nat uid, ''PrimaryGroupID'' \<mapsto> show_nat gid,
           ''NFSHomeDirectory'' \<mapsto> ''/var/empty'', ''UserShell'' \<mapsto> ''/usr/bin/false'',
           ''RealName'' \<mapsto> ''jaim Sandbox User'', ''Password'' \<mapsto> ''*'', ''IsHidden'' \<mapsto> ''1''))"
proof (rule setup_creates [OF assms(1) _ assms(3)])
  show "d_getpwnam ds (base s) kJaimSystemUser = Inr None" using assms(2) by (simp add: kJaimSystemUser_def)
next
  fix uid gid s1 g
  assume run: "create_group ds s = (Inr gid, s1)"
    and ids: "kScanStart \<le> gid" "gid < kScanEnd" "d_getgrgid ds (base s) gid = Inr None"
    "kScanStart \<le> uid" "uid < kScanEnd" "d_getpwuid ds (base s1) uid = Inr None"
    and group: "recs (base s1) = with_attributes group_record (group_attributes gid) (recs (base s))"
    and user: "recs (base t) = with_attributes user_record (user_attributes uid gid) (recs (base s1))"
  have "recs (base s1) = (recs (base s))
       (''/Groups/_jaim'' \<mapsto> (present (recs (base s) ''/Groups/_jaim''))
          (''PrimaryGroupID'' \<mapsto> show_nat gid, ''RealName'' \<mapsto> ''jaim Sandbox Group'', ''Password'' \<mapsto> ''*''))"
    unfolding group
    by (simp add: with_attributes_def group_record_def kJaimSystemUser_def group_attributes_def kGroupRealName_def
        fun_upd_twist)
  moreover have "recs (base t) = (recs (base s1))
       (''/Users/_jaim'' \<mapsto> (present (recs (base s1) ''/Users/_jaim''))
          (''UniqueID'' \<mapsto> show_nat uid, ''PrimaryGroupID'' \<mapsto> show_nat gid,
           ''NFSHomeDirectory'' \<mapsto> ''/var/empty'', ''UserShell'' \<mapsto> ''/usr/bin/false'',
           ''RealName'' \<mapsto> ''jaim Sandbox User'', ''Password'' \<mapsto> ''*'', ''IsHidden'' \<mapsto> ''1''))"
    unfolding user
    by (simp add: with_attributes_def user_record_def kJaimSystemUser_def user_attributes_def kRealName_def
        kHomeDir_def kShell_def fun_upd_twist)
  ultimately show ?thesis
    using run ids
    by (intro exI [of _ uid] exI [of _ gid] exI [of _ s1]) (simp add: kScanStart_def kScanEnd_def)
qed

theorem setup_account_exact_witness:
  "\<exists>t uid. setup_jaim_user sample_directory sample_session = (Inr (), t) \<and> 300 \<le> uid \<and> uid < 500 \<and>
     (\<exists>u. contents (base t) ''/Users/_jaim'' = Some u \<and> u ''UniqueID'' = Some (show_nat uid) \<and>
        u ''UserShell'' = Some ''/usr/bin/false'')"
proof -
  obtain t where run: "setup_jaim_user sample_directory sample_session = (Inr (), t)"
    using sample_up by blast
  have "d_getpwnam sample_directory (base sample_session) ''_jaim'' = Inr None"
    using sample_absent by (simp add: kJaimSystemUser_def)
  from setup_account_exact [OF sample_documented this run] run show ?thesis by auto
qed

text \<open>C18: Where neither the user nor the group \<open>_jaim\<close> had a record before, removing the account after it
  was set up gives back the records there were.  A lookup of a group that answers is taken to find
  the one in the local records, wherever else it looks.\<close>

theorem remove_undoes_setup:
  assumes doc: "documented ds recs" and none: "d_getpwnam ds (base s) kJaimSystemUser = Inr None"
    and fresh: "recs (base s) ''/Users/_jaim'' = None" "recs (base s) ''/Groups/_jaim'' = None"
    and local: "\<And>d r. recs d ''/Groups/_jaim'' = Some r \<Longrightarrow> r ''PrimaryGroupID'' \<noteq> None \<Longrightarrow>
      d_getgrnam ds d kJaimSystemUser \<noteq> Inr None"
    and up: "setup_jaim_user ds s = (Inr (), t)" and down: "remove_jaim_user ds t = (Inr (), t')"
  shows "recs (base t') = recs (base s)"
  using doc none up
proof (rule setup_creates)
  fix uid gid s1
  assume group: "recs (base s1) = with_attributes group_record (group_attributes gid) (recs (base s))"
    and user: "recs (base t) = with_attributes user_record (user_attributes uid gid) (recs (base s1))"
    and pw: "\<exists>p. d_getpwnam ds (base t) kJaimSystemUser = Inr (Some p)"
  have ne: "user_record \<noteq> group_record" by (simp add: user_record_def group_record_def)
  from down pw obtain p s2 gr' s3 where u: "remove_if ds True user_record ''user'' t = (Inr (), s2)"
    and look: "d_getgrnam ds (base s2) kJaimSystemUser = Inr gr'"
    and g: "remove_if ds (gr' \<noteq> None) group_record ''group'' s2 = (Inr (), s3)"
    and t': "base t' = base s3"
    by (auto simp: remove_jaim_user_def require_root_def get_s_def throw_s_def return_s_def println_def update_s_def
        simp del: not_None_eq split: if_splits dest!: bind_s_cases ask_run)
  have del: "recs (base s2) = (recs (base t))(user_record := None)"
  proof -
    from remove_if_run [OF u] obtain v where v: "dscl_delete_record ds user_record t = (Inr (), v)"
      and "base s2 = base v" by blast
    then show ?thesis using setsD(1) [OF sets_dscl(2) [OF doc] v] by simp
  qed
  then have "recs (base s2) group_record = recs (base s1) group_record"
    using ne by (simp add: user with_attributes_def)
  then have "gr' \<noteq> None"
    using local [of "base s2"] look
    by (auto simp: group with_attributes_def group_attributes_def group_record_def kJaimSystemUser_def)
  then obtain v where v: "dscl_delete_record ds group_record s2 = (Inr (), v)" and "base s3 = base v"
    using remove_if_run [of ds group_record "''group''" s2 s3] g by auto
  then have "recs (base t') = (recs (base s2))(group_record := None)"
    using setsD(1) [OF sets_dscl(2) [OF doc] v] t' by simp
  then show ?thesis
    using ne fresh
    by (auto simp: del user group with_attributes_def fun_eq_iff user_record_def group_record_def kJaimSystemUser_def)
qed

theorem remove_undoes_setup_witness:
  "\<exists>t t'. setup_jaim_user sample_directory sample_session = (Inr (), t) \<and>
     remove_jaim_user sample_directory t = (Inr (), t') \<and> contents (base t') = contents (base sample_session)"
proof -
  obtain t where up: "setup_jaim_user sample_directory sample_session = (Inr (), t)"
    and t: "base t = with_user" "caller t = 0" using sample_up by blast
  moreover obtain t' where down: "remove_jaim_user sample_directory t = (Inr (), t')"
    using sample_down [OF t] by blast
  moreover have "contents (base t') = contents (base sample_session)"
    by (rule remove_undoes_setup [OF sample_documented sample_absent _ _ _ up down])
      (auto simp: sample_session_def kJaimSystemUser_def sample_directory_def sample_group_of_def
        attribute_id_def contents_def contents_listed present_def)
  ultimately show ?thesis by blast
qed

end
