(* ===== verification/Teardown.thy ===== *)
theory Teardown
  imports Launch
begin

text \<open>
  \<open>Config::teardown\<close> of \<open>src/jaim.cc\<close>, which \<open>jaim -u\<close> runs: the private homes, the overlays and the
  private temporary directories that earlier runs have left.
\<close>

definition say :: "string \<Rightarrow> ('z, unit) lstep" where
  "say m = update_s (\<lambda>k. k\<lparr>out_lines := out_lines k @ [m]\<rparr>)"

text \<open>\<open>openat\<close> with \<open>O_DIRECTORY\<close>: what \<open>fstat\<close> then tells of the directory.\<close>

definition sys_open_dir :: "path \<Rightarrow> ('z, inode) sys" where
  "sys_open_dir p = at_node p True (\<lambda>l i nd k. if i_kind nd = Dir then (Inr nd, k) else (Inl ENOTDIR, k))"

definition removed_line :: "path \<Rightarrow> string" where
  "removed_line p = ''removed '' @ p"

text \<open>A path that is not there is no error of \<open>remove_all\<close>.\<close>

definition remove_tree :: "path \<Rightarrow> ('z, unit) lstep" where
  "remove_tree full =
     bind_s (attempt (sys_remove_all full)) (\<lambda>r.
       case r of
         Inl e \<Rightarrow> if e = ENOENT then return_s () else report (SysError e full)
       | Inr n \<Rightarrow> if n > 0 then say (removed_line full) else return_s ())"

text \<open>The system resolves the paths that the mounts are known by.\<close>

definition resolved_path :: "'z kernel_scheme \<Rightarrow> path \<Rightarrow> path" where
  "resolved_path k p = (case lookup_path k p True of Inl e \<Rightarrow> p | Inr l \<Rightarrow> show_loc l)"

definition drop_mount :: "path \<Rightarrow> ('z, unit) lstep" where
  "drop_mount full =
     bind_s (get_s (\<lambda>k. (resolved_path k full, resolved_path k (parent_path full)))) (\<lambda>(m, par).
     bind_s (attempt (stat_device m)) (\<lambda>a.
       case a of
         Inl _ \<Rightarrow> return_s ()
       | Inr da \<Rightarrow>
           bind_s (attempt (stat_device par)) (\<lambda>b.
             case b of
               Inl _ \<Rightarrow> return_s ()
             | Inr db \<Rightarrow>
                 if da = db then return_s ()
                 else
                   bind_s (attempt (sys_unmount m)) (\<lambda>r.
                     case r of Inl _ \<Rightarrow> ignore (sys_unmount m) | Inr _ \<Rightarrow> return_s ()))))"

definition remove_one :: "path \<Rightarrow> string \<Rightarrow> string \<Rightarrow> ('z, unit) lstep" where
  "remove_one root name suf =
     (let full = path_append root (cat name suf) in
      bind_s (if suf = ''.mount'' then drop_mount full else return_s ()) (\<lambda>_. remove_tree full))"

text \<open>The name of the jail that an entry belongs to, by the first suffix that it ends with.\<close>

fun jail_of :: "string list \<Rightarrow> string \<Rightarrow> string option" where
  "jail_of [] nm = None"
| "jail_of (s # ss) nm =
     (if suffix s nm then Some (take (length nm - length s) nm) else jail_of ss nm)"

fun jail_names :: "string list \<Rightarrow> (string \<times> dtype) list \<Rightarrow> path oset \<Rightarrow> path oset" where
  "jail_names sufs [] names = names"
| "jail_names sufs ((nm, ty) # es) names =
     jail_names sufs es
       (if dot_entry nm \<or> (ty \<noteq> DT_DIR \<and> ty \<noteq> DT_UNKNOWN) then names
        else case jail_of sufs nm of None \<Rightarrow> names | Some n \<Rightarrow> os_insert path_less n names)"

definition sweep_root :: "path \<Rightarrow> string list \<Rightarrow> ('z, unit) lstep" where
  "sweep_root root sufs =
     bind_s (get_s (\<lambda>k. sandbox_name (conf k))) (\<lambda>name.
       if name \<noteq> [] then for_each sufs (remove_one root name)
       else
         bind_s (attempt (sys_readdir root)) (\<lambda>d.
           let names = jail_names sufs (case d of Inl _ \<Rightarrow> [] | Inr es \<Rightarrow> es) [] in
           for_each (os_elems names) (\<lambda>n. for_each sufs (remove_one root n))))"

text \<open>A root of the sweep: one that is not there has nothing to sweep.\<close>

definition sweep_if_present :: "path \<Rightarrow> string list \<Rightarrow> ('z, unit) lstep" where
  "sweep_if_present root sufs =
     bind_s (attempt (sys_open_dir root)) (\<lambda>r.
       case r of
         Inl e \<Rightarrow> if e \<noteq> ENOENT then throw_s (SysError e root) else return_s ()
       | Inr nd \<Rightarrow> bind_s (on_conf (check_user (i_uid nd) root)) (\<lambda>_. sweep_root root sufs))"

definition home_suffixes :: "string list" where "home_suffixes = [''.home'']"
definition overlay_suffixes :: "string list" where "overlay_suffixes = [''.mount'', ''.changes'']"

text \<open>The loop over the temporary directory: the directories of the user that are named like ours.\<close>

primrec tmp_victims :: "path \<Rightarrow> (string \<times> dtype) list \<Rightarrow> ('z, path list) lstep" where
  "tmp_victims tmp [] = return_s []"
| "tmp_victims tmp (de # es) =
     (let (nm, ty) = de; full = path_append tmp nm in
      if \<not> prefix ''jaim.'' nm \<or> (ty \<noteq> DT_DIR \<and> ty \<noteq> DT_UNKNOWN) then tmp_victims tmp es
      else
        bind_s (attempt (sys_lstat full)) (\<lambda>r.
        bind_s (get_s (\<lambda>k. user_uid (conf k))) (\<lambda>u.
          case r of
            Inl _ \<Rightarrow> tmp_victims tmp es
          | Inr sb \<Rightarrow>
              if i_kind sb \<noteq> Dir \<or> i_uid sb \<noteq> u then tmp_victims tmp es
              else bind_s (tmp_victims tmp es) (\<lambda>vs. return_s (full # vs)))))"

definition sweep_tmp :: "path \<Rightarrow> ('z, unit) lstep" where
  "sweep_tmp tmp =
     bind_s (attempt (sys_readdir tmp)) (\<lambda>d.
       case d of
         Inl _ \<Rightarrow> return_s ()
       | Inr es \<Rightarrow> bind_s (tmp_victims tmp es) (\<lambda>vs. for_each vs remove_tree))"

definition state_root :: "surroundings \<Rightarrow> error + path" where
  "state_root env = (let (n, answer, errno) = o_confstr env in overlay_state_dir n answer errno)"

definition sweep_overlays :: "surroundings \<Rightarrow> ('z, unit) lstep" where
  "sweep_overlays env =
     bind_s (lift_s (state_root env)) (\<lambda>root. sweep_if_present root overlay_suffixes)"

definition sweep_strays :: "surroundings \<Rightarrow> ('z, unit) lstep" where
  "sweep_strays env = (case o_temp_dir env of Inl _ \<Rightarrow> return_s () | Inr tmp \<Rightarrow> sweep_tmp tmp)"

definition teardown :: "surroundings \<Rightarrow> world \<Rightarrow> ('z, unit) lstep" where
  "teardown env w =
     bind_s (on_conf (home w)) (\<lambda>_.
     bind_s (get_s (\<lambda>k. homejaimpath (conf k))) (\<lambda>hj.
     bind_s (sweep_if_present hj home_suffixes) (\<lambda>_.
     bind_s (sweep_overlays env) (\<lambda>_. sweep_strays env))))"

end
