(* ===== verification/Teardown_Theorems.thy ===== *)
theory Teardown_Theorems
  imports Teardown Supervision_Theorems
begin

text \<open>
  What \<open>jaim -u\<close> may remove.  The sweep resolves its paths again and again while it removes entries,
  so the facts below compare the store with the one at its start.
\<close>

section \<open>Resolution in a store with fewer entries\<close>

lemma walk_fewer:
  "\<forall>l x. K' l = Some x \<longrightarrow> K l = Some x \<Longrightarrow> walk n K' d ns f = Inr l \<Longrightarrow> K' l \<noteq> None \<Longrightarrow> walk n K d ns f = Inr l"
proof (induction n K' d ns f rule: walk.induct)
  case (2 n K' d c cs f)
  note less = "2.prems"(1) and run = "2.prems"(2) and there = "2.prems"(3)
  from run have d': "K' d = Some Dir" by (simp add: walk.simps(2) split: if_splits)
  with less have d: "K d = Some Dir" by blast
  consider "c = ''.''" | "c \<noteq> ''.''" "c = ''..''" | "c \<noteq> ''.''" "c \<noteq> ''..''" by blast
  then show ?case
  proof cases
    case 1
    then show ?thesis using "2.IH"(1) [OF _ 1 less _ there] run d d' by (simp add: walk.simps(2))
  next
    case 2
    then show ?thesis using "2.IH"(2) [OF _ 2 less _ there] run d d' by (simp add: walk.simps(2))
  next
    case 3
    show ?thesis
    proof (cases "K' (d @ [c])")
      case None
      then have "l = d @ [c]" using run 3 d' by (simp add: walk.simps(2) split: if_splits)
      then show ?thesis using None there by simp
    next
      case (Some k)
      with less have k: "K (d @ [c]) = Some k" by blast
      show ?thesis
      proof (cases "\<exists>t. k = Lnk t")
        case True
        then obtain t where t: "k = Lnk t" by blast
        show ?thesis
          using "2.IH"(5) [OF _ 3 Some t _ _ less _ there] run d d' 3 Some k t
          by (auto simp: walk.simps(2) split: if_splits)
      next
        case False
        then show ?thesis
          using "2.IH"(3,4,6,7) less there run d d' 3 Some k by (cases k) (simp_all add: walk.simps(2))
      qed
    qed
  qed
qed simp

text \<open>\<open>pruned S k0 k\<close>: the store of \<open>k\<close> is that of \<open>k0\<close> without entries at the locations in \<open>S\<close>.\<close>

definition pruned :: "loc set \<Rightarrow> 'z kernel_scheme \<Rightarrow> 'z kernel_scheme \<Rightarrow> bool" where
  "pruned S k0 k \<longleftrightarrow>
     inodes k = inodes k0 \<and> (\<exists>R \<subseteq> S. dir_table k = filter (\<lambda>(l, i). l \<notin> R) (dir_table k0))"

lemma pruned_refl: "pruned S k k"
  unfolding pruned_def by (intro conjI exI [of _ "{}"]) (auto simp: filter_id_conv)

lemma map_of_filter_keys: "map_of (filter (\<lambda>(l, i). l \<notin> R) xs) l = (if l \<in> R then None else map_of xs l)"
  by (induction xs) auto

lemma pruned_entry: "pruned S k0 k \<Longrightarrow> entry k l = Some i \<Longrightarrow> entry k0 l = Some i"
  by (auto simp: pruned_def entry_def map_of_filter_keys split: if_splits)

lemma pruned_kind: "pruned S k0 k \<Longrightarrow> kind_at k l = Some x \<Longrightarrow> kind_at k0 l = Some x"
  using pruned_entry [of S k0 k l]
  unfolding kind_at_def node_def by (cases "entry k l") (auto simp: pruned_def)

lemma pruned_lookup:
  "pruned S k0 k \<Longrightarrow> lookup_path k p f = Inr l \<Longrightarrow> kind_at k l \<noteq> None \<Longrightarrow> lookup_path k0 p f = Inr l"
  unfolding lookup_path_def
  using walk_fewer [of "kind_at k" "kind_at k0"] pruned_kind by blast

lemma pruned_keeps: "pruned S k0 k \<Longrightarrow> l \<notin> S \<Longrightarrow> entry k l = entry k0 l"
  by (auto simp: pruned_def entry_def map_of_filter_keys)

lemma pruned_step:
  assumes "pruned S k0 k" and "\<And>m. prefix l m \<Longrightarrow> m \<in> S"
  shows "pruned S k0 (k\<lparr>dir_table := filter (\<lambda>(l', i). \<not> prefix l l') (dir_table k)\<rparr>)"
proof -
  from assms(1) obtain R where R: "R \<subseteq> S" "dir_table k = filter (\<lambda>(l, i). l \<notin> R) (dir_table k0)"
    by (auto simp: pruned_def)
  then have "filter (\<lambda>(l', i). \<not> prefix l l') (dir_table k) =
      filter (\<lambda>(l', i). l' \<notin> R \<union> {m. prefix l m}) (dir_table k0)"
    by (auto intro!: filter_cong)
  then show ?thesis
    using assms R unfolding pruned_def
    by (intro conjI exI [of _ "R \<union> {m. prefix l m}"]) auto
qed

section \<open>The sweep\<close>

text \<open>What the sweep keeps: the store but for what may go, and what it reads of the configuration.\<close>

definition swept_from :: "loc set \<Rightarrow> 'z launcher_scheme \<Rightarrow> 'z launcher_scheme \<Rightarrow> bool" where
  "swept_from S k0 k \<longleftrightarrow>
     pruned S k0 k \<and> sandbox_name (conf k) = sandbox_name (conf k0) \<and>
     homejaimpath (conf k) = homejaimpath (conf k0) \<and> user_uid (conf k) = user_uid (conf k0)"

lemma swept_from_updates [simp]:
  "swept_from S k0 (k\<lparr>plans := q\<rparr>) = swept_from S k0 k" "swept_from S k0 (k\<lparr>mounts := ms\<rparr>) = swept_from S k0 k"
  "swept_from S k0 (k\<lparr>helper := h\<rparr>) = swept_from S k0 k" "swept_from S k0 (k\<lparr>warned := ws\<rparr>) = swept_from S k0 k"
  "swept_from S k0 (k\<lparr>out_lines := ls\<rparr>) = swept_from S k0 k"
  by (simp_all add: swept_from_def pruned_def)

lemma swept_from_removal:
  "swept_from S k0 k \<Longrightarrow> (\<And>m. prefix l m \<Longrightarrow> m \<in> S) \<Longrightarrow>
   swept_from S k0 (k\<lparr>dir_table := filter (\<lambda>(l', i). \<not> prefix l l') (dir_table k)\<rparr>)"
  using pruned_step [of S k0 k l] by (simp add: swept_from_def)

lemma keeps_mount_calls:
  "keeps (swept_from S k0) (stat_device p)" "keeps (swept_from S k0) (sys_unmount p)"
  unfolding stat_device_def sys_unmount_def
  by (rule keeps_planned_call; simp add: keeps_def end_helper_def)+

lemma keeps_drop_mount: "keeps (swept_from S k0) (drop_mount p)"
  unfolding drop_mount_def
  by (rule keeps_bind [OF keeps_get], simp only: split_beta)
    (auto intro!: keeps_bind keeps_attempt keeps_ignore_s keeps_mount_calls split: sum.split)

text \<open>A name below a root that resolves, at the start, to a place where it may go.\<close>

definition may_go :: "loc set \<Rightarrow> 'z kernel_scheme \<Rightarrow> path \<Rightarrow> string \<Rightarrow> bool" where
  "may_go S k0 root c \<longleftrightarrow>
     file_name c \<and> (\<forall>l m. lookup_path k0 root True = Inr l \<longrightarrow> prefix (l @ [c]) m \<longrightarrow> m \<in> S)"

lemma keeps_remove_tree:
  assumes "may_go S k0 root c"
  shows "keeps (swept_from S k0) (remove_tree (path_append root c))"
proof -
  have c: "file_name c" using assms by (simp add: may_go_def)
  have below: "swept_from S k0 (k\<lparr>dir_table := filter (\<lambda>(l', i). \<not> prefix l l') (dir_table k)\<rparr>)"
    if s: "swept_from S k0 k" and p: "lookup_path k (path_append root c) False = Inr l" for k l
  proof (rule swept_from_removal [OF s])
    fix m assume "prefix l m"
    moreover obtain r where "lookup_path k root True = Inr r" "is_dir_at k r" "l = r @ [c]"
      using p lookup_child [OF c] by blast
    moreover from this have "lookup_path k0 root True = Inr r"
      using s pruned_lookup [of S k0 k root True r] by (simp add: swept_from_def is_dir_at_def)
    ultimately show "m \<in> S" using assms unfolding may_go_def by blast
  qed
  have "keeps (swept_from S k0) (sys_remove_all (path_append root c))"
    unfolding sys_remove_all_def at_path_def
    by (rule keeps_planned_call) (auto simp: keeps_def below split: sum.split)
  then show ?thesis
    unfolding remove_tree_def say_def
    by (auto intro!: keeps_bind keeps_attempt keeps_warn keeps_update split: sum.split)
qed

lemma keeps_remove_one:
  "may_go S k0 root (name @ suf) \<Longrightarrow> keeps (swept_from S k0) (remove_one root name suf)"
  unfolding remove_one_def Let_def cat_def
  by (intro keeps_bind keeps_if keeps_drop_mount keeps_return keeps_remove_tree)

text \<open>Reading a directory: the names of a store with fewer entries are names of the first.\<close>

definition named_well :: "(string \<times> dtype) list \<Rightarrow> bool" where
  "named_well es \<longleftrightarrow> (\<forall>(nm, ty) \<in> set es. dot_entry nm \<or> file_name nm)"

lemma pruned_children: "pruned S k0 k \<Longrightarrow> set (children k d) \<subseteq> set (children k0 d)"
  by (auto simp: children_iff pruned_def)

lemma triple_readdir_swept:
  assumes wf: "wf_kernel k0"
  shows "triple (swept_from S k0) (sys_readdir p) (\<lambda>es k. swept_from S k0 k \<and> named_well es) (swept_from S k0)"
proof (rule tripleI)
  fix k es t assume I: "swept_from S k0 k" and run: "sys_readdir p k = (Inr es, t)"
  from run show "swept_from S k0 t \<and> named_well es"
    unfolding sys_readdir_def
  proof (cases rule: at_node_cases)
    case (reached l i nd q)
    let ?es = "(''.'', DT_DIR) # (''..'', DT_DIR) # map (\<lambda>n. (n, entry_type (k\<lparr>plans := q\<rparr>) (l @ [n]))) (children k l)"
    have "children (k\<lparr>plans := q\<rparr>) l = children k l" by (simp add: children_def)
    then have t: "t = k\<lparr>plans := q\<rparr>" and es: "set es \<subseteq> set ?es"
      using reached(4) by (auto simp: Let_def simp del: set_simps dest: in_set_takeD split: if_splits)
    have "file_name n" if "n \<in> set (children k l)" for n
      using that I pruned_children [of S k0 k l] children_entry [OF wf, of n l] entry_names [OF wf, of "l @ [n]"]
      by (auto simp: swept_from_def)
    then show ?thesis
      using t I es by (auto simp: named_well_def dot_entry_def dest!: subsetD)
  qed simp
next
  fix k e t assume I: "swept_from S k0 k" and run: "sys_readdir p k = (Inl e, t)"
  from run show "swept_from S k0 t"
    unfolding sys_readdir_def
    by (cases rule: at_node_cases) (use I in \<open>auto simp: Let_def split: if_splits\<close>)
qed

lemma jail_of_Some: "jail_of sufs nm = Some n \<Longrightarrow> \<exists>s \<in> set sufs. nm = n @ s"
  by (induction sufs) (auto simp: suffix_def split: if_splits)

lemma jail_names_from:
  "n \<in> set (os_elems (jail_names sufs es acc)) \<Longrightarrow>
   n \<in> set (os_elems acc) \<or> (\<exists>nm ty s. (nm, ty) \<in> set es \<and> \<not> dot_entry nm \<and> nm = n @ s)"
proof (induction sufs es acc rule: jail_names.induct)
  case (2 sufs nm ty es acc)
  let ?acc = "if dot_entry nm \<or> (ty \<noteq> DT_DIR \<and> ty \<noteq> DT_UNKNOWN) then acc
    else case jail_of sufs nm of None \<Rightarrow> acc | Some n \<Rightarrow> os_insert path_less n acc"
  have "n \<in> set (os_elems acc) \<or> (\<not> dot_entry nm \<and> (\<exists>s. nm = n @ s))" if "n \<in> set (os_elems ?acc)"
  proof (cases "jail_of sufs nm")
    case None
    then show ?thesis using that by (simp split: if_splits)
  next
    case (Some m)
    then show ?thesis
      using that jail_of_Some [OF Some] om_emplace_keys [of path_less m "()" acc]
      by (auto split: if_splits simp del: set_map)
  qed
  moreover have "n \<in> set (os_elems ?acc) \<or> (\<exists>nm ty s. (nm, ty) \<in> set es \<and> \<not> dot_entry nm \<and> nm = n @ s)"
    using 2 by simp
  ultimately show ?case by (simp only: list.set(2)) blast
qed simp

lemma keeps_sweep_root:
  assumes wf: "wf_kernel k0" and name: "SLASH \<notin> set (sandbox_name (conf k0))"
    and go: "\<And>n suf. suf \<in> set sufs \<Longrightarrow> SLASH \<notin> set n \<Longrightarrow> sandbox_name (conf k0) \<in> {[], n} \<Longrightarrow>
      may_go S k0 root (n @ suf)"
  shows "keeps (swept_from S k0) (sweep_root root sufs)"
proof (rule keepsI)
  fix k assume I: "swept_from S k0 k"
  then have s: "sandbox_name (conf k) = sandbox_name (conf k0)" by (simp add: swept_from_def)
  have all: "keeps (swept_from S k0) (for_each sufs (remove_one root n))"
    if "SLASH \<notin> set n" "sandbox_name (conf k0) \<in> {[], n}" for n
    by (intro keeps_for_each keeps_remove_one go that)
  show "swept_from S k0 (snd (sweep_root root sufs k))"
  proof (cases "sandbox_name (conf k0) = []")
    case False
    then show ?thesis using keepsD [OF all [OF name] I] s by (simp add: sweep_root_def)
  next
    case True
    let ?each = "\<lambda>d. let names = jail_names sufs (case d of Inl _ \<Rightarrow> [] | Inr es \<Rightarrow> es) [] in
      for_each (os_elems names) (\<lambda>n. for_each sufs (remove_one root n))"
    have each: "keeps (swept_from S k0) (?each (Inr es))" if es: "named_well es" for es
    proof -
      have "SLASH \<notin> set n" if "n \<in> set (os_elems (jail_names sufs es []))" for n
        using jail_names_from [OF that] es by (auto simp: named_well_def file_name_def)
      then show ?thesis using True by (auto simp: Let_def intro!: keeps_for_each [OF all])
    qed
    have "triple (swept_from S k0) (bind_s (attempt (sys_readdir root)) ?each) (\<lambda>_. swept_from S k0) (swept_from S k0)"
    proof (rule triple_bind_attempt [OF triple_readdir_swept [OF wf]])
      show "triple (\<lambda>k. swept_from S k0 k \<and> named_well es) (?each (Inr es)) (\<lambda>_. swept_from S k0) (swept_from S k0)" for es
        by (rule triple_assume, drule each) (simp only: keeps_iff_triple)
      show "triple (swept_from S k0) (?each (Inl e)) (\<lambda>_. swept_from S k0) (swept_from S k0)" for e
        using each [of "[]"] by (simp add: named_well_def keeps_iff_triple)
    qed
    then have "keeps (swept_from S k0) (bind_s (attempt (sys_readdir root)) ?each)" by (simp only: keeps_iff_triple)
    from keepsD [OF this I] show ?thesis using True s by (simp add: sweep_root_def)
  qed
qed

section \<open>The temporary directory\<close>

definition users_dir :: "nat \<Rightarrow> 'z kernel_scheme \<Rightarrow> loc \<Rightarrow> bool" where
  "users_dir u k l \<longleftrightarrow> (\<exists>i nd. entry k l = Some i \<and> inodes k i = Some nd \<and> i_kind nd = Dir \<and> i_uid nd = u)"

definition victim :: "'z launcher_scheme \<Rightarrow> path \<Rightarrow> path \<Rightarrow> bool" where
  "victim k0 tmp v \<longleftrightarrow>
     (\<exists>c. v = path_append tmp c \<and> file_name c \<and> prefix ''jaim.'' c \<and>
        (\<forall>l. lookup_path k0 tmp True = Inr l \<longrightarrow> users_dir (user_uid (conf k0)) k0 (l @ [c])))"

lemma victim_found:
  assumes "swept_from S k0 k" and c: "file_name c" "prefix ''jaim.'' c" and run: "sys_lstat (path_append tmp c) k = (Inr sb, t)"
    and "i_kind sb = Dir" "i_uid sb = user_uid (conf k0)"
  shows "victim k0 tmp (path_append tmp c)"
  using run unfolding sys_lstat_def
proof (cases rule: at_node_cases)
  case (reached l i nd q)
  then have sb: "nd = sb" by simp
  obtain r where r: "lookup_path k tmp True = Inr r" "is_dir_at k r" "l = r @ [c]"
    using reached(1) lookup_child [OF c(1)] by blast
  have "lookup_path k0 tmp True = Inr r"
    using r assms(1) pruned_lookup [of S k0 k tmp True r] by (simp add: swept_from_def is_dir_at_def)
  moreover have "entry k0 l = Some i" "inodes k0 i = Some sb"
    using reached(2,3) sb assms(1) pruned_entry [of S k0 k l i] by (auto simp: swept_from_def pruned_def)
  ultimately show ?thesis using assms r by (auto simp: victim_def users_dir_def)
qed simp

lemma keeps_lstat_swept: "keeps (swept_from S k0) (sys_lstat p)"
  unfolding sys_lstat_def keeps_iff_triple by (rule triple_at_node) simp_all

lemma tmp_victims_found:
  "named_well es \<Longrightarrow>
   triple (swept_from S k0) (tmp_victims tmp es)
     (\<lambda>vs k. swept_from S k0 k \<and> (\<forall>v \<in> set vs. victim k0 tmp v)) (swept_from S k0)"
proof (induction es)
  case (Cons de es)
  obtain nm ty where de: "de = (nm, ty)" by (cases de)
  have rest: "triple (swept_from S k0) (tmp_victims tmp es)
     (\<lambda>vs k. swept_from S k0 k \<and> (\<forall>v \<in> set vs. victim k0 tmp v)) (swept_from S k0)"
    using Cons by (simp add: named_well_def)
  show ?case
  proof (rule tripleI)
    fix k vs t assume I: "swept_from S k0 k" and run: "tmp_victims tmp (de # es) k = (Inr vs, t)"
    show "swept_from S k0 t \<and> (\<forall>v \<in> set vs. victim k0 tmp v)"
    proof (cases "\<not> prefix ''jaim.'' nm \<or> (ty \<noteq> DT_DIR \<and> ty \<noteq> DT_UNKNOWN)")
      case True
      then show ?thesis using triple_Inr [OF rest I] run by (simp add: de)
    next
      case False
      then have nm: "file_name nm" "prefix ''jaim.'' nm"
        using Cons.prems by (auto simp: de named_well_def dot_entry_def)
      obtain r k1 where look: "sys_lstat (path_append tmp nm) k = (r, k1)" by (cases "sys_lstat (path_append tmp nm) k")
      have I1: "swept_from S k0 k1" using keepsD [OF keeps_lstat_swept I, of "path_append tmp nm"] look by simp
      then have u: "user_uid (conf k1) = user_uid (conf k0)" by (simp add: swept_from_def)
      show ?thesis
      proof (cases "\<exists>sb. r = Inr sb \<and> i_kind sb = Dir \<and> i_uid sb = user_uid (conf k0)")
        case True
        then obtain sb where sb: "r = Inr sb" "i_kind sb = Dir" "i_uid sb = user_uid (conf k0)" by blast
        obtain ws where "tmp_victims tmp es k1 = (Inr ws, t)" "vs = path_append tmp nm # ws"
          using run False sb u look by (auto simp: de Let_def bind_s_def attempt_def return_s_def split: prod.splits sum.splits)
        then show ?thesis
          using triple_Inr [OF rest I1] victim_found [OF I nm _ sb(2,3)] look sb(1) by auto
      next
        case no: False
        then have "tmp_victims tmp es k1 = (Inr vs, t)"
          using run False u look by (cases r) (auto simp: de Let_def bind_s_def attempt_def split: if_splits)
        then show ?thesis using triple_Inr [OF rest I1] by simp
      qed
    qed
  next
    fix k e t assume I: "swept_from S k0 k" and run: "tmp_victims tmp (de # es) k = (Inl e, t)"
    show "swept_from S k0 t"
    proof (cases "\<not> prefix ''jaim.'' nm \<or> (ty \<noteq> DT_DIR \<and> ty \<noteq> DT_UNKNOWN)")
      case True
      then show ?thesis using triple_Inl [OF rest I] run by (simp add: de)
    next
      case False
      obtain r k1 where look: "sys_lstat (path_append tmp nm) k = (r, k1)" by (cases "sys_lstat (path_append tmp nm) k")
      have I1: "swept_from S k0 k1" using keepsD [OF keeps_lstat_swept I, of "path_append tmp nm"] look by simp
      have "tmp_victims tmp es k1 = (Inl e, t)"
        using run False look
        by (cases r) (auto simp: de Let_def bind_s_def attempt_def return_s_def split: if_splits prod.splits sum.splits)
      then show ?thesis using triple_Inl [OF rest I1] by simp
    qed
  qed
qed (simp add: triple_return)

lemma keeps_sweep_tmp:
  assumes wf: "wf_kernel k0"
    and go: "\<And>c. file_name c \<Longrightarrow> prefix ''jaim.'' c \<Longrightarrow>
      (\<And>l. lookup_path k0 tmp True = Inr l \<Longrightarrow> users_dir (user_uid (conf k0)) k0 (l @ [c])) \<Longrightarrow> may_go S k0 tmp c"
  shows "keeps (swept_from S k0) (sweep_tmp tmp)"
proof -
  have all: "keeps (swept_from S k0) (for_each vs remove_tree)" if "\<forall>v \<in> set vs. victim k0 tmp v" for vs
    using that by (intro keeps_for_each) (auto simp: victim_def intro!: keeps_remove_tree go)
  have found: "triple (swept_from S k0) (bind_s (tmp_victims tmp es) (\<lambda>vs. for_each vs remove_tree))
      (\<lambda>_. swept_from S k0) (swept_from S k0)" if "named_well es" for es
    by (rule triple_bind [OF tmp_victims_found [OF that]], rule triple_assume, drule all) (simp only: keeps_iff_triple)
  have "triple (swept_from S k0) (sweep_tmp tmp) (\<lambda>_. swept_from S k0) (swept_from S k0)"
    unfolding sweep_tmp_def
  proof (rule triple_bind_attempt [OF triple_readdir_swept [OF wf]])
    show "triple (\<lambda>k. swept_from S k0 k \<and> named_well es)
        (case Inr es of Inl e \<Rightarrow> return_s () | Inr es \<Rightarrow> bind_s (tmp_victims tmp es) (\<lambda>vs. for_each vs remove_tree))
        (\<lambda>_. swept_from S k0) (swept_from S k0)" for es
      by (rule triple_assume) (simp add: found)
  qed (simp add: triple_return)
  then show ?thesis by (simp only: keeps_iff_triple)
qed

section \<open>What may go\<close>

text \<open>
  Below the configuration directory the homes, in the directory of the overlays their mount points and
  changes, of the jail that was named or of all, and in the temporary directory what is named like a
  private directory and is a directory of the user.
\<close>

definition jail_entries :: "config \<Rightarrow> string list \<Rightarrow> string set" where
  "jail_entries s sufs = {n @ suf | n suf. suf \<in> set sufs \<and> SLASH \<notin> set n \<and> sandbox_name s \<in> {[], n}}"

definition below :: "'z kernel_scheme \<Rightarrow> path \<Rightarrow> string set \<Rightarrow> loc set" where
  "below k root names = {m. \<exists>l c. lookup_path k root True = Inr l \<and> c \<in> names \<and> prefix (l @ [c]) m}"

definition sweepable :: "surroundings \<Rightarrow> 'z launcher_scheme \<Rightarrow> loc set" where
  "sweepable env k =
     below k (homejaimpath (conf k)) (jail_entries (conf k) home_suffixes) \<union>
     (case state_root env of Inl _ \<Rightarrow> {} | Inr root \<Rightarrow> below k root (jail_entries (conf k) overlay_suffixes)) \<union>
     (case o_temp_dir env of
        Inl _ \<Rightarrow> {}
      | Inr tmp \<Rightarrow>
          {m. \<exists>l c. lookup_path k tmp True = Inr l \<and> prefix ''jaim.'' c \<and>
             users_dir (user_uid (conf k)) k (l @ [c]) \<and> prefix (l @ [c]) m})"

lemma jail_entry_name: "suf \<in> set home_suffixes \<union> set overlay_suffixes \<Longrightarrow> SLASH \<notin> set n \<Longrightarrow> file_name (n @ suf)"
  by (auto simp: home_suffixes_def overlay_suffixes_def file_name_def append_eq_Cons_conv)

lemma may_go_below:
  "suf \<in> set home_suffixes \<union> set overlay_suffixes \<Longrightarrow> suf \<in> set sufs \<Longrightarrow> SLASH \<notin> set n \<Longrightarrow>
   sandbox_name (conf k) \<in> {[], n} \<Longrightarrow> below k root (jail_entries (conf k) sufs) \<subseteq> S \<Longrightarrow> may_go S k root (n @ suf)"
  unfolding may_go_def below_def jail_entries_def using jail_entry_name by blast

lemma keeps_sweep_if_present:
  assumes "keeps (swept_from S k0) (sweep_root root sufs)"
  shows "keeps (swept_from S k0) (sweep_if_present root sufs)"
proof -
  have "keeps (swept_from S k0) (sys_open_dir root)"
    unfolding sys_open_dir_def keeps_iff_triple by (rule triple_at_node) simp_all
  moreover have "keeps (swept_from S k0) (on_conf (check_user u root))" for u
    by (auto simp: keeps_def on_conf_def check_user_def split: if_splits)
  ultimately show ?thesis
    unfolding sweep_if_present_def
    by (auto intro!: keeps_bind keeps_attempt assms split: sum.split)
qed

lemma keeps_home: "keeps (swept_from S k0) (on_conf (home w))"
  unfolding keeps_def
  by (auto simp: on_conf_def home_def check_user_def bind_s_def update_s_def swept_from_def pruned_def
      split: prod.splits sum.splits if_splits)

lemma bind_lift_Inr: "bind_s (lift_s (Inr a)) f = f a"
  by (simp add: bind_s_def lift_s_def fun_eq_iff)

lemma keeps_sweep_overlays:
  assumes "\<And>root. state_root env = Inr root \<Longrightarrow> keeps I (sweep_if_present root overlay_suffixes)"
  shows "keeps I (sweep_overlays env)"
proof (cases "state_root env")
  case (Inl e)
  then show ?thesis by (simp add: sweep_overlays_def keeps_def bind_s_def lift_s_def)
next
  case (Inr root)
  then show ?thesis using assms by (simp add: sweep_overlays_def bind_lift_Inr)
qed

lemma teardown_run:
  assumes "on_conf (home w) k0 = (r, k1)" and "homejaimpath (conf k1) = homejaimpath (conf k0)"
  shows "snd (teardown env w k0) =
     (case r of
        Inl e \<Rightarrow> k1
      | Inr _ \<Rightarrow> snd (bind_s (sweep_if_present (homejaimpath (conf k0)) home_suffixes)
          (\<lambda>_. bind_s (sweep_overlays env) (\<lambda>_. sweep_strays env)) k1))"
  using assms unfolding teardown_def by (cases r) (simp_all add: bind_s_Inr bind_s_Inl)

lemma teardown_keeps:
  assumes wf: "wf_kernel k0" and name: "SLASH \<notin> set (sandbox_name (conf k0))"
  shows "swept_from (sweepable env k0) k0 (snd (teardown env w k0))"
proof -
  let ?I = "swept_from (sweepable env k0) k0"
  have home: "keeps ?I (sweep_if_present (homejaimpath (conf k0)) home_suffixes)"
    by (rule keeps_sweep_if_present, rule keeps_sweep_root [OF wf name])
      (auto intro!: may_go_below simp: sweepable_def)
  have over: "keeps ?I (sweep_overlays env)"
    by (rule keeps_sweep_overlays, rule keeps_sweep_if_present, rule keeps_sweep_root [OF wf name])
      (auto intro!: may_go_below simp: sweepable_def)
  have tmp: "keeps ?I (sweep_tmp tmp)" if "o_temp_dir env = Inr tmp" for tmp
    by (rule keeps_sweep_tmp [OF wf]) (auto simp: may_go_def sweepable_def that)
  obtain r1 k1 where one: "on_conf (home w) k0 = (r1, k1)" by (cases "on_conf (home w) k0")
  have I1: "?I k1"
    using keepsD [OF keeps_home [of "sweepable env k0" k0 w], of k0] one by (simp add: swept_from_def pruned_refl)
  then have hj: "homejaimpath (conf k1) = homejaimpath (conf k0)" by (simp add: swept_from_def)
  have "keeps ?I (sweep_strays env)" by (auto simp: sweep_strays_def tmp split: sum.split)
  with home over have "keeps ?I (bind_s (sweep_if_present (homejaimpath (conf k0)) home_suffixes)
      (\<lambda>_. bind_s (sweep_overlays env) (\<lambda>_. sweep_strays env)))"
    by (intro keeps_bind)
  from keepsD [OF this I1] show ?thesis
    using I1 by (simp add: teardown_run [OF one hj] split: sum.split)
qed

section \<open>What is gone stays gone\<close>

definition gone :: "loc \<Rightarrow> 'z launcher_scheme \<Rightarrow> bool" where
  "gone m k \<longleftrightarrow> entry k m = None"

lemma gone_updates [simp]:
  "gone m (k\<lparr>plans := q\<rparr>) = gone m k" "gone m (k\<lparr>mounts := ms\<rparr>) = gone m k"
  "gone m (k\<lparr>helper := h\<rparr>) = gone m k" "gone m (k\<lparr>warned := ws\<rparr>) = gone m k"
  "gone m (k\<lparr>out_lines := ls\<rparr>) = gone m k" "gone m (k\<lparr>conf := c\<rparr>) = gone m k"
  by (simp_all add: gone_def entry_def)

lemma gone_removal: "gone m k \<Longrightarrow> gone m (k\<lparr>dir_table := filter (\<lambda>(l', i). \<not> prefix l l') (dir_table k)\<rparr>)"
  by (auto simp: gone_def entry_def map_of_eq_None_iff)

lemma removal_gone: "prefix l m \<Longrightarrow> gone m (k\<lparr>dir_table := filter (\<lambda>(l', i). \<not> prefix l l') (dir_table k)\<rparr>)"
  by (auto simp: gone_def entry_def map_of_eq_None_iff)

lemma gone_remove_tree: "keeps (gone m) (remove_tree p)"
proof -
  have "keeps (gone m) (sys_remove_all p)"
    unfolding sys_remove_all_def at_path_def
    by (rule keeps_planned_call) (auto simp: keeps_def gone_removal split: sum.split)
  then show ?thesis
    unfolding remove_tree_def say_def
    by (auto intro!: keeps_bind keeps_attempt keeps_warn keeps_update split: sum.split)
qed

lemma gone_drop_mount: "keeps (gone m) (drop_mount p)"
proof -
  have "keeps (gone m) (stat_device q)" "keeps (gone m) (sys_unmount q)" for q
    unfolding stat_device_def sys_unmount_def
    by (rule keeps_planned_call; simp add: keeps_def end_helper_def)+
  then show ?thesis
    unfolding drop_mount_def
    by (intro keeps_bind [OF keeps_get], simp only: split_beta)
      (auto intro!: keeps_bind keeps_attempt keeps_ignore_s split: sum.split)
qed

lemma gone_reads: "keeps (gone m) (sys_readdir p)" "keeps (gone m) (sys_lstat p)" "keeps (gone m) (sys_open_dir p)"
  unfolding sys_readdir_def sys_lstat_def sys_open_dir_def keeps_def
  by (auto simp: at_node_def at_path_def syscall_def Let_def split: list.split plan.split sum.split option.split)

lemma gone_victims: "keeps (gone m) (tmp_victims p es)"
  by (induction es)
    (auto simp: Let_def simp del: bind_get split: prod.split sum.split
      intro!: keeps_bind [OF keeps_get] keeps_bind keeps_attempt gone_reads)

lemma gone_sweep: "keeps (gone m) (sweep_if_present root sufs)" "keeps (gone m) (sweep_tmp p)"
proof -
  have one: "keeps (gone m) (remove_one root n suf)" for root n suf
    unfolding remove_one_def Let_def by (intro keeps_bind keeps_if gone_drop_mount keeps_return gone_remove_tree)
  have "keeps (gone m) (sweep_root root sufs)"
    unfolding sweep_root_def Let_def
    by (rule keeps_bind [OF keeps_get])
      (auto simp del: bind_get intro!: keeps_bind keeps_attempt gone_reads keeps_for_each one)
  moreover have "keeps (gone m) (on_conf (check_user u q))" for u q
    by (simp add: keeps_def on_conf_def split: prod.split)
  ultimately show "keeps (gone m) (sweep_if_present root sufs)"
    unfolding sweep_if_present_def by (auto intro!: keeps_bind keeps_attempt gone_reads split: sum.split)
  show "keeps (gone m) (sweep_tmp p)"
    unfolding sweep_tmp_def
    by (auto intro!: keeps_bind keeps_attempt gone_reads gone_victims keeps_for_each gone_remove_tree split: sum.split)
qed

lemma remove_tree_removes:
  "plans k = [] \<Longrightarrow> lookup_path k p False = Inr l \<Longrightarrow> gone l (snd (remove_tree p k))"
  using removal_gone [of l l k]
  by (simp add: remove_tree_def bind_s_def attempt_def sys_remove_all_def at_path_def syscall_def say_def
      update_s_def return_s_def)

lemma named_home_removed:
  assumes free: "plans k = []" and name: "sandbox_name (conf k) = n" "n \<noteq> []" "file_name (n @ ''.home'')"
    and dir: "lookup_path k root True = Inr l" "is_dir_at k l"
    and run: "sweep_if_present root home_suffixes k = (Inr (), t)"
  shows "gone (l @ [n @ ''.home'']) t"
proof -
  let ?p = "path_append root (n @ ''.home'')"
  obtain i nd where nd: "entry k l = Some i" "inodes k i = Some nd" "i_kind nd = Dir"
    using dir(2) by (cases "entry k l") (auto simp: is_dir_at_def kind_at_def node_def)
  have "sys_open_dir root k = (Inr nd, k)"
    unfolding sys_open_dir_def by (subst at_node_ok [OF free dir(1) nd(1,2)]) (simp add: nd(3))
  with run have "sweep_root root home_suffixes k = (Inr (), t)"
    by (auto simp: sweep_if_present_def bind_s_def attempt_def on_conf_def check_user_def split: if_splits)
  then have "t = snd (remove_tree ?p k)"
    using name by (auto simp: sweep_root_def home_suffixes_def remove_one_def Let_def cat_def return_s_def
        dest!: bind_s_cases)
  moreover have "lookup_path k ?p False = Inr (l @ [n @ ''.home''])"
    using dir lookup_child [OF name(3)] by blast
  ultimately show ?thesis using remove_tree_removes [OF free] by simp
qed

section \<open>The property\<close>

text \<open>C16: \<open>jaim -u\<close> removes nothing but what earlier runs have left: the private homes below the
  configuration directory, the mount points and changes of the overlays, of the named jail alone if
  there is a name, and directories of the user that are named like private ones; whatever calls
  fail, and although the paths are resolved again while entries go.  When it returns normally, no call
  has failed and a jail was named, the home of that jail is gone.\<close>

theorem teardown_sweeps:
  assumes "wf_kernel k" and "config_wf (conf k)"
  shows "{l. entry (snd (teardown env w k)) l \<noteq> entry k l} \<subseteq> sweepable env k \<and>
    inodes (snd (teardown env w k)) = inodes k \<and>
    (\<forall>l. plans k = [] \<and> fst (teardown env w k) = Inr () \<and> sandbox_name (conf k) \<noteq> [] \<and>
       lookup_path k (homejaimpath (conf k)) True = Inr l \<and> is_dir_at k l \<longrightarrow>
       entry (snd (teardown env w k)) (l @ [sandbox_name (conf k) @ ''.home'']) = None)"
proof (intro conjI allI impI)
  let ?n = "sandbox_name (conf k)"
  have name: "SLASH \<notin> set ?n" using assms(2) name_ok_no_slash by (auto simp: config_wf_def)
  have sw: "swept_from (sweepable env k) k (snd (teardown env w k))" by (rule teardown_keeps [OF assms(1) name])
  then show "{l. entry (snd (teardown env w k)) l \<noteq> entry k l} \<subseteq> sweepable env k"
    using pruned_keeps [of "sweepable env k" k "snd (teardown env w k)"] by (auto simp: swept_from_def)
  from sw show "inodes (snd (teardown env w k)) = inodes k" by (simp add: swept_from_def pruned_def)
  fix l assume h: "plans k = [] \<and> fst (teardown env w k) = Inr () \<and> ?n \<noteq> [] \<and>
       lookup_path k (homejaimpath (conf k)) True = Inr l \<and> is_dir_at k l"
  from h obtain k1 k2 where one: "on_conf (home w) k = (Inr (), k1)"
    and two: "sweep_if_present (homejaimpath (conf k1)) home_suffixes k1 = (Inr (), k2)"
    and rest: "snd (teardown env w k) = snd (bind_s (sweep_overlays env) (\<lambda>_. sweep_strays env) k2)"
    by (auto simp: teardown_def dest!: bind_s_cases
        simp: bind_s_def split: prod.splits sum.splits)
  obtain c where k1: "k1 = k\<lparr>conf := c\<rparr>" and c: "sandbox_name c = ?n" "homejaimpath c = homejaimpath (conf k)"
    using one by (auto simp: on_conf_def home_def check_user_def bind_s_def update_s_def
        split: prod.splits sum.splits if_splits)
  have "gone (l @ [?n @ ''.home'']) k2"
  proof (rule named_home_removed [OF _ _ _ _ _ _ two])
    show "plans k1 = []" "sandbox_name (conf k1) = ?n" "?n \<noteq> []" using h k1 c by simp_all
    show "file_name (?n @ ''.home'')" using name by (simp add: jail_entry_name home_suffixes_def)
    show "lookup_path k1 (homejaimpath (conf k1)) True = Inr l" "is_dir_at k1 l"
      using h k1 c same_lookup [of k1 k] by (simp_all add: is_dir_at_def kind_at_def node_def entry_def)
  qed
  moreover have "keeps (gone (l @ [?n @ ''.home''])) (bind_s (sweep_overlays env) (\<lambda>_. sweep_strays env))"
    by (auto intro!: keeps_bind keeps_sweep_overlays gone_sweep simp: sweep_strays_def split: sum.split)
  ultimately show "entry (snd (teardown env w k)) (l @ [?n @ ''.home'']) = None"
    unfolding rest gone_def [symmetric] by (auto dest: keepsD)
qed

text \<open>Two homes of earlier runs, of which one belongs to the jail that is named.\<close>

definition old_files :: "(loc \<times> fkind) list" where
  "old_files =
     (let c = [''Users'', ''u'', ''.jaim''] in
      [([], Dir), ([''Users''], Dir), ([''Users'', ''u''], Dir), (c, Dir), (c @ [''j.home''], Dir),
       (c @ [''j.home'', ''f''], Reg ''x''), (c @ [''k.home''], Dir), (c @ [''default.conf''], Reg [])])"

definition old_state :: launcher where
  "old_state =
     at_fork\<lparr>dir_table := zip (map fst old_files) [0..<8],
       inodes := (\<lambda>i. if i < 8 then
          let (l, kd) = old_files ! i in
          Some \<lparr>i_kind = kd, i_mode = 493, i_uid = 501, i_gid = 20, i_atime = (1, 0), i_mtime = (2, 0), i_xattr = []\<rparr>
        else None),
       next_ino := 8, conf := sample_config\<lparr>sandbox_name := ''j''\<rparr>\<rparr>"

lemma old_state_wf: "wf_kernel old_state"
proof (rule wf_checkI)
  show "wf_check old_state" by code_simp
qed (simp add: old_state_def at_fork_def sample_launcher_def)

lemma old_config_wf: "config_wf (conf old_state)"
proof -
  have "name_ok ''j''" by code_simp
  then show ?thesis using sample_config_wf by (simp add: old_state_def config_wf_def)
qed

theorem teardown_sweeps_witness:
  "entry (snd (teardown sample_outside sample_world old_state)) [''Users'', ''u'', ''.jaim'', ''j.home''] = None \<and>
   {l. entry (snd (teardown sample_outside sample_world old_state)) l \<noteq> entry old_state l}
     \<subseteq> sweepable sample_outside old_state"
proof -
  have "fst (teardown sample_outside sample_world old_state) = Inr ()"
    "lookup_path old_state (homejaimpath (conf old_state)) True = Inr [''Users'', ''u'', ''.jaim'']"
    "is_dir_at old_state [''Users'', ''u'', ''.jaim'']" by code_simp+
  then show ?thesis
    using teardown_sweeps [OF old_state_wf old_config_wf, of sample_outside sample_world]
    by (simp add: old_state_def at_fork_def sample_launcher_def)
qed

end
