(* ===== verification/Ensure.thy ===== *)
theory Ensure
  imports Launch
begin

unbundle bit_operations_syntax

text \<open>
  \<open>ensure_dir\<close> and \<open>ensure_file\<close> of \<open>src/fs.cc\<close>, which make what the program needs unless it is
  there.  A descriptor of a directory is the path of the directory.
\<close>

section \<open>Files\<close>

text \<open>
  The loop that writes the contents.  A write that takes nothing is tried again, so the bound counts
  the bytes and the calls that the environment may still cut short.
\<close>

primrec write_bytes :: "nat \<Rightarrow> string \<Rightarrow> nat \<Rightarrow> nat \<Rightarrow> string \<Rightarrow> ('z, unit) mstep" where
  "write_bytes 0 msg fd off sv = (if sv = [] then return_s () else throw_s (LogicError ''out of fuel''))"
| "write_bytes (Suc n) msg fd off sv =
     (if sv = [] then return_s ()
      else bind_s (or_syserr msg (sys_pwrite fd sv off)) (\<lambda>w. write_bytes n msg fd (off + w) (drop w sv)))"

definition write_contents :: "string \<Rightarrow> nat \<Rightarrow> string \<Rightarrow> ('z, unit) mstep" where
  "write_contents msg fd sv k = write_bytes (length sv + length (plans k)) msg fd 0 sv k"

text \<open>The name of the temporary file; \<open>me\<close> is the process.\<close>

definition tmp_file :: "nat \<Rightarrow> path \<Rightarrow> path" where
  "tmp_file me file = cat file (''~'' @ show_nat me @ ''~'')"

definition open_existing :: "path \<Rightarrow> nat \<Rightarrow> ('z, nat) mstep" where
  "open_existing p fd =
     on_error
       (bind_s (or_syserr (call_on ''fstat'' p) (sys_fstat fd)) (\<lambda>sb.
          case i_kind sb of
            Reg _ \<Rightarrow> return_s fd
          | _ \<Rightarrow> throw_s (RuntimeError (p @ '': not a regular file''))))
       (sys_close fd)"

definition fill_file :: "nat \<Rightarrow> path \<Rightarrow> path \<Rightarrow> string \<Rightarrow> ('z, unit) mstep" where
  "fill_file fd tmp p contents =
     bind_s (write_contents (''write(tmp for '' @ p @ '')'') fd contents) (\<lambda>_.
     bind_s (or_syserr (call_on ''fsync'' tmp) (sys_fsync fd)) (\<lambda>_.
       or_syserr (''rename('' @ tmp @ '' -> '' @ p @ '')'') (sys_rename tmp p)))"

text \<open>On the way of an error the descriptor is closed, then the temporary file is removed.\<close>

definition drop_tmp :: "nat \<Rightarrow> path \<Rightarrow> ('z, unit) sys" where
  "drop_tmp fd tmp = bind_s (attempt (sys_close fd)) (\<lambda>_. sys_unlink tmp)"

definition new_file :: "path \<Rightarrow> path \<Rightarrow> string \<Rightarrow> nat \<Rightarrow> ('z, nat) mstep" where
  "new_file tmp p contents mode =
     bind_s (on_error (or_syserr (call_on ''openat'' tmp) (sys_create tmp mode)) (sys_unlink tmp)) (\<lambda>fd.
     bind_s (on_error (fill_file fd tmp p contents) (drop_tmp fd tmp)) (\<lambda>_.
     bind_s (on_error (or_syserr (call_on ''openat'' p) (sys_open_read p)) (sys_close fd)) (\<lambda>fd'.
     bind_s (ignore (sys_close fd)) (\<lambda>_. return_s fd'))))"

definition ensure_file ::
    "nat \<Rightarrow> (nat \<Rightarrow> ('z, unit) mstep) \<Rightarrow> path \<Rightarrow> path \<Rightarrow> string \<Rightarrow> nat \<Rightarrow> ('z, nat) mstep" where
  "ensure_file me createcb dir file contents mode =
     (let p = path_append dir file; tmp = path_append dir (tmp_file me file) in
      bind_s (attempt (sys_open_read p)) (\<lambda>r.
        case r of
          Inr fd \<Rightarrow> open_existing p fd
        | Inl e \<Rightarrow>
            if e \<noteq> ENOENT then throw_s (SysError e p)
            else
              bind_s (ignore (sys_unlink tmp)) (\<lambda>_.
              bind_s (new_file tmp p contents mode) (\<lambda>fd.
                on_error (bind_s (createcb fd) (\<lambda>_. return_s fd)) (sys_close fd)))))"

definition create_warn :: "path \<Rightarrow> 'd \<Rightarrow> ('z, unit) mstep" where
  "create_warn p fd = report (RuntimeError (''created '' @ p))"

section \<open>Directories\<close>

text \<open>\<open>openat\<close> with \<open>O_DIRECTORY\<close>, which refuses an empty name.\<close>

definition open_component :: "bool \<Rightarrow> path \<Rightarrow> path \<Rightarrow> ('z, unit) sys" where
  "open_component follow cur c =
     (if c = [] then syscall (\<lambda>k. (Inl ENOENT, k))
      else at_node (path_append cur c) follow (\<lambda>l i nd k.
        case i_kind nd of Dir \<Rightarrow> (Inr (), k) | Lnk t \<Rightarrow> (Inl ELOOP, k) | _ \<Rightarrow> (Inl ENOTDIR, k)))"

definition make_component :: "path \<Rightarrow> path \<Rightarrow> nat \<Rightarrow> ('z machine_ext, unit) sys" where
  "make_component cur c mode =
     (if c = [] then syscall (\<lambda>k. (Inl ENOENT, k))
      else (\<lambda>k. Kernel.make (path_append cur c) (own k (new_inode Dir mode)) k))"

definition cannot :: "string \<Rightarrow> path \<Rightarrow> path \<Rightarrow> path \<Rightarrow> string" where
  "cannot what p cur c = ''ensure_dir('' @ p @ ''): '' @ what @ ''('' @ path_append cur c @ '')''"

text \<open>
  The loop over the components; \<open>made\<close> is the variable \<open>created\<close>.  A component is made and then
  opened again, so it takes two turns, and the bound is for those that the environment adds.
\<close>

primrec ensure_loop ::
    "nat \<Rightarrow> bool \<Rightarrow> nat \<Rightarrow> path \<Rightarrow> path \<Rightarrow> path list \<Rightarrow> bool \<Rightarrow> ('z, path \<times> bool) mstep" where
  "ensure_loop 0 follow perm p cur cs made = throw_s (LogicError ''out of fuel'')"
| "ensure_loop (Suc n) follow perm p cur cs made =
     (case cs of
        [] \<Rightarrow> return_s (cur, made)
      | c # rest \<Rightarrow>
          bind_s (attempt (open_component follow cur c)) (\<lambda>r.
            case r of
              Inr _ \<Rightarrow> ensure_loop n follow perm p (path_append cur c) rest made
            | Inl e \<Rightarrow>
                if e \<noteq> ENOENT then throw_s (SysError e (cannot ''open'' p cur c))
                else
                  bind_s (attempt (make_component cur c perm)) (\<lambda>m.
                    case m of
                      Inl e' \<Rightarrow>
                        if e' \<noteq> EEXIST then throw_s (SysError e' (cannot ''mkdir'' p cur c))
                        else
                          bind_s (or_syserr (cannot ''stat'' p cur c) (sys_stat (path_append cur c))) (\<lambda>sb.
                            if i_kind sb \<noteq> Dir then
                              throw_s (SysError e' (cannot ''not a directory'' p cur c))
                            else ensure_loop n follow perm p cur cs False)
                    | Inr _ \<Rightarrow>
                        bind_s (or_syserr (cannot ''stat'' p cur c) (sys_stat (path_append cur c))) (\<lambda>sb.
                          if i_kind sb \<noteq> Dir then
                            throw_s (SysError ENOENT (cannot ''not a directory'' p cur c))
                          else ensure_loop n follow perm p cur cs True))))"

definition wrong_owner :: "path \<Rightarrow> nat \<Rightarrow> nat \<Rightarrow> error" where
  "wrong_owner p u e =
     RuntimeError (p @ '': has uid '' @ show_nat u @ '' should have '' @ show_nat e)"

text \<open>The bits that are not in \<open>perm\<close> are taken away; \<open>chmod\<close> stands for \<open>fchmod\<close>.\<close>

definition settle_dir :: "path \<Rightarrow> nat \<Rightarrow> bool \<Rightarrow> path \<Rightarrow> ('z, unit) mstep" where
  "settle_dir p perm other_owner d =
     bind_s (or_syserr (call_on ''fstat'' d) (sys_stat d)) (\<lambda>sb.
     bind_s (get_s (\<lambda>k. euid (proc k))) (\<lambda>e.
       if \<not> other_owner \<and> i_uid sb \<noteq> e then throw_s (wrong_owner p (i_uid sb) e)
       else
         let m = i_mode sb AND perm in
         if m \<noteq> perm_bits (i_mode sb) then or_syserr (call_on ''fchmod'' p) (sys_chmod d m)
         else return_s ()))"

definition ensure_dir ::
    "bool \<Rightarrow> bool \<Rightarrow> (path \<Rightarrow> ('z, unit) mstep) \<Rightarrow> path \<Rightarrow> path \<Rightarrow> nat \<Rightarrow> ('z, path) mstep" where
  "ensure_dir follow other_owner createcb dir p perm k =
     bind_s (ensure_loop (Suc (2 * length (path_iter p) + length (plans k))) follow perm p
               (if is_absolute p then ''/'' else dir) (path_iter p) False) (\<lambda>(d, made).
     bind_s (settle_dir p perm other_owner d) (\<lambda>_.
     bind_s (if made then createcb d else return_s ()) (\<lambda>_. return_s d))) k"

end
