(* ===== verification/Storage.thy ===== *)
theory Storage
  imports Teardown Ensure
begin

text \<open>
  The directories of \<open>Config\<close> that are made when they are missing: \<open>ensure_udir\<close>, \<open>home_jaim(true)\<close>
  and \<open>storage\<close>.  A descriptor of a directory is the path of the directory.
\<close>

definition ensure_udir :: "path \<Rightarrow> path \<Rightarrow> ('z, path) lstep" where
  "ensure_udir dir p =
     bind_s (ensure_dir True False (\<lambda>_. return_s ()) dir p 448) (\<lambda>d.
     bind_s (or_syserr (call_on ''fstat'' d) (sys_stat d)) (\<lambda>sb.
     bind_s (on_conf (check_user (i_uid sb) d)) (\<lambda>_. return_s d)))"

definition make_home_jaim :: "world \<Rightarrow> ('z, unit) lstep" where
  "make_home_jaim w k =
     (if home_jaim_fd (conf k) then return_s () k
      else
        bind_s (on_conf (home w)) (\<lambda>_.
        bind_s (ensure_udir (homepath (conf k)) (homejaimpath (conf k))) (\<lambda>_.
          update_s (\<lambda>k. k\<lparr>conf := (conf k)\<lparr>home_jaim_fd := True\<rparr>\<rparr>))) k)"

text \<open>
  The descriptor is kept, so this is the first call; a run of the program makes only one.  Its path
  becomes \<open>storagedir_\<close>.
\<close>

definition storage :: "world \<Rightarrow> ('z, path) lstep" where
  "storage w =
     bind_s (get_s (\<lambda>k. storagedir (conf k))) (\<lambda>sd.
     bind_s
       (if sd = [] then
          bind_s (on_conf (home_jaim w False)) (\<lambda>_.
          bind_s (get_s (\<lambda>k. homejaimpath (conf k))) (\<lambda>hj.
          bind_s (or_syserr (hj @ '': F_DUPFD_CLOEXEC'') library_call) (\<lambda>_. return_s hj)))
        else ensure_udir (w_current_path w) sd) (\<lambda>d.
     bind_s (or_syserr ''fcntl(F_GETPATH)'' (sys_realpath d)) (\<lambda>p.
     bind_s (update_s (\<lambda>k. k\<lparr>conf := (conf k)\<lparr>storagedir := p\<rparr>\<rparr>)) (\<lambda>_. return_s p))))"

end
