(* ===== verification/Completion.thy ===== *)
theory Completion
  imports Storage
begin

text \<open>
  Completion in a shell (\<open>src/complete.cc\<close>): what \<open>jaim --complete\<close> prints for the last word of a
  command line that \<open>Options::complete_args\<close> has analysed.
\<close>

section \<open>Collecting\<close>

text \<open>\<open>CompSet::output\<close> into the set \<open>out_\<close>; \<open>pre\<close> is \<open>prepend()\<close>.\<close>

definition offer :: "string \<Rightarrow> string \<Rightarrow> string oset \<Rightarrow> string oset" where
  "offer pre s out = os_insert str_less (pre @ s) out"

datatype path_type = kAny | kDir | kExec

text \<open>The type of an entry, of its target if it is a link, and the answer of \<open>fstatat\<close> if it was asked.\<close>

definition resolve_type :: "path \<Rightarrow> string \<Rightarrow> dtype \<Rightarrow> ('z, dtype \<times> inode option) mstep" where
  "resolve_type d name ty =
     (if ty = DT_UNKNOWN \<or> ty = DT_LNK then
        bind_s (attempt (sys_stat (path_append d name))) (\<lambda>r.
          case r of
            Inl _ \<Rightarrow> return_s (ty, None)
          | Inr sb \<Rightarrow>
              return_s (case i_kind sb of Dir \<Rightarrow> DT_DIR | Reg _ \<Rightarrow> DT_REG | _ \<Rightarrow> ty, Some sb))
      else return_s (ty, None))"

definition any_execute :: "inode \<Rightarrow> bool" where
  "any_execute sb \<longleftrightarrow> has_bit (i_mode sb) 64 \<or> has_bit (i_mode sb) 8 \<or> has_bit (i_mode sb) 1"

definition executable :: "path \<Rightarrow> string \<Rightarrow> dtype \<Rightarrow> inode option \<Rightarrow> ('z, bool) mstep" where
  "executable d name ty sb =
     (if ty = DT_REG then
        (case sb of
           Some nd \<Rightarrow> return_s (any_execute nd)
         | None \<Rightarrow>
             bind_s (attempt (sys_stat (path_append d name))) (\<lambda>r.
               return_s (case r of Inl _ \<Rightarrow> False | Inr nd \<Rightarrow> any_execute nd)))
      else return_s (ty = DT_DIR))"

definition wanted :: "path_type \<Rightarrow> path \<Rightarrow> string \<Rightarrow> dtype \<Rightarrow> inode option \<Rightarrow> ('z, bool) mstep" where
  "wanted ptype d name ty sb =
     (case ptype of
        kAny \<Rightarrow> return_s True
      | kDir \<Rightarrow> return_s (ty = DT_DIR)
      | kExec \<Rightarrow> executable d name ty sb)"

primrec offer_entries ::
    "path_type \<Rightarrow> string \<Rightarrow> path \<Rightarrow> path \<Rightarrow> (string \<times> dtype) list \<Rightarrow> string oset \<Rightarrow> ('z, string oset) mstep" where
  "offer_entries ptype pre d arg [] out = return_s out"
| "offer_entries ptype pre d arg (e # es) out =
     (case e of (name, ty) \<Rightarrow>
       if dot_entry name \<or> \<not> prefix (filename arg) name then offer_entries ptype pre d arg es out
       else
         bind_s (resolve_type d name ty) (\<lambda>(ty', sb).
         bind_s (wanted ptype d name ty' sb) (\<lambda>ok.
           offer_entries ptype pre d arg es
             (if ok then
                offer pre (path_append (parent_path arg) name @ (if ty' = DT_DIR then ''/'' else '' '')) out
              else out))))"

text \<open>\<open>base\<close> is the directory for a relative name; one without a directory part is in \<open>.\<close> of it.\<close>

definition complete_path :: "path_type \<Rightarrow> path \<Rightarrow> string \<Rightarrow> path \<Rightarrow> string oset \<Rightarrow> ('z, string oset) mstep" where
  "complete_path ptype base pre arg out =
     (let d = path_append base (if parent_path arg = [] then ''.'' else parent_path arg) in
      bind_s (attempt (sys_readdir d)) (\<lambda>r.
        case r of
          Inl _ \<Rightarrow> return_s out
        | Inr es \<Rightarrow> offer_entries ptype pre d arg es out))"

definition without_extension :: "path \<Rightarrow> path" where
  "without_extension f = take (length f - length (extension f)) f"

definition config_names :: "string \<Rightarrow> path \<Rightarrow> string list \<Rightarrow> string list" where
  "config_names ext arg names =
     filter (prefix arg) (map without_extension (filter (\<lambda>f. extension f = ext) names))"

definition complete_config :: "path \<Rightarrow> string \<Rightarrow> path \<Rightarrow> string \<Rightarrow> string oset \<Rightarrow> ('z, string oset) mstep" where
  "complete_config d pre arg ext out =
     bind_s (attempt (sys_readdir (path_append d ''.''))) (\<lambda>r.
       case r of
         Inl _ \<Rightarrow> return_s out
       | Inr es \<Rightarrow>
           return_s (fold (\<lambda>n. offer pre (n @ '' '')) (config_names ext arg (map fst es)) out))"

definition complete_env :: "string list \<Rightarrow> bool \<Rightarrow> string \<Rightarrow> string \<Rightarrow> string oset \<Rightarrow> string oset" where
  "complete_env env eq pre arg out =
     fold (\<lambda>v. offer pre (v @ (if eq then ''='' else '' '')))
       (filter (prefix arg) (map (before_char EQUALS) (filter (\<lambda>e. EQUALS \<in> set e) env))) out"

section \<open>The options\<close>

definition dir_options :: "string list" where
  "dir_options =
     [''-d'', ''--dir'', ''--dir!'', ''-x'', ''--xdir'', ''-r'', ''--rdir'', ''--rdir?'', ''--storage'']"

definition complete_argument :: "world \<Rightarrow> string \<Rightarrow> string \<Rightarrow> string \<Rightarrow> ('z, string oset) lstep" where
  "complete_argument w opt arg pre =
     (let cwd = w_current_path w in
      if opt \<in> {''-m'', ''--mode''} then
        return_s (fold (\<lambda>m. offer pre (m @ '' '')) (filter (prefix arg) [''casual'', ''strict'', ''bare'']) [])
      else if opt \<in> set dir_options then complete_path kDir cwd pre arg []
      else if opt \<in> {''--script'', ''--script?''} then complete_path kAny cwd pre arg []
      else if opt \<in> {''--initjail'', ''--initjail?''} then complete_path kExec cwd pre arg []
      else if opt \<in> {''--mask'', ''--unmask''} then
        bind_s (on_conf (home w)) (\<lambda>_.
        bind_s (get_s (\<lambda>k. homepath (conf k))) (\<lambda>h. complete_path kAny h pre arg []))
      else if opt \<in> {''-C'', ''--conf'', ''--conf?''} then
        bind_s (on_conf (home_jaim w False)) (\<lambda>_.
        bind_s (get_s (\<lambda>k. homejaimpath (conf k))) (\<lambda>h. complete_config h pre arg ''.conf'' []))
      else if opt \<in> {''-j'', ''--jail''} then
        bind_s (storage w) (\<lambda>d. complete_config d pre arg ''.jail'' [])
      else if opt = ''--setenv'' then
        bind_s (get_s (\<lambda>k. environ (conf k))) (\<lambda>env. return_s (complete_env env True pre arg []))
      else if opt = ''--unsetenv'' then
        bind_s (get_s (\<lambda>k. environ (conf k))) (\<lambda>env. return_s (complete_env env False pre arg []))
      else return_s [])"

definition complete :: "world \<Rightarrow> completions \<Rightarrow> ('z, nat) lstep" where
  "complete w c =
     (case c of
        PositionalAt n \<Rightarrow> bind_s (say (''_command_offset '' @ show_nat (n - 1))) (\<lambda>_. return_s 0)
      | NoCompletions \<Rightarrow> return_s 1
      | RawCompletions vs \<Rightarrow> bind_s (for_each vs say) (\<lambda>_. return_s 0)
      | ArgCompletions opt arg pre \<Rightarrow>
          bind_s (complete_argument w opt arg pre) (\<lambda>out.
          bind_s (for_each (os_elems out) say) (\<lambda>_. return_s 0)))"

end
