(* ===== verification/Completion_Theorems.thy ===== *)
theory Completion_Theorems
  imports Completion Acl_Theorems
begin

text \<open>
  Completing the name of a directory offers exactly the directories there are, links to directories
  included.
\<close>

section \<open>One directory\<close>

text \<open>The type that an entry has after \<open>fstatat\<close>, if no call fails.\<close>

definition found_type :: "'z machine_scheme \<Rightarrow> path \<Rightarrow> string \<Rightarrow> dtype \<Rightarrow> dtype" where
  "found_type k d name ty =
     (if ty = DT_UNKNOWN \<or> ty = DT_LNK then
        (case lookup_path k (path_append d name) True of
           Inl _ \<Rightarrow> ty
         | Inr l \<Rightarrow>
             (case kind_at k l of Some Dir \<Rightarrow> DT_DIR | Some (Reg _) \<Rightarrow> DT_REG | _ \<Rightarrow> ty))
      else ty)"

definition named_dirs :: "'z machine_scheme \<Rightarrow> path \<Rightarrow> path \<Rightarrow> (string \<times> dtype) list \<Rightarrow> string list" where
  "named_dirs k d arg es =
     map fst (filter (\<lambda>(name, ty). \<not> dot_entry name \<and> prefix (filename arg) name \<and>
       found_type k d name ty = DT_DIR) es)"

definition full_name :: "string \<Rightarrow> path \<Rightarrow> string \<Rightarrow> string" where
  "full_name pre arg name = pre @ path_append (parent_path arg) name @ ''/''"

lemma resolve_type_quiet:
  assumes "plans k = []"
  shows "\<exists>sb. resolve_type d name ty k = (Inr (found_type k d name ty, sb), k)"
proof (cases "lookup_path k (path_append d name) True")
  case (Inl e)
  then show ?thesis using assms
    by (auto simp: resolve_type_def found_type_def sys_stat_def at_node_def at_path_def syscall_def bind_s_def
        attempt_def return_s_def)
next
  case (Inr l)
  then show ?thesis using assms
    by (auto simp: resolve_type_def found_type_def sys_stat_def at_node_def at_path_def syscall_def bind_s_def
        attempt_def return_s_def kind_at_def node_def split: option.split fkind.split)
qed

lemma offer_entries_quiet:
  assumes "plans k = []"
  shows "\<exists>out'. offer_entries kDir pre d arg es out k = (Inr out', k) \<and>
    set (os_elems out') = set (os_elems out) \<union> full_name pre arg ` set (named_dirs k d arg es)"
proof (induction es arbitrary: out)
  case Nil
  then show ?case by (simp add: return_s_def named_dirs_def)
next
  case (Cons e es)
  obtain name ty where e: "e = (name, ty)" by (cases e)
  obtain sb where r: "resolve_type d name ty k = (Inr (found_type k d name ty, sb), k)"
    using resolve_type_quiet [OF assms] by blast
  have off: "set (os_elems (offer pre s out)) = insert (pre @ s) (set (os_elems out))" for s
    unfolding offer_def by (rule str_order.emplace_elems)
  show ?case
  proof (cases "dot_entry name \<or> \<not> prefix (filename arg) name")
    case True
    then show ?thesis using Cons.IH [of out] by (auto simp: e named_dirs_def)
  next
    case False
    let ?s = "path_append (parent_path arg) name @ ''/''"
    show ?thesis
    proof (cases "found_type k d name ty = DT_DIR")
      case True
      then show ?thesis
        using Cons.IH [of "offer pre ?s out"] False r off [of ?s]
        by (auto simp: e named_dirs_def full_name_def bind_s_def wanted_def return_s_def)
    next
      case no: False
      then show ?thesis
        using Cons.IH [of out] False r by (auto simp: e named_dirs_def bind_s_def wanted_def return_s_def)
    qed
  qed
qed


lemma found_dir:
  assumes wf: "wf_kernel k" and d: "lookup_path k d True = Inr l" "is_dir_at k l"
    and e: "entry k (l @ [name]) = Some i"
  shows "found_type k d name (entry_type k (l @ [name])) = DT_DIR \<longleftrightarrow>
    (\<exists>l'. lookup_path k (path_append d name) True = Inr l' \<and> is_dir_at k l')"
proof -
  have name: "file_name name" using entry_names [OF wf e] by simp
  then have p: "lookup_path k (path_append d name) False = Inr (l @ [name])"
    using d by (simp add: lookup_child)
  obtain nd where "node k (l @ [name]) = Some nd" using entry_node [OF wf e] by blast
  then have nd: "kind_at k (l @ [name]) = Some (i_kind nd)" by (simp add: kind_at_def)
  show ?thesis
  proof (cases "\<exists>t. i_kind nd = Lnk t")
    case True
    then show ?thesis
      using nd by (auto simp: found_type_def entry_type_def dtype_of_def is_dir_at_def
          split: sum.split option.split fkind.split)
  next
    case False
    then have "lookup_path k (path_append d name) True = Inr (l @ [name])"
      using nd by (intro lookup_nofollow [OF p]) auto
    then show ?thesis
      using nd False by (auto simp: found_type_def entry_type_def dtype_of_def is_dir_at_def split: fkind.split)
  qed
qed

lemma readdir_quiet:
  assumes "wf_kernel k" and "plans k = []" and "lookup_path k d True = Inr l" and "is_dir_at k l"
  shows "sys_readdir d k = (Inr ((''.'', DT_DIR) # (''..'', DT_DIR) #
      map (\<lambda>n. (n, entry_type k (l @ [n]))) (children k l)), k)"
proof -
  obtain i where i: "entry k l = Some i" using is_dir_entry [OF assms(4)] by blast
  then obtain nd where "inodes k i = Some nd" "i_kind nd = Dir"
    using entry_node [OF assms(1) i] assms(4) by (auto simp: is_dir_at_def kind_at_def)
  then show ?thesis
    using i assms(2,3) by (simp add: sys_readdir_def at_node_ok transferred_def Let_def)
qed

definition typed_dir :: "path \<Rightarrow> path \<Rightarrow> path" where
  "typed_dir base arg = path_append base (if parent_path arg = [] then ''.'' else parent_path arg)"

text \<open>C29: completing the argument of an option that takes a directory offers, if no call fails, exactly
  the names in the directory typed so far that begin with what was typed after it and lead, through
  links if need be, to a directory, each after the text before the argument and followed by a slash.
\<close>

theorem directory_completion_exact:
  assumes wf: "wf_kernel k" and quiet: "plans k = []"
    and d: "lookup_path k (typed_dir base arg) True = Inr l" "is_dir_at k l"
  shows "\<exists>out. complete_path kDir base pre arg [] k = (Inr out, k) \<and>
    set (os_elems out) =
      {full_name pre arg name | name l'. entry k (l @ [name]) \<noteq> None \<and> prefix (filename arg) name \<and>
         lookup_path k (path_append (typed_dir base arg) name) True = Inr l' \<and> is_dir_at k l'}"
proof -
  let ?d = "typed_dir base arg"
  let ?es = "(''.'', DT_DIR) # (''..'', DT_DIR) # map (\<lambda>n. (n, entry_type k (l @ [n]))) (children k l)"
  obtain out where out: "offer_entries kDir pre ?d arg ?es [] k = (Inr out, k)"
      "set (os_elems out) = full_name pre arg ` set (named_dirs k ?d arg ?es)"
    using offer_entries_quiet [OF quiet, of pre ?d arg ?es "[]"] by auto
  have run: "complete_path kDir base pre arg [] k = (Inr out, k)"
    using readdir_quiet [OF wf quiet d] out(1)
    by (simp add: complete_path_def typed_dir_def bind_s_def attempt_def Let_def)
  have plain: "\<not> dot_entry n" if "n \<in> set (children k l)" for n
    using that children_entry [OF wf] entry_names [OF wf, of "l @ [n]"]
    by (auto simp: dot_entry_def file_name_def)
  have "n \<in> set (named_dirs k ?d arg ?es) \<longleftrightarrow> entry k (l @ [n]) \<noteq> None \<and> prefix (filename arg) n \<and>
      (\<exists>l'. lookup_path k (path_append ?d n) True = Inr l' \<and> is_dir_at k l')" for n
    using plain [of n] children_entry [OF wf, of n l] found_dir [OF wf d]
    by (auto simp: named_dirs_def dot_entry_def image_iff)
  then have "set (os_elems out) =
      {full_name pre arg n | n l'. entry k (l @ [n]) \<noteq> None \<and> prefix (filename arg) n \<and>
         lookup_path k (path_append ?d n) True = Inr l' \<and> is_dir_at k l'}"
    unfolding out(2) by (auto simp del: not_None_eq)
  with run show ?thesis by blast
qed

theorem directory_completion_exact_witness:
  "\<exists>out. complete_path kDir ''/w'' ''--dir='' ''/'' [] (sample_machine 0 False) = (Inr out, sample_machine 0 False) \<and>
     ''--dir=/w/'' \<in> set (os_elems out) \<and> ''--dir=/s/'' \<notin> set (os_elems out)"
proof -
  let ?k = "sample_machine 0 False"
  have d: "lookup_path ?k (typed_dir ''/w'' ''/'') True = Inr []" "is_dir_at ?k []"
    and w: "lookup_path ?k (path_append (typed_dir ''/w'' ''/'') ''w'') True = Inr [''w'']" "is_dir_at ?k [''w'']"
    and e: "entry ?k ([] @ [''w'']) \<noteq> None" "prefix (filename ''/'') ''w''" "full_name ''--dir='' ''/'' ''w'' = ''--dir=/w/''"
    and s: "lookup_path ?k (path_append (typed_dir ''/w'' ''/'') ''s'') True = Inr [''s'']" "\<not> is_dir_at ?k [''s'']"
    and a: "entry ?k ([] @ [''/s'']) = None"
    by code_simp+
  have same: "full_name ''--dir='' ''/'' n = ''--dir=/s/'' \<Longrightarrow> n = ''s'' \<or> n = ''/s''" for n
    by (cases n) (auto simp: full_name_def path_append_def parent_path_def is_absolute_def split: if_splits)
  obtain out where out: "complete_path kDir ''/w'' ''--dir='' ''/'' [] ?k = (Inr out, ?k)"
    "set (os_elems out) =
      {full_name ''--dir='' ''/'' name | name l'. entry ?k ([] @ [name]) \<noteq> None \<and> prefix (filename ''/'') name \<and>
         lookup_path ?k (path_append (typed_dir ''/w'' ''/'') name) True = Inr l' \<and> is_dir_at ?k l'}"
    using directory_completion_exact [OF sample_wf sample_plans d] by blast
  have "''--dir=/w/'' \<in> set (os_elems out)"
    unfolding out(2) using w e by (intro CollectI exI [of _ "''w''"]) auto
  moreover have "''--dir=/s/'' \<notin> set (os_elems out)"
  proof
    assume "''--dir=/s/'' \<in> set (os_elems out)"
    then obtain n l' where "full_name ''--dir='' ''/'' n = ''--dir=/s/''" "entry ?k ([] @ [n]) \<noteq> None"
        "lookup_path ?k (path_append (typed_dir ''/w'' ''/'') n) True = Inr l'" "is_dir_at ?k l'"
      unfolding out(2) by auto
    with same [of n] s a show False by auto
  qed
  ultimately show ?thesis using out(1) by blast
qed

end
