(* ===== verification/Program.thy ===== *)
theory Program
  imports Completion Defaults Supervision Accounts
begin

text \<open>
  \<open>do_main\<close> and \<open>main\<close> of \<open>src/jaim.cc\<close>: the parts put together in the order of the program, from
  the first drop of privileges to \<open>Config::exec\<close>.
\<close>

section \<open>State\<close>

text \<open>
  The local variables of \<open>do_main\<close>, the accounts of the system and the status given to \<open>exit\<close>
  inside an option.
\<close>

record 'd invocation = launcher +
  opt_C :: path
  opt_init :: bool
  opt_u :: bool
  opt_setup_user :: bool
  opt_remove_user :: bool
  opt_setup_setuid :: bool
  accounts :: 'd
  ended :: "nat option"

type_synonym ('d, 'a) pstep = "('d invocation, error, 'a) estep"

text \<open>The process number, the answer of \<open>_NSGetExecutablePath\<close> and the account service.\<close>

record 'd process =
  p_pid :: nat
  p_exe :: "path option"
  p_accounts :: "'d directory"

datatype main_end = Exits nat | Ran parent_end

definition exit_with :: "nat \<Rightarrow> ('d, 'a) pstep" where
  "exit_with n = bind_s (update_s (\<lambda>k. k\<lparr>ended := Some n\<rparr>)) (\<lambda>_. throw_s (LogicError ''exit''))"

section \<open>Configuration files of the machine\<close>

text \<open>
  The answers that concern users and configuration files come from the machine: who runs the
  program, and the files as they are when they are asked for.
\<close>

definition stat_file :: "'z machine_scheme \<Rightarrow> path \<Rightarrow> nat + bool" where
  "stat_file k p =
     (case lookup_path k p True of
        Inl e \<Rightarrow> Inl e
      | Inr l \<Rightarrow>
          (case kind_at k l of
             None \<Rightarrow> Inl ENOENT
           | Some kd \<Rightarrow> Inr (case kd of Reg _ \<Rightarrow> True | _ \<Rightarrow> False)))"

definition text_of :: "path \<Rightarrow> fkind \<Rightarrow> error + string" where
  "text_of p kd =
     (case kd of
        Reg s \<Rightarrow> if int (length s) > read_limit then Inl (SysError EFBIG p) else Inr s
      | Dir \<Rightarrow> Inl (SysError EISDIR (p @ '': read''))
      | _ \<Rightarrow> Inl (SysError EINVAL (p @ '': read'')))"

definition open_file :: "'z machine_scheme \<Rightarrow> path \<Rightarrow> nat + conf_file" where
  "open_file k p =
     (case lookup_path k p True of
        Inl e \<Rightarrow> Inl e
      | Inr l \<Rightarrow>
          (case node k l of
             None \<Rightarrow> Inl ENOENT
           | Some nd \<Rightarrow>
               if \<not> may_read (proc k) nd then Inl EACCES
               else Inr \<lparr>cf_path = Inr (show_loc l), cf_text = text_of (show_loc l) (i_kind nd)\<rparr>))"

definition see :: "'z launcher_scheme \<Rightarrow> world \<Rightarrow> world" where
  "see k w = w\<lparr>w_getuid := ruid (proc k),
     w_stat_conf := (\<lambda>f. stat_file k (path_append (homejaimpath (conf k)) f)),
     w_open_conf := (\<lambda>fromcwd f.
       open_file k (path_append (if fromcwd then w_current_path w else homejaimpath (conf k)) f))\<rparr>"

text \<open>Files include each other at most as deep as there are files.\<close>

definition levels :: "'z kernel_scheme \<Rightarrow> nat" where
  "levels k = Suc (length (dir_table k))"

definition read_conf :: "world \<Rightarrow> path \<Rightarrow> ('z, bool) lstep" where
  "read_conf w f k = on_conf (include_conf (levels k) (see k w) False f) k"

section \<open>Options of the command line\<close>

definition init_registration :: "string list \<times> has_arg \<times> string \<times> string" where
  "init_registration = ([''--init''], kNoArg, ''Create initial configuration files and exit'', [])"

definition u_registration :: "string list \<times> has_arg \<times> string \<times> string" where
  "u_registration =
     ([''-u''], kNoArg,
      ''Clean up sandbox state and exit.  Removes per-jail private'' @ [NL] @
      ''home directories ($JAIM_CONFIG_DIR/<jail>.home/) and any stray'' @ [NL] @
      ''private tmp directories left behind by prior invocations.  With'' @ [NL] @
      ''-j NAME, only that jail is cleaned.'', [])"

definition setup_registrations :: "(string list \<times> has_arg \<times> string \<times> string) list" where
  "setup_registrations =
     [([''--setup-user''], kNoArg,
       ''Create the _jaim system user (uid < 500, home /var/empty,'' @ [NL] @
       ''shell /usr/bin/false) via dscl, then exit.  Required once per'' @ [NL] @
       ''host before strict-mode UID separation can drop privileges.'' @ [NL] @
       ''Must be run as root (e.g. sudo jaim --setup-user).  Idempotent.'', []),
      ([''--remove-user''], kNoArg,
       ''Remove the _jaim system user and its primary group via'' @ [NL] @
       ''dscl, then exit.  Must be run as root.  Idempotent: succeeds'' @ [NL] @
       ''whether the account is present or not.'', []),
      ([''--setup-setuid''], kNoArg,
       ''Install the running jaim binary as setuid root (chown'' @ [NL] @
       ''root:wheel, chmod 4555), then exit.  After this runs, any user'' @ [NL] @
       ''can run `jaim -m strict` without sudo: the kernel hands jaim'' @ [NL] @
       ''euid 0 at exec, do_main() drops effective uid back to the'' @ [NL] @
       ''invoking user immediately, and Config::exec() re-elevates only'' @ [NL] @
       ''inside the strict-mode block.  Mode 4555 (no write bits) makes'' @ [NL] @
       ''the binary tamper-resistant.  Must be run as root (e.g.'' @ [NL] @
       ''sudo jaim --setup-setuid).  Idempotent.'', [])]"

definition conf_registrations :: "(string list \<times> has_arg \<times> string \<times> string) list" where
  "conf_registrations =
     [([''-C'', ''--conf''], kArg,
       ''Use FILE as configuration file.  A file FILE with no '' @ [CHR 0x27] @ ''/'' @ [CHR 0x27, NL] @
       ''is relative to $JAIM_CONFIG_DIR if set, otherwise to ~/.jaim.'' @ [NL] @
       ''The default is CMD.conf if it exists, otherwise default.conf'', ''FILE''),
      ([''--conf?''], kArg, ''Like --conf, but no error if the file does not exist'', ''FILE'')]"

definition other_main_registrations :: "(string list \<times> has_arg \<times> string \<times> string) list" where
  "other_main_registrations =
     [([''--help''], kNoArg, [], []),
      ([''--version''], kNoArg, ''Print copyright and version then exit'', []),
      ([''--print-defaults''], kNoArg, ''Show default contents of $JAIM_CONFIG_DIR/.defaults'', [])]"

text \<open>The later registration of \<open>--conf\<close> takes the place of that of \<open>opt_parser\<close>.\<close>

definition main_options :: options where
  "main_options =
     fold add_registration
       ([init_registration, u_registration] @ setup_registrations @ conf_registrations @ other_main_registrations)
       (opt_parser False)"

definition usage :: "world \<Rightarrow> nat \<Rightarrow> ('d, 'a) pstep" where
  "usage w st =
     bind_s
       (if st \<noteq> 0 then report (RuntimeError (''Try '' @ filename (w_prog w) @ '' --help for more information.''))
        else say (''usage: '' @ filename (w_prog w) @ '' [OPTIONS] [CMD [ARG...]]'' @ [NL] @ help_text main_options)) (\<lambda>_.
       exit_with st)"

definition PACKAGE_STRING :: string where "PACKAGE_STRING = ''jaim 0.3-dev''"
definition PACKAGE_URL :: string where "PACKAGE_URL = ''https://github.com/jpresley/jaim/''"

definition version :: "('d, 'a) pstep" where
  "version =
     bind_s (say (PACKAGE_STRING @ [NL] @ PACKAGE_URL @ [NL, NL] @
       ''Copyright (C) 2026 David Mazieres (original jai)'' @ [NL] @ ''macOS port: jaim'' @ [NL, NL] @
       ''This program comes with NO WARRANTY, to the extent permitted by law.'' @ [NL] @
       ''You may redistribute it under the terms of the GNU General Public License'' @ [NL] @
       ''version 3 or later; see the file named COPYING for details.'')) (\<lambda>_. exit_with 0)"

definition print_defaults :: "('d, 'a) pstep" where
  "print_defaults = bind_s (say jaim_defaults) (\<lambda>_. exit_with 0)"

definition given_arg :: "string option \<Rightarrow> (string \<Rightarrow> ('d, 'a) pstep) \<Rightarrow> ('d, 'a) pstep" where
  "given_arg a f = (case a of Some x \<Rightarrow> f x | None \<Rightarrow> throw_s (LogicError ''option requires argument''))"

definition no_arg :: "string option \<Rightarrow> ('d, 'a) pstep \<Rightarrow> ('d, 'a) pstep" where
  "no_arg a m = (case a of None \<Rightarrow> m | Some _ \<Rightarrow> throw_s (LogicError ''option should not have argument''))"

definition main_action :: "world \<Rightarrow> string \<Rightarrow> string option \<Rightarrow> ('d, unit) pstep" where
  "main_action w name a =
     (if name = ''--init'' then no_arg a (update_s (\<lambda>k. k\<lparr>opt_init := True\<rparr>))
      else if name = ''-u'' then no_arg a (update_s (\<lambda>k. k\<lparr>opt_u := True\<rparr>))
      else if name = ''--setup-user'' then no_arg a (update_s (\<lambda>k. k\<lparr>opt_setup_user := True\<rparr>))
      else if name = ''--remove-user'' then no_arg a (update_s (\<lambda>k. k\<lparr>opt_remove_user := True\<rparr>))
      else if name = ''--setup-setuid'' then no_arg a (update_s (\<lambda>k. k\<lparr>opt_setup_setuid := True\<rparr>))
      else if name \<in> {''-C'', ''--conf'', ''--conf?''} then
        given_arg a (\<lambda>p. update_s (\<lambda>k. k\<lparr>opt_C := p\<rparr>))
      else if name = ''--help'' then no_arg a (usage w 0)
      else if name = ''--version'' then no_arg a version
      else if name = ''--print-defaults'' then no_arg a print_defaults
      else (\<lambda>k. on_conf (conf_action (levels k) (see k w) False name a) k))"

definition parse_command_line :: "world \<Rightarrow> string list \<Rightarrow> ('d, string list) pstep" where
  "parse_command_line w argv = parse_argv (main_action w) (opt_actions main_options) argv"

definition first_parse :: "world \<Rightarrow> string list \<Rightarrow> ('d, string list) pstep" where
  "first_parse w argv =
     bind_s (attempt (parse_command_line w argv)) (\<lambda>r.
       case r of
         Inr cmd \<Rightarrow> return_s cmd
       | Inl (OptionError m) \<Rightarrow> bind_s (report (OptionError m)) (\<lambda>_. usage w 2)
       | Inl e \<Rightarrow> throw_s e)"

section \<open>Before the configuration\<close>

definition drop_effective :: "('z, unit) mstep" where
  "drop_effective k =
     (if euid (proc k) = 0 \<and> ruid (proc k) \<noteq> 0 then
        or_syserr (''seteuid('' @ show_nat (ruid (proc k)) @ ''): cannot drop effective uid'')
          (sys_seteuid (ruid (proc k))) k
      else return_s () k)"

text \<open>\<open>Config::init_credentials\<close> also keeps the file mask.\<close>

definition begin_run :: "world \<Rightarrow> ('z, unit) lstep" where
  "begin_run w k =
     bind_s (on_conf (init_credentials (see k w))) (\<lambda>_. update_s (\<lambda>k. k\<lparr>old_umask := file_mask k\<rparr>)) k"

definition set_environ :: "string \<Rightarrow> string \<Rightarrow> ('z, unit) lstep" where
  "set_environ name v = update_s (\<lambda>k. k\<lparr>conf := (conf k)\<lparr>environ := putenv name v (environ (conf k))\<rparr>\<rparr>)"

definition set_pwd :: "world \<Rightarrow> ('z, unit) lstep" where
  "set_pwd w = bind_s (on_conf (cwd w)) (\<lambda>c. set_environ ''PWD'' c)"

text \<open>A step on the accounts, for the effective user.\<close>

definition on_accounts :: "('d, unit) astep \<Rightarrow> ('d, unit) pstep" where
  "on_accounts m k =
     (case m \<lparr>base = accounts k, caller = euid (proc k), printed = [], noted = []\<rparr> of
        (r, s) \<Rightarrow>
          (r, k\<lparr>accounts := base s, out_lines := out_lines k @ printed s,
                warned := warned k @ map RuntimeError (noted s)\<rparr>))"

text \<open>The actions that end the program early: whether there was one.\<close>

definition early_actions :: "'d process \<Rightarrow> surroundings \<Rightarrow> world \<Rightarrow> ('d, bool) pstep" where
  "early_actions P env w k =
     (if opt_u k then bind_s (teardown env w) (\<lambda>_. return_s True) k
      else if opt_setup_user k \<and> opt_remove_user k then
        throw_s (OptionError ''--setup-user and --remove-user are mutually exclusive'') k
      else if opt_setup_user k then
        bind_s (on_accounts (setup_jaim_user (p_accounts P))) (\<lambda>_. return_s True) k
      else if opt_remove_user k then
        bind_s (on_accounts (remove_jaim_user (p_accounts P))) (\<lambda>_. return_s True) k
      else if opt_setup_setuid k then
        bind_s (setup_setuid (p_exe P) (w_prog w)) (\<lambda>ls.
        bind_s (for_each ls say) (\<lambda>_. return_s True)) k
      else return_s False k)"

section \<open>The installed files\<close>

definition ensured_in :: "nat \<Rightarrow> path \<Rightarrow> path \<Rightarrow> string \<Rightarrow> ('z, nat) mstep" where
  "ensured_in me d f text = ensure_file me (create_warn (path_append d f)) d f text 384"

definition install :: "nat \<Rightarrow> path \<Rightarrow> path \<Rightarrow> string \<Rightarrow> ('z, unit) mstep" where
  "install me d f text = bind_s (ensured_in me d f text) (\<lambda>fd. ignore (sys_close fd))"

definition install_defaults :: "nat \<Rightarrow> world \<Rightarrow> ('z, unit) lstep" where
  "install_defaults me w =
     bind_s (make_home_jaim w) (\<lambda>_.
     bind_s (get_s (\<lambda>k. homejaimpath (conf k))) (\<lambda>d.
     bind_s (install me d ''.defaults'' jaim_defaults) (\<lambda>_.
     bind_s (install me d ''default.conf'' default_conf) (\<lambda>_.
     bind_s (install me d ''.jaimrc'' default_jaimrc) (\<lambda>_.
       install me d ''claude.conf'' default_claude_conf)))))"

definition init_files :: "nat \<Rightarrow> world \<Rightarrow> ('z, unit) lstep" where
  "init_files me w =
     bind_s (storage w) (\<lambda>d.
     bind_s (install me d ''default.jail'' default_jail) (\<lambda>_.
     bind_s (get_s (\<lambda>k. homejaimpath (conf k))) (\<lambda>hj.
     bind_s (say (''You can edit the configuration defaults in '' @ hj @ ''/.defaults.'')) (\<lambda>_.
       say (''Run '' @ filename (w_prog w) @
            '' --print-defaults to see the original contents of that file.'')))))"

section \<open>The configuration\<close>

text \<open>The file of the command, otherwise \<open>default.conf\<close>, which is tried twice.\<close>

definition find_conf :: "world \<Rightarrow> string list \<Rightarrow> ('d, unit) pstep" where
  "find_conf w cmd k =
     (if opt_C k \<noteq> [] then
        bind_s (read_conf w (opt_C k)) (\<lambda>found.
          if \<not> found then throw_s (RuntimeError (opt_C k @ '': no such configuration file'')) else return_s ()) k
      else
        bind_s
          (if cmd = [] \<or> \<not> name_ok (hd cmd) then return_s False
           else read_conf w (hd cmd @ ''.conf'')) (\<lambda>found.
          if found then return_s ()
          else
            bind_s (read_conf w ''default.conf'') (\<lambda>found.
              if found then return_s ()
              else bind_s (read_conf w ''default.conf'') (\<lambda>_. return_s ()))) k)"

definition jail_text :: "config \<Rightarrow> string" where
  "jail_text s =
     (if sandbox_name s = ''default'' then default_jail else ''mode '' @ show_mode (jail_mode s) @ [NL])"

definition default_name :: "('z, unit) lstep" where
  "default_name =
     when_s (\<lambda>k. sandbox_name (conf k) = []) (update_s (\<lambda>k. k\<lparr>conf := (conf k)\<lparr>sandbox_name := ''default''\<rparr>\<rparr>))"

text \<open>The file of the jail, through the descriptor that \<open>ensure_file\<close> gave.\<close>

definition read_jail :: "nat \<Rightarrow> world \<Rightarrow> ('z, unit) lstep" where
  "read_jail me w =
     bind_s (storage w) (\<lambda>d.
     bind_s (get_s conf) (\<lambda>s.
     bind_s (ensured_in me d (cat (sandbox_name s) ''.jail'') (jail_text s)) (\<lambda>fd.
     bind_s
       (\<lambda>k. case open_file k (path_append d (cat (sandbox_name s) ''.jail'')) of
          Inl e \<Rightarrow> (Inl (SysError e d), k)
        | Inr cf \<Rightarrow> on_conf (parse_config_fd (parse_conf_text (levels k) (see k w) True) cf) k) (\<lambda>_.
       ignore (sys_close fd)))))"

definition shell_command :: "config \<Rightarrow> string list" where
  "shell_command s = [if shell_path s = [] then ''/bin/sh'' else shell_path s]"

text \<open>From the first configuration file to the command that is run.\<close>

definition configure :: "nat \<Rightarrow> world \<Rightarrow> string list \<Rightarrow> string list \<Rightarrow> ('d, string list) pstep" where
  "configure me w argv cmd =
     bind_s (find_conf w cmd) (\<lambda>_.
     bind_s (parse_command_line w argv) (\<lambda>_.
     bind_s default_name (\<lambda>_.
     bind_s (read_jail me w) (\<lambda>_.
     bind_s (parse_command_line w argv) (\<lambda>_.
     bind_s (get_s conf) (\<lambda>s.
     bind_s (set_environ ''JAIM_JAIL'' (sandbox_name s)) (\<lambda>_.
     bind_s (set_environ ''JAIM_MODE'' (show_mode (jail_mode s))) (\<lambda>_.
       return_s (if cmd = [] then shell_command s else cmd)))))))))"

section \<open>The program\<close>

text \<open>All that comes before \<open>exec\<close>: the status of an early end, or the command to run.\<close>

definition before_exec ::
    "'d process \<Rightarrow> surroundings \<Rightarrow> world \<Rightarrow> string list \<Rightarrow> ('d, nat + string list) pstep" where
  "before_exec P env w argv =
     bind_s drop_effective (\<lambda>_.
     bind_s (begin_run w) (\<lambda>_.
       if length argv > 2 \<and> argv ! 1 = ''--complete'' then
         bind_s (complete w (complete_args (opt_actions main_options) 2 argv)) (\<lambda>n. return_s (Inl n))
       else
         bind_s (first_parse w argv) (\<lambda>cmd.
         bind_s (set_pwd w) (\<lambda>_.
         bind_s (early_actions P env w) (\<lambda>over.
           if over then return_s (Inl 0)
           else
             bind_s (install_defaults (p_pid P) w) (\<lambda>_.
             bind_s (get_s opt_init) (\<lambda>init.
               if init then bind_s (init_files (p_pid P) w) (\<lambda>_. return_s (Inl 0))
               else bind_s (configure (p_pid P) w argv cmd) (\<lambda>c. return_s (Inr c)))))))))"

definition do_main ::
    "'d process \<Rightarrow> surroundings \<Rightarrow> world \<Rightarrow> (path \<Rightarrow> bool) \<Rightarrow> (child_end \<Rightarrow> 'd invocation \<Rightarrow> 'd invocation) \<Rightarrow>
     wait_event list \<Rightarrow> string list \<Rightarrow> ('d, main_end) pstep" where
  "do_main P env w runs command events argv =
     bind_s (before_exec P env w argv) (\<lambda>r.
       case r of
         Inl n \<Rightarrow> return_s (Exits n)
       | Inr cmd \<Rightarrow> bind_s (exec env w runs command events cmd) (\<lambda>e. return_s (Ran e)))"

text \<open>\<open>main\<close>: an error that is left is printed, and the status is 1.\<close>

definition run_main ::
    "'d process \<Rightarrow> surroundings \<Rightarrow> world \<Rightarrow> (path \<Rightarrow> bool) \<Rightarrow> (child_end \<Rightarrow> 'd invocation \<Rightarrow> 'd invocation) \<Rightarrow>
     wait_event list \<Rightarrow> string list \<Rightarrow> 'd invocation \<Rightarrow> main_end \<times> 'd invocation" where
  "run_main P env w runs command events argv k =
     (case do_main P env w runs command events argv k of
        (Inr e, k') \<Rightarrow> (e, k')
      | (Inl e, k') \<Rightarrow>
          (case ended k' of
             Some n \<Rightarrow> (Exits n, k')
           | None \<Rightarrow> (Exits 1, k'\<lparr>warned := warned k' @ [e]\<rparr>)))"

end
