(* ===== verification/Defaults_Theorems.thy ===== *)
theory Defaults_Theorems
  imports Defaults Environment
begin

text \<open>
  What the installed \<open>.defaults\<close> does: reading it takes no decision away from the user, masks the
  files with credentials and has_pattern the variables with secrets.
\<close>

section \<open>A text as its lines\<close>

definition line_ok :: "string \<Rightarrow> bool" where
  "line_ok l \<longleftrightarrow> NL \<notin> set l \<and> CR \<notin> set l \<and> (l = [] \<or> last l \<noteq> BS)"

definition directives :: "string list \<Rightarrow> string list" where
  "directives ls = List.map_filter (\<lambda>l. fst (lex_directive l)) ls"

text \<open>The lexer stops at the end of a line.\<close>

lemma lex_value_line:
  "NL \<notin> set l \<Longrightarrow> CR \<notin> set l \<Longrightarrow> (if l = [] then \<not> esc else last l \<noteq> BS) \<Longrightarrow>
   lex_value esc le acc l = (v, le', r) \<Longrightarrow> lex_value esc le acc (l @ NL # rest) = (v, le', NL # rest)"
  by (induction esc le acc l rule: lex_value.induct) (auto split: if_splits)

lemma dropWhile_line:
  "\<not> P NL \<Longrightarrow> dropWhile P (l @ NL # rest) = dropWhile P l @ NL # rest"
  by (induction l) auto

lemma takeWhile_line: "\<not> P NL \<Longrightarrow> takeWhile P (l @ NL # rest) = takeWhile P l"
  by (induction l) auto

lemma dropWhile_line_ok: "line_ok l \<Longrightarrow> line_ok (dropWhile P l)"
proof -
  assume l: "line_ok l"
  obtain p where "l = p @ dropWhile P l" using takeWhile_dropWhile_id by metis
  then have "dropWhile P l \<noteq> [] \<Longrightarrow> last (dropWhile P l) = last l" by (metis last_appendR)
  with l show ?thesis unfolding line_ok_def by (cases "dropWhile P l = []") (auto dest: set_dropWhileD)
qed

lemma drop_comment: "NL \<notin> set l \<Longrightarrow> dropWhile (\<lambda>c. c \<noteq> NL) (l @ NL # rest) = NL # rest"
  by (induction l) auto

lemma lex_directive_line:
  assumes l: "line_ok l" and s: "dropWhile is_wsnl l \<noteq> []"
  shows "lex_directive (l @ NL # rest) = (fst (lex_directive l), NL # rest)"
proof -
  define s0 where "s0 = dropWhile is_wsnl l"
  define r0 where "r0 = dropWhile is_ws (dropWhile (\<lambda>c. \<not> is_wsnleq c) s0)"
  have s0: "dropWhile is_wsnl (l @ NL # rest) = s0 @ NL # rest" "s0 \<noteq> []"
    using s by (auto simp: s0_def dropWhile_append1)
  have nl: "\<not> is_ws NL" "is_wsnleq NL" by (simp_all add: is_ws_def is_wsnleq_def is_wsnl_def)
  have r0: "dropWhile is_ws (dropWhile (\<lambda>c. \<not> is_wsnleq c) (s0 @ NL # rest)) = r0 @ NL # rest"
    using nl by (simp add: r0_def dropWhile_line)
  have tw: "takeWhile (\<lambda>c. \<not> is_wsnleq c) (s0 @ NL # rest) = takeWhile (\<lambda>c. \<not> is_wsnleq c) s0"
    using nl by (simp add: takeWhile_line)
  have ok: "line_ok r0" unfolding r0_def s0_def by (intro dropWhile_line_ok l)
  have comment: "dropWhile (\<lambda>c. c \<noteq> NL) (s0 @ NL # rest) = NL # rest"
    using dropWhile_line_ok [OF l, of is_wsnl] by (intro drop_comment) (simp add: s0_def line_ok_def)
  obtain v le' r where v: "lex_value False False (if hd r0 \<noteq> EQUALS then
      (''--'' @ takeWhile (\<lambda>c. \<not> is_wsnleq c) s0) @ [EQUALS] else ''--'' @ takeWhile (\<lambda>c. \<not> is_wsnleq c) s0) r0
      = (v, le', r)" by (meson prod_cases3)
  have v': "lex_value False False (if hd r0 \<noteq> EQUALS then
      (''--'' @ takeWhile (\<lambda>c. \<not> is_wsnleq c) s0) @ [EQUALS] else ''--'' @ takeWhile (\<lambda>c. \<not> is_wsnleq c) s0)
      (r0 @ NL # rest) = (v, le', NL # rest)"
    by (rule lex_value_line [OF _ _ _ v]) (use ok in \<open>auto simp: line_ok_def\<close>)
  have "NL \<notin> set r0" using ok by (simp add: line_ok_def)
  then have hd: "r0 \<noteq> [] \<Longrightarrow> hd r0 \<noteq> NL" by (cases r0) auto
  show ?thesis
    unfolding lex_directive_def Let_def s0(1) r0 tw comment s0_def [symmetric] r0_def [symmetric]
    using s0(2) v v' hd
    by (cases "r0 = []"; cases "hd r0 = EQUALS") (simp_all del: lex_value.simps)
qed

lemma parse_loop_newline: "parse_loop run acts e t (NL # rest) = parse_loop run acts e t rest"
proof (cases "rest = []")
  case False
  have "lex_directive (NL # rest) = lex_directive rest" by (simp add: lex_directive_def is_wsnl_def)
  then show ?thesis using False by (simp add: parse_loop.simps [of _ _ _ _ "NL # rest"] parse_loop.simps [of _ _ _ _ rest])
qed (simp add: parse_loop_blank parse_loop.simps [of _ _ _ _ "[]"])

lemma parse_loop_line:
  assumes "line_ok l"
  shows "parse_loop run acts e t (l @ NL # rest) =
    (case fst (lex_directive l) of
       None \<Rightarrow> parse_loop run acts e t rest
     | Some d \<Rightarrow> bind_s (catch_s (locate_error e t (NL # rest)) (parse_argspan run acts [d]))
                 (\<lambda>_. parse_loop run acts e t rest))"
proof (cases "dropWhile is_wsnl l = []")
  case True
  then have "dropWhile is_wsnl (l @ NL # rest) = dropWhile is_wsnl rest" by (auto simp: is_wsnl_def dropWhile_append)
  then have "lex_directive (l @ NL # rest) = lex_directive rest" by (simp add: lex_directive_def)
  moreover have "fst (lex_directive l) = None" using True by (simp add: lex_directive_def)
  moreover have "lex_directive [] = (None, [])" by (simp add: lex_directive_def)
  ultimately show ?thesis
    by (cases "rest = []")
      (simp_all add: parse_loop.simps [of _ _ _ _ "l @ NL # rest"] parse_loop.simps [of _ _ _ _ rest]
        parse_loop.simps [of _ _ _ _ "[]"] parse_loop.simps [of _ _ _ _ "l @ [NL]"])
next
  case False
  then show ?thesis
    using parse_loop_newline [of run acts e t rest]
    by (simp add: parse_loop.simps [of _ _ _ _ "l @ NL # rest"] lex_directive_line [OF assms] split: option.split)
qed

text \<open>Directives that succeed are all there is to a text.\<close>

primrec run_directives ::
    "(string \<Rightarrow> string option \<Rightarrow> ('s, unit) step) \<Rightarrow> actions \<Rightarrow> string list \<Rightarrow> ('s, unit) step" where
  "run_directives run acts [] = return_s ()"
| "run_directives run acts (d # ds) =
     bind_s (parse_argspan run acts [d]) (\<lambda>_. run_directives run acts ds)"

lemma catch_Inr: "m s = (Inr a, t) \<Longrightarrow> catch_s h m s = (Inr a, t)"
  by (simp add: catch_s_def)

lemma parse_lines:
  "list_all line_ok ls \<Longrightarrow> run_directives run acts (directives ls) s = (Inr (), t) \<Longrightarrow>
   parse_loop run acts e u (unlines ls) s = (Inr (), t)"
proof (induction ls arbitrary: s)
  case Nil
  then show ?case by (simp add: unlines_def directives_def parse_loop.simps [of _ _ _ _ "[]"] map_filter_def)
next
  case (Cons l ls)
  show ?case
  proof (cases "fst (lex_directive l)")
    case None
    then show ?thesis
      using Cons by (simp add: unlines_def parse_loop_line directives_def map_filter_def)
  next
    case (Some d)
    then obtain p s' where "parse_argspan run acts [d] s = (Inr p, s')"
        "run_directives run acts (directives ls) s' = (Inr (), t)"
      using Cons.prems(2)
      by (auto simp: directives_def map_filter_def bind_s_def split: prod.splits sum.splits)
    then show ?thesis
      using Cons Some
      by (simp add: unlines_def parse_loop_line bind_s_def catch_Inr)
  qed
qed


section \<open>The directives\<close>

definition credential_masks :: "string list" where
  "credential_masks =
     [''.jaim'', ''.ssh'', ''.gnupg'', ''.local/share/keyrings'', ''.netrc'', 
      ''.git-credentials'', ''.aws'', ''.azure'', ''.config/gcloud'', ''.config/gh'', 
      ''.config/Keybase'', ''.kube'', ''.docker'', ''.password-store'', ''.pgpass'', 
      ''.my.cnf'', ''.npmrc'', ''.yarnrc'', ''.yarnrc.yml'', ''.pypirc'', 
      ''.cargo/credentials.toml'', ''.gem/credentials'', ''.hex/hex.config'', 
      ''.config/helm/repositories.yaml'', ''.config/rclone/rclone.conf'', ''.mozilla'', 
      ''.config/BraveSoftware'', ''.config/chromium'', ''.config/google-chrome'', 
      ''.config/mozilla'']"

definition browser_masks :: "string list" where
  "browser_masks =
     [''Library/Safari'', ''Library/Cookies'', ''Library/Keychains'', 
      ''Library/Application Support/Google/Chrome'', 
      ''Library/Application Support/Firefox'', 
      ''Library/Application Support/BraveSoftware'', 
      ''Library/Application Support/com.microsoft.edgemac'', 
      ''Library/Application Support/Vivaldi'', ''Library/Application Support/Arc'', 
      ''.bash_history'', ''.zsh_history'', ''.local/share/fish/fish_history'', 
      ''.local/share/nushell/history.txt'', ''.local/share/nushell/history.sqlite3'', 
      ''.xonsh_history'']"

definition name_patterns :: "string list" where
  "name_patterns =
     [''*_ACCESS_KEY'', ''*_APIKEY'', ''*_API_KEY'', ''*_AUTH'', ''*_AUTH_TOKEN'', 
      ''*_CONNECTION_STRING'', ''*_CREDENTIAL'', ''*_CREDENTIALS'', ''*_PASSWD'', 
      ''*_PASSWORD'', ''*_PID'', ''*_PRIVATE_KEY'', ''*_PWD'', ''*_SECRET'', 
      ''*_SECRET_KEY'', ''*_SOCK'', ''*_SOCKET'', ''*_SOCKET_PATH'', ''*_TOKEN'']"

definition url_names :: "string list" where
  "url_names =
     [''AMQP_URL'', ''AZURE_CLIENT_ID'', ''AZURE_TENANT_ID'', ''BB_AUTH_STRING'', 
      ''CELERY_BROKER_URL'', ''CLICKHOUSE_URL'', ''DATABASE_URI'', ''DATABASE_URL'', 
      ''DSN'', ''ELASTICSEARCH_URL'', ''GOOGLE_APPLICATION_CREDENTIALS'', ''INFLUXDB_URL'', 
      ''KUBECONFIG'', ''MAIL'', ''MONGODB_URI'', ''MONGO_URI'', ''MONGO_URL'', 
      ''RABBITMQ_URL'', ''REDIS_URI'', ''REDIS_URL'', ''SENTRY_DSN'', ''SLACK_WEBHOOK_URL'']"

lemma default_lines:
  "list_all line_ok (about_defaults @ default_command @ masked_credentials @ masked_browsers @
     stripped_names @ stripped_urls @ default_settings)"
  by code_simp

definition setting :: "string \<Rightarrow> string \<Rightarrow> string" where
  "setting name v = ''--'' @ name @ [EQUALS] @ v"

lemma default_directives:
  "directives about_defaults = []"
  "directives default_command =
     [setting ''script?'' ''.jaimrc'',
      setting ''command'' (''source '' @ [DQ] @ ''${JAIM_SCRIPT:-/dev/null}'' @ [DQ] @ ''; '' @
        [DQ] @ ''$0'' @ [DQ] @ '' '' @ [DQ] @ ''$@'' @ [DQ])]"
  "directives masked_credentials = map (setting ''mask'') credential_masks"
  "directives masked_browsers = map (setting ''mask'') browser_masks"
  "directives stripped_names = map (setting ''unsetenv'') name_patterns"
  "directives stripped_urls = map (setting ''unsetenv'') url_names"
  "directives default_settings =
     [setting ''setenv'' ''USER=${JAIM_USER}'', setting ''setenv'' ''LOGNAME=${JAIM_USER}'']"
  by code_simp+

lemma directives_append: "directives (a @ b) = directives a @ directives b"
  by (simp add: directives_def map_filter_def)


section \<open>Their effect\<close>

definition same_choices :: "config \<Rightarrow> config \<Rightarrow> bool" where
  "same_choices s t \<longleftrightarrow>
     jail_mode t = jail_mode s \<and> sandbox_name t = sandbox_name s \<and> storagedir t = storagedir s \<and>
     jaiminit t = jaiminit s \<and> grant_cwd t = grant_cwd s \<and>
     grant_directories t = grant_directories s \<and> grant_files t = grant_files s \<and>
     environ t = environ s"

definition has_mask :: "path \<Rightarrow> config \<Rightarrow> bool" where
  "has_mask m t \<longleftrightarrow> os_mem path_less m (mask_files t)"

definition has_pattern :: "string \<Rightarrow> config \<Rightarrow> bool" where
  "has_pattern p t \<longleftrightarrow> p \<in> set (os_elems (env_filter t))"

definition shields :: "path list \<Rightarrow> string list \<Rightarrow> config \<Rightarrow> bool" where
  "shields ms ps t \<longleftrightarrow>
     (\<forall>m \<in> set ms. has_mask m t) \<and> (\<forall>p \<in> set ps. has_pattern p t)"

definition shielded :: "config \<Rightarrow> path list \<Rightarrow> string list \<Rightarrow> config \<Rightarrow> bool" where
  "shielded s ms ps t \<longleftrightarrow> same_choices s t \<and> shields ms ps t"

lemma argspan_setting:
  assumes "EQUALS \<notin> set n" and "action_of acts (''--'' @ n) = Some kArg"
  shows "parse_argspan run acts [setting n v] = bind_s (run (''--'' @ n) (Some v)) (\<lambda>_. return_s [])"
proof -
  have n: "list_all (\<lambda>c. c \<noteq> EQUALS) n" using assms(1) by (auto simp: list_all_iff)
  have "before_char EQUALS (setting n v) = ''--'' @ n" "after_char EQUALS (setting n v) = v"
    using takeWhile_name [OF n, of EQUALS v] by (simp_all add: setting_def before_char_def after_char_def)
  then have "scan_arg acts (setting n v) = [item kOptionArg (''--'' @ n) v]"
    using assms by (simp add: scan_arg_def scan_long_def) (simp add: setting_def)
  then show ?thesis
    by (simp add: parse_argspan_def scan_args_def exec_item_def bind_s_def return_s_def fun_eq_iff
        split: prod.split sum.split)
qed

lemma default_options:
  assumes "n \<in> {''mask'', ''unsetenv'', ''setenv'', ''command'', ''script?''}"
  shows "action_of (opt_actions (opt_parser dotjail)) (''--'' @ n) = Some kArg" and "EQUALS \<notin> set n"
proof -
  show "action_of (opt_actions (opt_parser dotjail)) (''--'' @ n) = Some kArg"
    unfolding opt_parser_def lookup_registrations using assms
    by (auto simp: find_registration_def file_registrations_def jail_registration_def other_registrations_def)
  show "EQUALS \<notin> set n" using assms by auto
qed

lemma os_mem_insert:
  "os_mem path_less p (os_insert path_less p xs)"
  "os_mem path_less m xs \<Longrightarrow> os_mem path_less m (os_insert path_less p xs)"
proof -
  show p: "os_mem path_less p (os_insert path_less p xs)" by (simp add: path_order.lookup_emplace_same)
  show "os_mem path_less m (os_insert path_less p xs)" if "os_mem path_less m xs"
  proof (cases "path_order.eqv m p")
    case True
    then show ?thesis using p path_order.lookup_eqv by metis
  next
    case False
    then show ?thesis using that by (simp add: path_order.lookup_emplace_other)
  qed
qed

lemma has_mask_insert:
  "has_mask p (s\<lparr>mask_files := os_insert path_less p (mask_files s)\<rparr>)"
  "has_mask m s \<Longrightarrow> has_mask m (s\<lparr>mask_files := os_insert path_less p (mask_files s)\<rparr>)"
  using os_mem_insert(1) [of p "mask_files s"] os_mem_insert(2) [of m "mask_files s" p]
  by (simp_all add: has_mask_def)

lemma has_pattern_insert: "has_pattern q (s\<lparr>setenv_map := e, env_filter := os_insert str_less p (env_filter s)\<rparr>) \<longleftrightarrow> q = p \<or> has_pattern q s"
  using str_order.emplace_elems [of p "()" "env_filter s"] by (simp add: has_pattern_def)

lemma has_pattern_other [simp]: "has_pattern p (setenv_map_update f s) = has_pattern p s"
  "has_pattern p (mask_files_update g s) = has_pattern p s" "has_pattern p (shellcmd_update h s) = has_pattern p s"
  "has_pattern p (script_inputs_update i s) = has_pattern p s" "has_pattern p (warnings_update i' s) = has_pattern p s"
  by (simp_all add: has_pattern_def)

lemma has_mask_other [simp]: "has_mask m (setenv_map_update f s) = has_mask m s"
  "has_mask m (env_filter_update g s) = has_mask m s" "has_mask m (shellcmd_update h s) = has_mask m s"
  "has_mask m (script_inputs_update i s) = has_mask m s" "has_mask m (warnings_update i' s) = has_mask m s"
  by (simp_all add: has_mask_def)

lemma mask_step:
  assumes "BS \<notin> set p" "CHR ''$'' \<notin> set p" "\<not> is_absolute p"
  shows "triple (shielded s ms ps) (conf_action n w dotjail ''--mask'' (Some p)) (\<lambda>_. shielded s (ms @ [p]) ps) (\<lambda>_. False)"
  using assms
  by (auto simp: triple_def conf_action_def run_option_def with_arg_def opt_mask_def has_mask_insert expand_def var_expand_plain
      update_s_def shielded_def shields_def same_choices_def)

lemma unsetenv_step:
  "triple (shielded s ms ps) (conf_action n w dotjail ''--unsetenv'' (Some p)) (\<lambda>_. shielded s ms (ps @ [p])) (\<lambda>_. False)"
  by (auto simp: triple_def conf_action_def run_option_def with_arg_def opt_unsetenv_def
      update_s_def shielded_def shields_def same_choices_def has_pattern_insert)


lemma setenv_step:
  "EQUALS \<in> set v \<Longrightarrow>
   triple (shielded s ms ps) (conf_action n w dotjail ''--setenv'' (Some v)) (\<lambda>_. shielded s ms ps) (\<lambda>_. False)"
  by (auto simp: triple_def conf_action_def run_option_def with_arg_def opt_setenv_def opt_setenv_assign_def
      warn_override_def warn_def update_s_def bind_s_def return_s_def shielded_def shields_def same_choices_def Let_def
      split: option.split)

lemma command_step:
  "triple (shielded s ms ps) (conf_action n w dotjail ''--command'' (Some v)) (\<lambda>_. shielded s ms ps) (\<lambda>_. False)"
  by (auto simp: triple_def conf_action_def run_option_def with_arg_def opt_command_def
      update_s_def shielded_def shields_def same_choices_def)

lemma script_step:
  "triple (shielded s ms ps) (conf_action n w dotjail ''--script?'' (Some v)) (\<lambda>_. shielded s ms ps) (\<lambda>_. False)"
  by (auto simp: triple_def conf_action_def run_option_def with_arg_def opt_script_maybe_def ignore_errors_def
      resolve_arg_def push_script_def update_s_def bind_s_def get_s_def return_s_def throw_s_def lift_s_def
      shielded_def shields_def same_choices_def split: sum.split)

lemma triple_total:
  fixes m :: "('s, 'e, unit) estep"
  assumes "triple P m (\<lambda>_. Q) (\<lambda>_. False)" and "P s"
  shows "\<exists>t. m s = (Inr (), t) \<and> Q t"
proof -
  obtain r t where m: "m s = (r, t)" by (cases "m s")
  show ?thesis
  proof (cases r)
    case (Inl e)
    then show ?thesis using triple_Inl [OF assms] m by blast
  next
    case (Inr u)
    then show ?thesis using triple_Inr [OF assms] m by auto
  qed
qed

lemma run_setting:
  assumes "n \<in> {''mask'', ''unsetenv'', ''setenv'', ''command'', ''script?''}"
    and "triple P (run (''--'' @ n) (Some v)) (\<lambda>_. Q) (\<lambda>_. False)"
  shows "triple P (parse_argspan run (opt_actions (opt_parser dotjail)) [setting n v]) (\<lambda>_. Q) (\<lambda>_. False)"
  unfolding argspan_setting [OF default_options(2,1) [OF assms(1)]]
  by (rule triple_bind [OF assms(2)]) (simp add: triple_return)

lemma triple_run_directives:
  assumes "\<And>d ms. d \<in> set ds \<Longrightarrow> triple (P ms) (parse_argspan run acts [f d]) (\<lambda>_. P (ms @ [d])) (\<lambda>_. False)"
  shows "triple (P ms) (run_directives run acts (map f ds)) (\<lambda>_. P (ms @ ds)) (\<lambda>_. False)"
  using assms
proof (induction ds arbitrary: ms)
  case (Cons d ds)
  have "triple (P (ms @ [d])) (run_directives run acts (map f ds)) (\<lambda>_. P ((ms @ [d]) @ ds)) (\<lambda>_. False)"
    by (rule Cons.IH) (simp add: Cons.prems)
  then show ?case using triple_bind [OF Cons.prems [of d ms]] by simp
qed (simp add: triple_return)

lemma triple_run_same:
  "(\<And>d. d \<in> set ds \<Longrightarrow> triple I (parse_argspan run acts [d]) (\<lambda>_. I) (\<lambda>_. False)) \<Longrightarrow>
   triple I (run_directives run acts ds) (\<lambda>_. I) (\<lambda>_. False)"
  by (induction ds) (auto intro: triple_return triple_bind)

lemma run_append:
  "run_directives run acts (a @ b) = bind_s (run_directives run acts a) (\<lambda>_. run_directives run acts b)"
  by (induction a) (auto simp: bind_s_def return_s_def fun_eq_iff split: prod.split sum.split)

lemma plain_masks:
  "\<forall>m \<in> set (credential_masks @ browser_masks). BS \<notin> set m \<and> CHR ''$'' \<notin> set m \<and> \<not> is_absolute m"
  unfolding list_all_iff [symmetric] by code_simp

lemma defaults_run:
  "triple (shielded s [] []) (run_directives (conf_action n w dotjail) (opt_actions (opt_parser dotjail))
     (directives (about_defaults @ default_command @ masked_credentials @ masked_browsers @
        stripped_names @ stripped_urls @ default_settings)))
     (\<lambda>_. shielded s (credential_masks @ browser_masks) (name_patterns @ url_names)) (\<lambda>_. False)"
proof -
  let ?R = "run_directives (conf_action n w dotjail) (opt_actions (opt_parser dotjail))"
  let ?T = "\<lambda>ms ps ds ms' ps'. triple (shielded s ms ps) (?R ds) (\<lambda>_. shielded s ms' ps') (\<lambda>_. False)"
  have masks: "?T ms ps (map (setting ''mask'') ds) (ms @ ds) ps"
    if "set ds \<subseteq> set (credential_masks @ browser_masks)" for ms ps ds
    by (rule triple_run_directives [where P = "\<lambda>ms. shielded s ms ps"], rule run_setting)
      (use that plain_masks mask_step in auto)
  have has_pattern: "?T ms ps (map (setting ''unsetenv'') ds) ms (ps @ ds)" for ms ps ds
    by (rule triple_run_directives [where P = "\<lambda>ps. shielded s ms ps"], rule run_setting)
      (use unsetenv_step in auto)
  have command: "?T [] [] (directives default_command) [] []"
    unfolding default_directives
    by (rule triple_run_same) (auto simp: script_step command_step intro!: run_setting)
  have settings: "?T ms ps (directives default_settings) ms ps" for ms ps
    unfolding default_directives
    by (rule triple_run_same) (auto simp: setenv_step intro!: run_setting)
  show ?thesis
    unfolding directives_append run_append default_directives(1,3,4,5,6)
    using masks [of credential_masks "[]" "[]"] masks [of browser_masks credential_masks "[]"]
      has_pattern [of "credential_masks @ browser_masks" "[]" name_patterns]
      has_pattern [of "credential_masks @ browser_masks" name_patterns url_names]
    by (auto intro!: triple_bind [OF triple_return] triple_bind [OF command] settings intro: triple_bind)
qed


text \<open>What the filter covers.\<close>

lemma has_pattern_filtered:
  "has_pattern p t \<Longrightarrow> (if CHR ''*'' \<in> set p then glob p v else p = v) \<Longrightarrow> filtered t v"
  unfolding filtered_iff has_pattern_def by blast

text \<open>C19: reading the installed \<open>.defaults\<close> never fails, whatever has been configured before; afterwards
  every listed file with credentials, keys or browser data is masked and every variable whose name
  has a listed ending or is listed is kept from the command; mode, name of the jail, storage, grants
  and the environment of the process are what they were.
\<close>

theorem shipped_defaults_protect:
  "\<exists>t. parse_conf_text n w dotjail jaim_defaults ld s = (Inr (), t) \<and>
     (\<forall>m \<in> set (credential_masks @ browser_masks). os_mem path_less m (mask_files t)) \<and>
     (\<forall>v. (\<exists>p \<in> set name_patterns. glob p v) \<or> v \<in> set url_names \<longrightarrow> filtered t v) \<and> same_choices s t"
proof -
  let ?R = "run_directives (conf_action n w dotjail) (opt_actions (opt_parser dotjail))"
  let ?ds = "directives (about_defaults @ default_command @ masked_credentials @ masked_browsers @
      stripped_names @ stripped_urls @ default_settings)"
  have "shielded s [] [] s" by (simp add: shielded_def shields_def same_choices_def)
  with triple_total [OF defaults_run [of s n w dotjail]] obtain t where t: "?R ?ds s = (Inr (), t)"
      "shielded s (credential_masks @ browser_masks) (name_patterns @ url_names) t"
    by blast
  have "parse_conf_text n w dotjail jaim_defaults ld s = (Inr (), t)"
    unfolding parse_conf_text_def parse_file_def
    by (subst jaim_defaults_def) (rule parse_lines [OF default_lines t(1), folded jaim_defaults_def])
  moreover have stars: "\<forall>p \<in> set name_patterns. CHR ''*'' \<in> set p" "\<forall>p \<in> set url_names. CHR ''*'' \<notin> set p"
    unfolding list_all_iff [symmetric] by code_simp+
  moreover have "filtered t v" if v: "(\<exists>p \<in> set name_patterns. glob p v) \<or> v \<in> set url_names" for v
    using v
  proof (elim disjE bexE)
    fix p assume "p \<in> set name_patterns" "glob p v"
    with t(2) stars show ?thesis by (intro has_pattern_filtered [of p]) (auto simp: shielded_def shields_def)
  next
    assume "v \<in> set url_names"
    with t(2) stars show ?thesis by (intro has_pattern_filtered [of v]) (auto simp: shielded_def shields_def)
  qed
  ultimately show ?thesis
    using t(2) by (auto simp: shielded_def shields_def has_mask_def simp del: not_None_eq)
qed

text \<open>What a user gets who changes nothing: keys stay unreadable, tokens stay behind.\<close>

theorem shipped_defaults_protect_witness:
  "\<exists>t. parse_conf_text 0 sample_world False jaim_defaults ''.defaults'' (initial_config []) = (Inr (), t) \<and>
     os_mem path_less ''.ssh'' (mask_files t) \<and> filtered t ''AWS_SECRET_ACCESS_KEY'' \<and> filtered t ''DATABASE_URL'' \<and>
     jail_mode t = kStrict"
proof -
  have m: "''.ssh'' \<in> set (credential_masks @ browser_masks)" and u: "''DATABASE_URL'' \<in> set url_names"
    by code_simp+
  have "''*_ACCESS_KEY'' \<in> set name_patterns" "glob ''*_ACCESS_KEY'' ''AWS_SECRET_ACCESS_KEY''" by code_simp+
  then have g: "\<exists>p \<in> set name_patterns. glob p ''AWS_SECRET_ACCESS_KEY''" by blast
  obtain t where "parse_conf_text 0 sample_world False jaim_defaults ''.defaults'' (initial_config []) = (Inr (), t)"
    and "\<forall>m \<in> set (credential_masks @ browser_masks). os_mem path_less m (mask_files t)"
    and f: "\<forall>v. (\<exists>p \<in> set name_patterns. glob p v) \<or> v \<in> set url_names \<longrightarrow> filtered t v"
    and "same_choices (initial_config []) t"
    using shipped_defaults_protect [of 0 sample_world False "''.defaults''" "initial_config []"] by blast
  moreover have "jail_mode (initial_config []) = kStrict" by (simp add: initial_config_def)
  ultimately show ?thesis using m f [rule_format, OF disjI1 [OF g]] f [rule_format, OF disjI2 [OF u]]
    unfolding same_choices_def by metis
qed

end
