(* ===== verification/Ensure_Theorems.thy ===== *)
theory Ensure_Theorems
  imports Ensure Fuse_Paths Acl_Theorems
begin

text \<open>
  What \<open>ensure_file\<close> leaves behind, whichever of its calls fail: nothing but the file changes, apart
  from the name of the temporary file, and the file is never there with a part of its contents.
\<close>

section \<open>Calls\<close>

lemma triple_syscall:
  assumes "\<And>s q. P s \<Longrightarrow> R (s\<lparr>plans := q\<rparr>)"
    and "\<And>s q. P s \<Longrightarrow> (case m (s\<lparr>plans := q\<rparr>) of (Inr a, t) \<Rightarrow> Q a t | (Inl e, t) \<Rightarrow> R t)"
  shows "triple P (syscall m) Q R"
  unfolding triple_def
proof (intro allI impI)
  fix s assume P: "P s"
  have "s = s\<lparr>plans := plans s\<rparr>" by simp
  with assms(2) [OF P, of "plans s"] assms(1) [OF P] assms(2) [OF P]
  show "case syscall m s of (Inr a, t) \<Rightarrow> Q a t | (Inl e, t) \<Rightarrow> R t"
    by (auto simp: syscall_def split: list.split plan.split)
qed

lemma syscall_run:
  assumes "syscall m s = (r, t)"
  shows "(\<exists>e q. r = Inl e \<and> t = s\<lparr>plans := q\<rparr>) \<or> (\<exists>q. m (s\<lparr>plans := q\<rparr>) = (r, t))"
proof (cases "plans s")
  case Nil
  with assms have "m s = (r, t)" by (simp add: syscall_def)
  then have "m (s\<lparr>plans := plans s\<rparr>) = (r, t)" by simp
  then show ?thesis by blast
next
  case (Cons p ps)
  with assms show ?thesis by (cases p) (auto simp: syscall_def)
qed

lemma at_path_run:
  assumes "at_path p follow f s = (r, t)"
  shows "(\<exists>e q. r = Inl e \<and> t = s\<lparr>plans := q\<rparr>) \<or>
    (\<exists>l q. lookup_path s p follow = Inr l \<and> f l (s\<lparr>plans := q\<rparr>) = (r, t))"
  using syscall_run [OF assms [unfolded at_path_def]] by (cases "lookup_path s p follow") auto

lemma triple_finish:
  assumes "triple P m Q R" and "\<And>s. R s \<Longrightarrow> S (snd (c s))"
  shows "triple P (on_error m c) Q S"
  unfolding triple_def on_error_def
proof (intro allI impI)
  fix s assume "P s"
  with triple_Inr [OF assms(1)] triple_Inl [OF assms(1)] assms(2)
  show "case (case m s of (Inl e, t) \<Rightarrow> (Inl e, snd (c t)) | (Inr a, t) \<Rightarrow> (Inr a, t)) of
      (Inr a, t) \<Rightarrow> Q a t | (Inl e, t) \<Rightarrow> S t"
    by (cases "m s", cases "fst (m s)") auto
qed

lemma triple_if: "(C \<Longrightarrow> triple P m Q R) \<Longrightarrow> (\<not> C \<Longrightarrow> triple P n Q R) \<Longrightarrow> triple P (if C then m else n) Q R"
  by simp

lemma keeps_sys:
  assumes "\<And>s q. I s \<Longrightarrow> I (s\<lparr>plans := q\<rparr>)" and "\<And>s. I s \<Longrightarrow> I (snd (m s))"
  shows "keeps I (syscall m)"
  unfolding keeps_def using assms by (auto simp: syscall_def split: list.split plan.split)

lemma keeps_sys_close:
  assumes "\<And>s q. I s \<Longrightarrow> I (s\<lparr>plans := q\<rparr>)" and "\<And>s. I s \<Longrightarrow> I (s\<lparr>fds := (fds s)(fd := None)\<rparr>)"
  shows "keeps I (sys_close fd)"
  unfolding sys_close_def by (rule keeps_sys) (simp_all add: assms)

lemma keeps_sys_open_read:
  assumes "\<And>s q. I s \<Longrightarrow> I (s\<lparr>plans := q\<rparr>)"
    and "\<And>s l i nd. I s \<Longrightarrow> entry s l = Some i \<Longrightarrow>
      I (s\<lparr>fds := (fds s)(next_fd s := Some (i, False)), next_fd := Suc (next_fd s)\<rparr>)"
  shows "keeps I (sys_open_read p)"
proof -
  have 1: "keeps I (sys_open p O_RDONLY 0)"
    unfolding sys_open_def at_path_def
    by (rule keeps_sys)
      (auto simp: assms new_fd_def O_RDONLY_def O_CREAT_def O_EXCL_def O_TRUNC_def O_WRONLY_def O_RDWR_def
        writable_flags_def has_flag_def split: sum.split option.split fkind.split)
  have 2: "keeps I (syscall (\<lambda>k. (Inl EACCES, k)))"
    by (rule keeps_sys) (simp_all add: assms)
  show ?thesis
    unfolding keeps_def sys_open_read_def
    using keepsD [OF 1] keepsD [OF 2] by (auto split: sum.split option.split)
qed


section \<open>What stays\<close>

definition intact :: "'z kernel_scheme \<Rightarrow> loc set \<Rightarrow> 'z kernel_scheme \<Rightarrow> bool" where
  "intact k0 A k \<longleftrightarrow>
     wf_kernel k \<and> next_ino k0 \<le> next_ino k \<and> (\<forall>m. m \<notin> A \<longrightarrow> entry k m = entry k0 m) \<and>
     (\<forall>i < next_ino k0. inodes k i = inodes k0 i)"

definition whole_file :: "string \<Rightarrow> loc \<Rightarrow> 'z kernel_scheme \<Rightarrow> bool" where
  "whole_file c l k \<longleftrightarrow> (\<exists>i nd. entry k l = Some i \<and> inodes k i = Some nd \<and> i_kind nd = Reg c)"

text \<open>The file or what was there, and the temporary file.\<close>

definition all_or_nothing :: "'z kernel_scheme \<Rightarrow> loc \<Rightarrow> loc \<Rightarrow> string \<Rightarrow> 'z kernel_scheme \<Rightarrow> bool" where
  "all_or_nothing k0 t l c k \<longleftrightarrow> intact k0 {t, l} k \<and> (entry k l = entry k0 l \<or> whole_file c l k)"

text \<open>The temporary file while it is written, with the descriptor \<open>fd\<close>.\<close>

definition in_work :: "'z kernel_scheme \<Rightarrow> loc \<Rightarrow> nat \<Rightarrow> string \<Rightarrow> 'z kernel_scheme \<Rightarrow> bool" where
  "in_work k0 t fd s k \<longleftrightarrow>
     intact k0 {t} k \<and>
     (\<exists>i nd. entry k t = Some i \<and> next_ino k0 \<le> i \<and> fds k fd = Some (i, True) \<and>
        inodes k i = Some nd \<and> i_kind nd = Reg s)"

lemma intact_plans [simp]: "intact k0 A (plans_update q k) = intact k0 A k"
  by (simp add: intact_def)

lemma in_work_plans [simp]: "in_work k0 t fd s (plans_update q k) = in_work k0 t fd s k"
  by (simp add: in_work_def)

lemma all_or_nothing_plans [simp]: "all_or_nothing k0 t l c (plans_update q k) = all_or_nothing k0 t l c k"
  by (simp add: all_or_nothing_def whole_file_def)

lemma intact_mono: "intact k0 A k \<Longrightarrow> A \<subseteq> B \<Longrightarrow> intact k0 B k"
  unfolding intact_def by blast

lemma intact_all_or_nothing: "intact k0 {t} k \<Longrightarrow> l \<noteq> t \<Longrightarrow> all_or_nothing k0 t l c k"
  unfolding all_or_nothing_def by (auto simp: intact_def)

lemma intact_fd:
  "intact k0 A k \<Longrightarrow> entry k m = Some i \<Longrightarrow>
   intact k0 A (k\<lparr>fds := (fds k)(fd := Some (i, w)), next_fd := n\<rparr>)"
  using entry_mem [of k m i] wf_kernelD(3) [of k m i] by (auto simp: intact_def intro: wf_fds)

lemma intact_close: "intact k0 A k \<Longrightarrow> intact k0 A (k\<lparr>fds := (fds k)(fd := None)\<rparr>)"
  by (auto simp: intact_def intro: wf_close)

lemma intact_dir:
  assumes "intact k0 A k" and "is_dir_at k0 d" and "wf_kernel k0" and "d \<notin> A"
  shows "is_dir_at k d"
proof -
  from is_dir_entry [OF assms(2)] obtain i where i: "entry k0 d = Some i" ..
  with entry_mem wf_kernelD(3) assms(3) have "i < next_ino k0" by blast
  with i assms show ?thesis by (simp add: is_dir_at_def kind_at_def node_def intact_def)
qed

text \<open>A directory is found where it was, so the names in it are.\<close>

lemma intact_lookup:
  assumes k: "intact k0 A k" and wf: "wf_kernel k0" and d: "is_dir_at k0 d"
    and free: "\<forall>a \<in> A. \<not> prefix a d" and c: "file_name c"
    and l: "lookup_path k (path_append (show_loc d) c) False = Inr m"
  shows "m = d @ [c]"
proof -
  have names: "list_all file_name d" using d entry_names [OF wf] is_dir_entry by blast
  then have each: "file_name n" if "n \<in> set d" for n using that by (simp add: list_all_iff)
  have plain: "plain_names d" unfolding plain_names_def using each by (auto simp: file_name_def)
  have "fuse_names d" unfolding fuse_names_def using plain each by (auto simp: file_name_def)
  then have pn: "path_names (show_loc d) = d" by (rule path_names_show_loc)
  have nolink: "\<forall>t. kind_at k q \<noteq> Some (Lnk t)" if q: "prefix q d" for q
  proof -
    obtain i where i: "entry k0 d = Some i" using is_dir_entry [OF d] ..
    have "is_dir_at k0 q"
      using q d strict_below(1) [OF wf i, of q] by (cases "q = d") (auto simp: strict_prefix_def)
    moreover have "q \<notin> A" using free q by blast
    ultimately have "is_dir_at k q" by (rule intact_dir [OF k _ wf])
    then show ?thesis by (simp add: is_dir_at_def)
  qed
  from l c obtain l' where "lookup_path k (show_loc d) True = Inr l'" "m = l' @ [c]"
    by (auto simp: lookup_child)
  moreover from this(1) have "l' = d"
    using walk_direct [OF plain, of True "kind_at k" "[]"] nolink by (simp add: lookup_path_def pn)
  ultimately show ?thesis by simp
qed


section \<open>The steps\<close>

lemma intact_remove:
  "intact k0 A k \<Longrightarrow> t \<in> A \<Longrightarrow> children k t = [] \<Longrightarrow> intact k0 A (remove_entry t k)"
  by (auto simp: intact_def wf_remove) (auto simp: remove_entry_def)

lemma intact_add:
  assumes "intact k0 A k" and "t \<in> A" and "entry k t = None" and "placeable k t"
  shows "intact k0 A (add_node t nd k)"
proof -
  have "wf_kernel (add_node t nd k)" using assms by (auto simp: intact_def intro: wf_add_node)
  with assms show ?thesis by (auto simp: intact_def) (simp_all add: add_node_def)
qed

lemma intact_set_inode:
  assumes "intact k0 A k" and "next_ino k0 \<le> i" and "inodes k i = Some nd"
    and "i_kind nd' = Dir \<longleftrightarrow> i_kind nd = Dir"
  shows "intact k0 A (set_inode i nd' k)"
proof -
  have "wf_kernel (set_inode i nd' k)" using assms wf_set_inode by (auto simp: intact_def)
  moreover have "entry (set_inode i nd' k) = entry k" by (simp add: set_inode_def)
  ultimately show ?thesis using assms(1,2) by (simp add: intact_def) (simp add: set_inode_def)
qed

lemma unlink_intact:
  assumes "\<And>k m. intact k0 A k \<Longrightarrow> lookup_path k p False = Inr m \<Longrightarrow> m \<in> A"
  shows "keeps (intact k0 A) (sys_unlink p)"
proof (rule keepsI)
  fix s assume s: "intact k0 A s"
  obtain r t' where m: "sys_unlink p s = (r, t')" by (cases "sys_unlink p s") auto
  then have "at_node p False (\<lambda>l i nd k.
       if i_kind nd = Dir then (Inl EPERM, k) else (Inr (), remove_entry l k)) s = (r, t')"
    by (simp add: sys_unlink_def)
  then have "intact k0 A t'"
  proof (cases rule: at_node_cases)
    case failed
    then show ?thesis using s by simp
  next
    case (reached l i nd q)
    have "children s l = []" if "i_kind nd \<noteq> Dir"
      using that reached s by (intro children_not_dir) (auto simp: intact_def is_dir_at_def kind_at_def node_def)
    moreover have "children (s\<lparr>plans := q\<rparr>) l = children s l" by (simp add: children_def)
    ultimately show ?thesis
      using reached(4) s intact_remove [of k0 A "s\<lparr>plans := q\<rparr>" l] assms [OF s reached(1)]
      by (auto split: if_splits)
  qed
  with m show "intact k0 A (snd (sys_unlink p s))" by simp
qed

lemma create_flags:
  "has_flag (O_WRONLY OR O_CREAT OR O_EXCL) O_CREAT" "has_flag (O_WRONLY OR O_CREAT OR O_EXCL) O_EXCL"
  "writable_flags (O_WRONLY OR O_CREAT OR O_EXCL)" "\<not> follows (O_WRONLY OR O_CREAT OR O_EXCL)"
  by (simp_all add: follows_def writable_flags_def has_flag_def O_WRONLY_def O_RDWR_def O_CREAT_def O_EXCL_def)

lemma open_new:
  "sys_open p (O_WRONLY OR O_CREAT OR O_EXCL) mode =
    at_path p False (\<lambda>l k.
      case entry k l of
        None \<Rightarrow> new_fd (next_ino k) True (add_node l (new_inode (Reg []) mode) k)
      | Some i \<Rightarrow> (case inodes k i of None \<Rightarrow> (Inl ENOENT, k) | Some nd \<Rightarrow> (Inl EEXIST, k)))"
  by (simp add: sys_open_def create_flags cong: option.case_cong)

lemma create_intact:
  assumes only: "\<And>k m. intact k0 {t} k \<Longrightarrow> lookup_path k p False = Inr m \<Longrightarrow> m = t"
  shows "triple (intact k0 {t}) (sys_create p mode) (\<lambda>fd. in_work k0 t fd []) (intact k0 {t})"
proof (rule tripleI)
  fix s fd t' assume s: "intact k0 {t} s" and m: "sys_create p mode s = (Inr fd, t')"
  from m obtain u where o: "sys_open p (O_WRONLY OR O_CREAT OR O_EXCL) mode s = (Inr fd, u)"
    by (auto simp: sys_create_def split: prod.splits sum.splits option.splits)
  from at_path_run [OF o [unfolded open_new]] obtain q l where
    l: "lookup_path s p False = Inr l" and new: "entry s l = None" and
    u: "new_fd (next_ino s) True (add_node l (new_inode (Reg []) mode) (s\<lparr>plans := q\<rparr>)) = (Inr fd, u)"
    by (fastforce split: option.splits)
  let ?k = "add_node t (new_inode (Reg []) mode) (s\<lparr>plans := q\<rparr>)"
  have t: "l = t" by (rule only [OF s l])
  have k: "intact k0 {t} ?k"
    using s new lookup_placeable [OF _ l] unfolding t
    by (intro intact_add) (auto simp: intact_def)
  have u': "u = ?k\<lparr>fds := (fds ?k)(fd := Some (next_ino s, True)), next_fd := Suc (next_fd ?k)\<rparr>"
    using u by (simp add: new_fd_def t) blast
  have e: "entry ?k t = Some (next_ino s)" by simp
  have iu: "intact k0 {t} u" unfolding u' by (rule intact_fd [OF k e])
  have fd: "fds u fd = Some (next_ino s, True)" using u by (auto simp: new_fd_def)
  have nd: "inodes u (next_ino s) = Some (new_inode (Reg []) mode)" by (simp add: u' add_node_def)
  have t': "t' = set_inode (next_ino s) (own u (new_inode (Reg []) mode)) u"
    using m o fd nd by (simp add: sys_create_def)
  have ge: "next_ino k0 \<le> next_ino s" using s by (simp add: intact_def)
  have "intact k0 {t} t'"
    unfolding t' by (rule intact_set_inode [OF iu ge nd]) (simp add: own_def)
  moreover have "entry t' t = Some (next_ino s)" by (simp add: t' u' set_inode_def)
  ultimately show "in_work k0 t fd [] t'"
    using ge fd by (simp add: in_work_def) (simp add: t' set_inode_def own_def new_inode_def)
next
  fix s e t' assume s: "intact k0 {t} s" and m: "sys_create p mode s = (Inl e, t')"
  then have o: "sys_open p (O_WRONLY OR O_CREAT OR O_EXCL) mode s = (Inl e, t')"
    by (auto simp: sys_create_def split: prod.splits sum.splits option.splits)
  from at_path_run [OF o [unfolded open_new]] s show "intact k0 {t} t'"
    by (auto simp: new_fd_def split: option.splits)
qed


lemma transferred_le: "transferred k n \<le> n"
  by (simp add: transferred_def split: list.split plan.split)

lemma write_grows:
  "triple (in_work k0 t fd s) (sys_pwrite fd d (length s))
     (\<lambda>w k. in_work k0 t fd (s @ take w d) k \<and> w \<le> length d) (in_work k0 t fd s)"
proof (rule tripleI)
  fix k w k' assume k: "in_work k0 t fd s k" and m: "sys_pwrite fd d (length s) k = (Inr w, k')"
  then obtain i nd where i: "intact k0 {t} k" "entry k t = Some i" "next_ino k0 \<le> i"
      "fds k fd = Some (i, True)" "inodes k i = Some nd" "i_kind nd = Reg s"
    by (auto simp: in_work_def)
  from syscall_run [OF m [unfolded sys_pwrite_def at_fd_def]] i obtain q where
    w: "w = transferred k (length d)" and
    k': "k' = set_inode i (nd\<lparr>i_kind := Reg (write_at (length s) (take w d) s)\<rparr>) (k\<lparr>plans := q\<rparr>)"
    by (auto simp: Let_def)
  have "write_at (length s) (take w d) s = s @ take w d" by (simp add: write_at_def resize_def)
  moreover have "intact k0 {t} k'"
    unfolding k' using i by (intro intact_set_inode) auto
  ultimately show "in_work k0 t fd (s @ take w d) k' \<and> w \<le> length d"
    using i w transferred_le by (simp add: in_work_def) (simp add: k' set_inode_def)
next
  fix k e k' assume k: "in_work k0 t fd s k" and m: "sys_pwrite fd d (length s) k = (Inl e, k')"
  then obtain i nd where i: "fds k fd = Some (i, True)" "inodes k i = Some nd" "i_kind nd = Reg s"
    by (auto simp: in_work_def)
  from syscall_run [OF m [unfolded sys_pwrite_def at_fd_def]] i k show "in_work k0 t fd s k'"
    by (auto simp: Let_def)
qed

lemma write_fills:
  "triple (in_work k0 t fd s) (write_bytes n msg fd (length s) sv)
     (\<lambda>_. in_work k0 t fd (s @ sv)) (intact k0 {t})"
proof (induction n arbitrary: s sv)
  case 0
  show ?case by (auto simp: in_work_def intro: triple_return triple_throw)
next
  case (Suc n)
  have 1: "triple (in_work k0 t fd s) (or_syserr msg (sys_pwrite fd sv (length s)))
      (\<lambda>w k. in_work k0 t fd (s @ take w sv) k \<and> w \<le> length sv) (intact k0 {t})"
    by (rule triple_or_syserr, rule triple_weaken [OF write_grows [where s = s and d = sv]])
      (auto simp: in_work_def)
  have 2: "triple (\<lambda>k. in_work k0 t fd (s @ take w sv) k \<and> w \<le> length sv)
      (write_bytes n msg fd (length s + w) (drop w sv)) (\<lambda>_. in_work k0 t fd (s @ sv)) (intact k0 {t})" for w
    using Suc.IH [of "s @ take w sv" "drop w sv"] by (intro triple_assume) (simp add: min.absorb2)
  show ?case by (auto intro: triple_return triple_bind [OF 1 2])
qed

text \<open>The file takes the place of what the name stood for.\<close>

lemma intact_new_inode: "intact k0 A k \<Longrightarrow> wf_kernel k0 \<Longrightarrow> l \<notin> A \<Longrightarrow> next_ino k0 \<le> i \<Longrightarrow> entry k l \<noteq> Some i"
  using wf_kernelD(3) [of k0 l i] entry_mem [of k0 l i] by (auto simp: intact_def)

lemma empty_below:
  "wf_kernel k \<Longrightarrow> children k l = [] \<or> \<not> is_dir_at k l \<Longrightarrow> strict_prefix l m \<Longrightarrow> entry k m = None"
  using strict_below [of k m _ l] by (cases "entry k m") auto

lemma moved_whole:
  assumes k: "intact k0 {t} k" and t: "entry k t = Some i" "inodes k i = Some nd" "i_kind nd = Reg c"
    and l: "\<not> prefix t l" "placeable k l" "children k l = []"
  shows "all_or_nothing k0 t l c (move_entries t l (remove_entry l k))"
proof -
  let ?k = "remove_entry l k" and ?m = "move_entries t l (remove_entry l k)"
  have wf: "wf_kernel k" using k by (simp add: intact_def)
  have wf': "wf_kernel ?k" by (rule wf_remove [OF wf l(3)])
  have tl: "t \<noteq> l" using l(1) by auto
  have "butlast l \<noteq> l \<or> l = []" by (cases l rule: rev_cases) auto
  then have "placeable ?k l" using l(2) by (auto simp: placeable_def is_dir_at_def kind_remove)
  then have mv: "movable t l ?k" using t l tl by (simp add: movable_def)
  have tdir: "\<not> is_dir_at k t" using t by (simp add: is_dir_at_def kind_at_def node_def)
  note below_l = empty_below [OF wf disjI1 [OF l(3)]] and below_t = empty_below [OF wf disjI2 [OF tdir]]
  have same: "inodes ?m = inodes k" "next_ino ?m = next_ino k"
    by (simp_all add: move_entries_def remove_entry_def)
  have "entry ?m m = entry k m" if m: "m \<noteq> t" "m \<noteq> l" for m
  proof (cases "prefix l m")
    case True
    then obtain s where s: "m = l @ s" "s \<noteq> []" using m by (auto simp: prefix_def)
    then have "entry k m = None" "entry k (t @ s) = None"
      using below_l [of m] below_t [of "t @ s"] by (auto simp: strict_prefix_def)
    then show ?thesis using s m by (simp add: entry_move [OF wf' mv])
  next
    case False
    then show ?thesis using m below_t [of m] by (simp add: entry_move [OF wf' mv] strict_prefix_def)
  qed
  moreover have "entry ?m l = Some i" using t tl by (simp add: entry_move [OF wf' mv])
  moreover have "wf_kernel ?m" by (rule wf_move [OF wf' mv])
  ultimately show ?thesis
    using k t by (auto simp: all_or_nothing_def intact_def whole_file_def same)
qed

lemma remove_absent: "entry k l = None \<Longrightarrow> remove_entry l k = k"
proof -
  assume "entry k l = None"
  then have "filter (\<lambda>(l', i). l' \<noteq> l) (dir_table k) = dir_table k"
    by (auto simp: entry_def map_of_eq_None_iff filter_id_conv intro: rev_image_eqI)
  then show ?thesis by (simp add: remove_entry_def)
qed

lemma rename_all_or_nothing:
  assumes "\<And>k m. intact k0 {t} k \<Longrightarrow> lookup_path k p False = Inr m \<Longrightarrow> m = t"
    and "\<And>k m. intact k0 {t} k \<Longrightarrow> lookup_path k p' False = Inr m \<Longrightarrow> m = l"
    and "wf_kernel k0" and "\<not> prefix t l" and "\<not> prefix l t"
  shows "triple (in_work k0 t fd c) (sys_rename p p') (\<lambda>_. all_or_nothing k0 t l c) (intact k0 {t})"
  unfolding sys_rename_def
proof (rule triple_syscall)
  fix s q assume "in_work k0 t fd c s"
  then show "intact k0 {t} (s\<lparr>plans := q\<rparr>)" by (simp add: in_work_def)
next
  fix s q assume w: "in_work k0 t fd c s"
  define k where "k = s\<lparr>plans := q\<rparr>"
  from w obtain i nd where k: "intact k0 {t} k" and i: "entry k t = Some i" "next_ino k0 \<le> i"
      "inodes k i = Some nd" "i_kind nd = Reg c"
    by (auto simp: in_work_def k_def)
  have wf: "wf_kernel k" using k by (simp add: intact_def)
  have new: "entry k l \<noteq> Some i" using intact_new_inode [OF k assms(3) _ i(2)] assms(4) by auto
  have "case (case (lookup_path k p False, lookup_path k p' False) of
       (Inl e, _) \<Rightarrow> (Inl e, k)
     | (Inr a, Inl e) \<Rightarrow> (Inl e, k)
     | (Inr a, Inr b) \<Rightarrow> rename_at a b k) of
      (Inr a, u) \<Rightarrow> all_or_nothing k0 t l c u | (Inl e, u) \<Rightarrow> intact k0 {t} u"
  proof (cases "lookup_path k p False"; cases "lookup_path k p' False")
    fix a b assume a: "lookup_path k p False = Inr a" and b: "lookup_path k p' False = Inr b"
    then have ab: "a = t" "b = l" using assms(1,2) k by blast+
    have "placeable k l" using lookup_placeable [OF wf b] ab by simp
    then have moved: "children k l = [] \<Longrightarrow> all_or_nothing k0 t l c (move_entries t l (remove_entry l k))"
      using moved_whole [OF k i(1,3,4) assms(4)] by blast
    have "node k t = Some nd" using i by (simp add: node_def)
    moreover have "node k l = None \<Longrightarrow> entry k l = None \<and> children k l = []"
      using entry_node [OF wf, of l] children_not_dir [OF wf, of l]
      by (cases "entry k l") (auto simp: is_dir_at_def kind_at_def)
    ultimately show ?thesis
      using a b ab i k new moved assms(4)
      by (auto simp: rename_at_def remove_absent split: option.split)
  qed (use k in auto)
  then show "case (case (lookup_path (s\<lparr>plans := q\<rparr>) p False, lookup_path (s\<lparr>plans := q\<rparr>) p' False) of
       (Inl e, _) \<Rightarrow> (Inl e, s\<lparr>plans := q\<rparr>)
     | (Inr a, Inl e) \<Rightarrow> (Inl e, s\<lparr>plans := q\<rparr>)
     | (Inr a, Inr b) \<Rightarrow> rename_at a b (s\<lparr>plans := q\<rparr>)) of
      (Inr a, u) \<Rightarrow> all_or_nothing k0 t l c u | (Inl e, u) \<Rightarrow> intact k0 {t} u"
    unfolding k_def .
qed


section \<open>The whole call\<close>

lemma intact_warned: "intact k0 A k \<Longrightarrow> intact k0 A (k\<lparr>warned := ws\<rparr>)"
  by (simp add: intact_def wf_kernel_def entry_def placeable_def is_dir_at_def kind_at_def node_def)

lemma whole_file_simps [simp]:
  "whole_file c l (fds_update h k) = whole_file c l k" "whole_file c l (next_fd_update g k) = whole_file c l k"
  "whole_file c l (plans_update q k) = whole_file c l k"
  "whole_file c l (warned_update w m) = whole_file c l m"
  by (simp_all add: whole_file_def entry_def)

lemma entry_warned [simp]: "entry (warned_update w m) l = entry m l"
  by (simp add: entry_def)

lemma keeps_open_intact:
  "keeps (intact k0 A) (sys_open_read p)" "keeps (all_or_nothing k0 t l c) (sys_open_read p)"
  by (rule keeps_sys_open_read; auto intro: intact_fd simp: all_or_nothing_def)+

lemma keeps_close_intact:
  "keeps (intact k0 A) (sys_close fd)" "keeps (all_or_nothing k0 t l c) (sys_close fd)"
  by (rule keeps_sys_close; auto intro: intact_close simp: all_or_nothing_def)+

lemma keeps_at_fd_same:
  "(\<And>s q. I s \<Longrightarrow> I (s\<lparr>plans := q\<rparr>)) \<Longrightarrow> keeps I (at_fd fd (\<lambda>i wr nd k. (g i nd, k)))"
  unfolding at_fd_def by (rule keeps_sys) (auto split: option.split)

lemma keeps_report_aon: "keeps (all_or_nothing k0 t l c) (report e)"
  by (rule keeps_warn) (auto simp: all_or_nothing_def intro: intact_warned)

lemma keeps_on_error: "keeps I m \<Longrightarrow> keeps I c \<Longrightarrow> keeps I (on_error m c)"
  by (fastforce simp: keeps_def on_error_def split: prod.split sum.split)


lemma keeps_attempted: "keeps I m \<Longrightarrow> (\<And>r. keeps I (k r)) \<Longrightarrow> keeps I (bind_s (attempt m) k)"
  by (auto intro: keeps_attempt)

lemma keeps_open_existing: "keeps (intact k0 A) (open_existing p fd)"
  unfolding open_existing_def sys_fstat_def
  by (intro keeps_on_error keeps_bind keeps_or_syserr keeps_close_intact keeps_at_fd_same)
    (auto split: fkind.split)

lemma tmp_file_other: "tmp_file me f \<noteq> f" "f \<noteq> tmp_file me f"
  by (simp_all add: tmp_file_def cat_def)

lemma tmp_file_name: "file_name f \<Longrightarrow> file_name (tmp_file me f)"
  using show_nat_digit [of me] by (auto simp: file_name_def tmp_file_def cat_def append_eq_Cons_conv Cons_eq_append_conv)

lemma new_file_settles:
  assumes at_t: "\<And>k m. intact k0 {t} k \<Longrightarrow> lookup_path k tmp False = Inr m \<Longrightarrow> m = t"
    and at_l: "\<And>k m. intact k0 {t} k \<Longrightarrow> lookup_path k p False = Inr m \<Longrightarrow> m = l"
    and wf: "wf_kernel k0" and tl: "l \<noteq> t" "\<not> prefix t l" "\<not> prefix l t"
  shows "triple (intact k0 {t}) (new_file tmp p c mode)
    (\<lambda>_. all_or_nothing k0 t l c) (all_or_nothing k0 t l c)"
proof -
  let ?I = "intact k0 {t}" and ?A = "all_or_nothing k0 t l c"
  have IA: "?I s \<Longrightarrow> ?A s" for s :: "'a machine_scheme" by (rule intact_all_or_nothing [OF _ tl(1)])
  have unlink: "keeps ?I (sys_unlink tmp :: ('a machine_ext, unit) sys)"
    by (rule unlink_intact) (use at_t in blast)
  have 1: "triple ?I (on_error (or_syserr (call_on ''openat'' tmp) (sys_create tmp mode)) (sys_unlink tmp))
      (\<lambda>fd. in_work k0 t fd []) ?A"
    by (rule triple_finish [OF triple_or_syserr [OF create_intact]])
      (use at_t IA keepsD [OF unlink] in blast)+
  have fsync: "triple (in_work k0 t fd c) (or_syserr (call_on ''fsync'' tmp) (sys_fsync fd))
      (\<lambda>_. in_work k0 t fd c) ?I" for fd
  proof -
    have "keeps (in_work k0 t fd c) (sys_fsync fd :: ('a machine_ext, unit) sys)"
      unfolding sys_fsync_def by (rule keeps_at_fd_same) simp
    then show ?thesis
      unfolding keeps_iff_triple
      by (intro triple_or_syserr) (auto elim!: triple_weaken simp: in_work_def)
  qed
  have fill: "triple (in_work k0 t fd []) (fill_file fd tmp p c) (\<lambda>_. ?A) ?I" for fd
  proof -
    have w: "triple (in_work k0 t fd []) (write_contents msg fd c) (\<lambda>_. in_work k0 t fd c) ?I" for msg
      using write_fills [of k0 t fd "[]" _ msg c] by (auto simp: write_contents_def triple_def)
    have r: "triple (in_work k0 t fd c) (or_syserr msg (sys_rename tmp p)) (\<lambda>_. ?A) ?I" for msg
      by (rule triple_or_syserr [OF rename_all_or_nothing]) (use at_t at_l wf tl in blast)+
    show ?thesis unfolding fill_file_def by (intro triple_bind [OF w] triple_bind [OF fsync] r)
  qed
  have drop: "keeps ?I (drop_tmp fd tmp :: ('a machine_ext, unit) sys)" for fd
    unfolding drop_tmp_def by (rule keeps_attempted [OF keeps_close_intact(1) unlink])
  have 2: "triple (in_work k0 t fd []) (on_error (fill_file fd tmp p c) (drop_tmp fd tmp)) (\<lambda>_. ?A) ?A" for fd
    by (rule triple_finish [OF fill]) (use IA keepsD [OF drop] in blast)
  have 3: "keeps ?A (bind_s (on_error (or_syserr (call_on ''openat'' p) (sys_open_read p)) (sys_close fd)) (\<lambda>fd'.
      bind_s (ignore (sys_close fd)) (\<lambda>_. return_s fd')))" for fd
    unfolding ignore_def
    by (intro keeps_on_error keeps_bind keeps_or_syserr keeps_open_intact keeps_close_intact keeps_attempt
        keeps_return)
  show ?thesis
    unfolding new_file_def
    by (intro triple_bind [OF 1] triple_bind [OF 2]) (rule 3 [unfolded keeps_iff_triple])
qed


lemma ensure_file_settles:
  fixes k0 :: "'a machine_scheme"
  assumes wf: "wf_kernel k0" and d: "is_dir_at k0 d"
    and name: "file_name f" and l: "l = d @ [f]" and t: "t = d @ [tmp_file me f]"
  shows "triple (intact k0 {t}) (ensure_file me (create_warn q) (show_loc d) f c mode)
    (\<lambda>_. all_or_nothing k0 t l c) (all_or_nothing k0 t l c)"
proof -
  let ?p = "path_append (show_loc d) f" and ?tmp = "path_append (show_loc d) (tmp_file me f)"
  let ?I = "intact k0 {t}" and ?A = "all_or_nothing k0 t l c"
  have tmp: "file_name (tmp_file me f)" by (rule tmp_file_name [OF name])
  have tl: "l \<noteq> t" "\<not> prefix t l" "\<not> prefix l t" "\<not> prefix t d"
    unfolding l t by (auto simp: tmp_file_other dest: prefix_length_le)
  have at_t: "m = t" if "?I k" "lookup_path k ?tmp False = Inr m" for k m
    using intact_lookup [OF that(1) wf d _ tmp that(2)] tl by (simp add: t)
  have at_l: "m = l" if "?I k" "lookup_path k ?p False = Inr m" for k m
    using intact_lookup [OF that(1) wf d _ name that(2)] tl by (simp add: l)
  have IA: "?I s \<Longrightarrow> ?A s" for s :: "'a machine_scheme" by (rule intact_all_or_nothing [OF _ tl(1)])
  have early: "triple ?I m (\<lambda>_. ?A) ?A" if "keeps ?I m" for m :: "('a, nat) mstep"
    by (rule triple_weaken [OF that [unfolded keeps_iff_triple]]) (use IA in blast)+
  have unlink: "keeps ?I (ignore (sys_unlink ?tmp) :: ('a, unit) mstep)"
    unfolding ignore_def using at_t by (intro keeps_attempted unlink_intact keeps_return) blast
  have created: "keeps ?A (on_error (bind_s (create_warn q fd) (\<lambda>_. return_s fd)) (sys_close fd))" for fd
    unfolding create_warn_def
    by (intro keeps_on_error keeps_bind keeps_report_aon keeps_return keeps_close_intact)
  have absent: "triple ?I (bind_s (ignore (sys_unlink ?tmp)) (\<lambda>_. bind_s (new_file ?tmp ?p c mode) (\<lambda>fd.
      on_error (bind_s (create_warn q fd) (\<lambda>_. return_s fd)) (sys_close fd)))) (\<lambda>_. ?A) ?A"
  proof (rule triple_bind)
    show "triple ?I (ignore (sys_unlink ?tmp) :: ('a, unit) mstep) (\<lambda>_. ?I) ?A"
      by (rule triple_weaken [OF unlink [unfolded keeps_iff_triple]]) (use IA in blast)+
    show "triple ?I (bind_s (new_file ?tmp ?p c mode) (\<lambda>fd.
      on_error (bind_s (create_warn q fd) (\<lambda>_. return_s fd)) (sys_close fd))) (\<lambda>_. ?A) ?A"
      by (rule triple_bind [OF new_file_settles created [unfolded keeps_iff_triple]])
        (use at_t at_l wf tl in blast)+
  qed
  have opened: "triple ?I (sys_open_read ?p) (\<lambda>_. ?I) ?I"
    using keeps_open_intact(1) unfolding keeps_iff_triple .
  show ?thesis
    unfolding ensure_file_def Let_def
  proof (rule triple_bind_attempt [OF opened])
  qed (use absent early [OF keeps_open_existing] early [OF keeps_throw] in auto)
qed

text \<open>C20: whichever system calls of \<open>ensure_file\<close> the environment makes fail or cuts short, afterwards
  the file is as it was before or has all the contents, no other name means another node than before,
  except that of the temporary file, and no node that was there has changed.
\<close>

theorem ensure_file_all_or_nothing:
  assumes "wf_kernel k" and "is_dir_at k d" and "file_name f"
    and "ensure_file me (create_warn q) (show_loc d) f c mode k = (r, k')"
  shows "(entry k' (d @ [f]) = entry k (d @ [f]) \<or> whole_file c (d @ [f]) k') \<and>
    (\<forall>m. m \<noteq> d @ [f] \<longrightarrow> m \<noteq> d @ [tmp_file me f] \<longrightarrow> entry k' m = entry k m) \<and>
    (\<forall>i < next_ino k. inodes k' i = inodes k i) \<and> wf_kernel k'"
proof -
  have "intact k {d @ [tmp_file me f]} k" using assms(1) by (simp add: intact_def)
  with ensure_file_settles [OF assms(1,2,3) refl refl, of me q c mode] assms(4)
  have "all_or_nothing k (d @ [tmp_file me f]) (d @ [f]) c k'"
    by (cases r) (fastforce dest: triple_Inr triple_Inl)+
  then show ?thesis by (simp add: all_or_nothing_def intact_def)
qed


text \<open>The first write takes two bytes; the file is new.\<close>

definition short_write :: machine where
  "short_write = (sample_machine 0 True)\<lparr>plans := [Pass, Pass, Pass, Short 2]\<rparr>"

theorem ensure_file_all_or_nothing_witness:
  "fst (ensure_file 7 (create_warn ''rc'') ''/w'' ''rc'' ''hello'' 384 short_write) = Inr 4 \<and>
   whole_file ''hello'' [''w'', ''rc''] (snd (ensure_file 7 (create_warn ''rc'') ''/w'' ''rc'' ''hello'' 384 short_write)) \<and>
   inodes (snd (ensure_file 7 (create_warn ''rc'') ''/w'' ''rc'' ''hello'' 384 short_write)) 2 = inodes short_write 2"
proof -
  let ?r = "ensure_file 7 (create_warn ''rc'') ''/w'' ''rc'' ''hello'' 384 short_write"
  have "wf_kernel short_write" using sample_wf by (simp add: short_write_def)
  moreover have "is_dir_at short_write [''w'']" "file_name ''rc''" "show_loc [''w''] = ''/w''" by code_simp+
  moreover have "fst ?r = Inr 4" "entry (snd ?r) [''w'', ''rc''] \<noteq> entry short_write [''w'', ''rc'']" by code_simp+
  moreover have "2 < next_ino short_write" by code_simp
  moreover from calculation have "?r = (Inr 4, snd ?r)" by (simp add: prod_eq_iff)
  ultimately show ?thesis
    using ensure_file_all_or_nothing [of short_write "[''w'']" "''rc''" 7 "''rc''" "''hello''" 384 "Inr 4" "snd ?r"]
    by simp
qed

end
