(* ===== verification/Ensure_Dirs.thy ===== *)
theory Ensure_Dirs
  imports Ensure_Theorems
begin

text \<open>
  The loops of \<open>ensure_file\<close> and \<open>ensure_dir\<close> end within their bounds, and what \<open>ensure_dir\<close> returns is
  the caller's directory with no permission beyond those asked for.
\<close>

section \<open>The bounds are enough\<close>

text \<open>A step never adds to the failures that the environment still has in store.\<close>

definition uses_plans :: "('z kernel_scheme, 'e, 'a) estep \<Rightarrow> bool" where
  "uses_plans m \<longleftrightarrow> (\<forall>k. length (plans (snd (m k))) \<le> length (plans k))"

lemma uses_plansD: "uses_plans m \<Longrightarrow> m k = (r, k') \<Longrightarrow> length (plans k') \<le> length (plans k)"
  unfolding uses_plans_def by (metis snd_conv)

lemma uses_syscall: "(\<And>k. plans (snd (m k)) = plans k) \<Longrightarrow> uses_plans (syscall m)"
  by (auto simp: uses_plans_def syscall_def split: list.split plan.split)

lemma uses_at_path: "(\<And>l k. plans (snd (f l k)) = plans k) \<Longrightarrow> uses_plans (at_path p follow f)"
  unfolding at_path_def by (rule uses_syscall) (auto split: sum.split)

lemma uses_at_node: "(\<And>l i nd k. plans (snd (f l i nd k)) = plans k) \<Longrightarrow> uses_plans (at_node p follow f)"
  unfolding at_node_def by (rule uses_at_path) (auto split: option.split)

lemma uses_or_syserr: "uses_plans m \<Longrightarrow> uses_plans (or_syserr msg m)"
  by (auto simp: uses_plans_def or_syserr_def split: prod.split sum.split) (metis snd_conv)+

lemma pwrite_uses:
  "sys_pwrite fd d off k = (r, k') \<Longrightarrow>
   length (plans k') < length (plans k) \<or> plans k' = plans k \<and> (\<forall>w. r = Inr w \<longrightarrow> w = length d)"
  by (auto simp: sys_pwrite_def at_fd_def syscall_def set_inode_def transferred_def Let_def
      split: list.splits plan.splits option.splits if_splits fkind.splits prod.splits)

lemma write_bytes_fuel:
  "length (plans k) < n \<or> sv = [] \<Longrightarrow> fst (write_bytes n msg fd off sv k) \<noteq> Inl out_of_fuel"
proof (induction n arbitrary: k off sv)
  case (Suc n)
  show ?case
  proof (cases "sv = []")
    case False
    obtain r k' where w: "sys_pwrite fd sv off k = (r, k')" by (cases "sys_pwrite fd sv off k")
    show ?thesis
    proof (cases r)
      case (Inr w)
      with pwrite_uses [OF w] Suc.prems False have "length (plans k') < n \<or> drop w sv = []" by auto
      from Suc.IH [OF this] w Inr False show ?thesis by (simp add: bind_s_def or_syserr_def)
    qed (use w False in \<open>simp add: bind_s_def or_syserr_def out_of_fuel_def\<close>)
  qed (simp add: return_s_def)
qed (simp add: return_s_def)

lemma write_contents_fuel: "fst (write_contents msg fd sv k) \<noteq> Inl out_of_fuel"
  unfolding write_contents_def by (rule write_bytes_fuel) (cases sv; simp)


text \<open>What is found at a location where nothing was is found there when it has been made.\<close>

lemma walk_made:
  "walk n kinds d ns False = Inr l \<Longrightarrow> kinds l = None \<Longrightarrow> walk n (kinds(l := Some Dir)) d ns False = Inr l"
proof (induction n kinds d ns "False" rule: walk.induct)
  case (2 n kinds d c cs)
  then show ?case
    by (auto simp: walk.simps(2) split: if_splits option.splits fkind.splits)
qed simp

lemma make_run:
  assumes "Kernel.make p nd k = (Inr (), k')"
  obtains l q where "lookup_path k p False = Inr l" "entry k l = None" "k' = add_node l nd (k\<lparr>plans := q\<rparr>)"
  using at_path_run [OF assms [unfolded Kernel.make_def]] by (auto split: if_splits)

lemma make_wf:
  assumes "wf_kernel k"
  shows "wf_kernel (snd (Kernel.make p nd k))"
proof -
  obtain r k' where m: "Kernel.make p nd k = (r, k')" by (cases "Kernel.make p nd k")
  have "wf_kernel (add_node l nd (k\<lparr>plans := q\<rparr>))" if "lookup_path k p False = Inr l" "entry k l = None" for l q
    using assms that lookup_placeable [OF assms that(1)] by (intro wf_add_node) simp_all
  then show ?thesis
    using at_path_run [OF m [unfolded Kernel.make_def]] m assms by (auto split: if_splits)
qed

lemma made_found:
  assumes "wf_kernel k" and "Kernel.make p nd k = (Inr (), k')" and "i_kind nd = Dir"
  shows "\<exists>l. lookup_path k' p follow = Inr l \<and> entry k' l = Some (next_ino k) \<and> inodes k' (next_ino k) = Some nd"
proof -
  obtain l q where l: "lookup_path k p False = Inr l" "entry k l = None"
      and k': "k' = add_node l nd (k\<lparr>plans := q\<rparr>)"
    by (rule make_run [OF assms(2)])
  have kinds: "kind_at k' = (kind_at k)(l := Some Dir)"
    using assms(1,3) by (simp add: k' kind_add_node fun_eq_iff)
  have "kind_at k l = None" using l(2) by (simp add: kind_at_def node_def)
  with l(1) have f: "lookup_path k' p False = Inr l" by (simp add: lookup_path_def kinds walk_made)
  then have "lookup_path k' p True = Inr l" by (rule lookup_nofollow) (simp add: kinds)
  with f have "lookup_path k' p follow = Inr l" by (cases follow) auto
  then show ?thesis by (simp add: k' add_node_def entry_def)
qed

lemma component_uses:
  "uses_plans (open_component follow cur c)" "uses_plans (make_component cur c m)" "uses_plans (sys_stat p)"
proof -
  have make: "uses_plans (Kernel.make p nd)" for p nd
    unfolding Kernel.make_def by (rule uses_at_path) (simp add: add_node_def)
  show "uses_plans (open_component follow cur c)"
    unfolding open_component_def by (auto intro!: uses_syscall uses_at_node split: fkind.split)
  show "uses_plans (make_component cur c m)"
    using make uses_syscall [of "\<lambda>k. (Inl ENOENT, k)"] by (auto simp: make_component_def uses_plans_def)
  show "uses_plans (sys_stat p)"
    unfolding sys_stat_def by (rule uses_at_node) simp
qed

lemma open_pops:
  "open_component follow cur c k = (r, k') \<Longrightarrow> plans k \<noteq> [] \<Longrightarrow> length (plans k') < length (plans k)"
  by (auto simp: open_component_def at_node_def at_path_def syscall_def
      split: if_splits list.splits plan.splits option.splits sum.splits fkind.splits)

lemma open_wf: "wf_kernel k \<Longrightarrow> wf_kernel (snd (open_component follow cur c k))"
  by (auto simp: open_component_def at_node_def at_path_def syscall_def
      split: list.split plan.split option.split sum.split fkind.split)

lemma make_component_wf: "wf_kernel k \<Longrightarrow> wf_kernel (snd (make_component cur c m k))"
  by (auto simp: make_component_def make_wf syscall_def split: list.split plan.split)

lemma stat_wf: "wf_kernel k \<Longrightarrow> wf_kernel (snd (sys_stat p k))"
  by (auto simp: sys_stat_def at_node_def at_path_def syscall_def
      split: list.split plan.split option.split sum.split)

lemma quiet_same:
  "plans k = [] \<Longrightarrow> snd (open_component follow cur c k) = k" "plans k = [] \<Longrightarrow> snd (sys_stat p k) = k"
  by (auto simp: open_component_def sys_stat_def at_node_def at_path_def syscall_def
      split: option.split sum.split fkind.split)

lemma make_component_found:
  assumes "wf_kernel k" and "make_component cur c m k = (Inr (), k')" and "plans k' = []"
  shows "fst (open_component follow cur c k') = Inr ()"
proof -
  have c: "c \<noteq> []" using assms(2) by (auto simp: make_component_def syscall_def split: list.splits plan.splits)
  with assms(2) have "Kernel.make (path_append cur c) (own k (new_inode Dir m)) k = (Inr (), k')"
    by (simp add: make_component_def)
  from made_found [OF assms(1) this, of follow] c assms(3) show ?thesis
    by (auto simp: own_def new_inode_def open_component_def at_node_ok)
qed

text \<open>A directory that cannot be made because it exists, though nothing was found to open, is no directory.\<close>

lemma reached_not_absent:
  assumes "plans k = []" and "lookup_path k (path_append cur c) follow = Inr l" and "entry k l = Some i"
    and "inodes k i = Some nd" and "c \<noteq> []"
  shows "fst (open_component follow cur c k) \<noteq> Inl ENOENT"
  using assms
  by (auto simp: open_component_def at_node_ok ENOENT_def ELOOP_def ENOTDIR_def split: fkind.split)

lemma exists_opens:
  assumes "wf_kernel k" and "plans k = []" and "make_component cur c m k = (Inl EEXIST, k')"
    and "fst (open_component follow cur c k) = Inl ENOENT" and "sys_stat (path_append cur c) k' = (Inr sb, u)"
  shows False
proof -
  have c: "c \<noteq> []" using assms(2,3) by (auto simp: make_component_def syscall_def EEXIST_def ENOENT_def)
  have k': "k' = k"
    using assms(2,3) c
    by (auto simp: make_component_def Kernel.make_def at_path_def syscall_def split: sum.splits if_splits)
  show False
  proof (cases follow)
    case True
    from assms(2,5) obtain l i nd where
      "lookup_path k (path_append cur c) True = Inr l" "entry k l = Some i" "inodes k i = Some nd"
      by (auto simp: k' sys_stat_def at_node_def at_path_def syscall_def split: sum.splits option.splits)
    with reached_not_absent [OF assms(2) _ _ _ c, of cur True] assms(4) True show False by simp
  next
    case False
    have "open_component False cur c k = (Inl e, k)" if "lookup_path k (path_append cur c) False = Inl e" for e
      using that assms(2) c by (simp add: open_component_def at_node_def at_path_def syscall_def)
    with assms(2,3,4) c False obtain l i where
      l: "lookup_path k (path_append cur c) False = Inr l" "entry k l = Some i"
      by (cases "lookup_path k (path_append cur c) False")
        (auto simp: make_component_def Kernel.make_def at_path_def syscall_def EEXIST_def ENOENT_def split: if_splits)
    from entry_node [OF assms(1) l(2)] obtain nd where "inodes k i = Some nd" by auto
    with reached_not_absent [OF assms(2) l _ c] assms(4) False show False by simp
  qed
qed

lemma ensure_loop_fuel:
  "wf_kernel k \<Longrightarrow>
   2 * length cs + length (plans k) < n \<or>
   (plans k = [] \<and> cs \<noteq> [] \<and> 2 * length cs \<le> n \<and> fst (open_component follow cur (hd cs) k) = Inr ()) \<Longrightarrow>
   fst (ensure_loop n follow perm p cur cs made k) \<noteq> Inl out_of_fuel"
proof (induction n arbitrary: k cur cs made)
  case (Suc n)
  show ?case
  proof (cases cs)
    case (Cons c rest)
    obtain r k1 where o: "open_component follow cur c k = (r, k1)" by (cases "open_component follow cur c k")
    have wf1: "wf_kernel k1" using open_wf [OF Suc.prems(1), of follow cur c] o by simp
    have pl1: "length (plans k1) \<le> length (plans k)" by (rule uses_plansD [OF component_uses(1) o])
    have pop1: "plans k \<noteq> [] \<Longrightarrow> length (plans k1) < length (plans k)" by (rule open_pops [OF o])
    show ?thesis
    proof (cases r)
      case (Inr v)
      have "2 * length rest + length (plans k1) < n" using Suc.prems(2) pl1 Cons by auto
      from Suc.IH [OF wf1 disjI1 [OF this]] Inr o Cons show ?thesis by (simp add: bind_s_def attempt_def)
    next
      case (Inl e)
      have fuel: "2 * length cs + length (plans k) < Suc n" using Suc.prems(2) Inl o Cons by auto
      show ?thesis
      proof (cases "e = ENOENT")
        case True
        obtain r2 k2 where m: "make_component cur c perm k1 = (r2, k2)" by (cases "make_component cur c perm k1")
        obtain r3 k3 where st: "sys_stat (path_append cur c) k2 = (r3, k3)" by (cases "sys_stat (path_append cur c) k2")
        have wf2: "wf_kernel k2" using make_component_wf [OF wf1, of cur c perm] m by simp
        have wf3: "wf_kernel k3" using stat_wf [OF wf2, of "path_append cur c"] st by simp
        have pl: "length (plans k3) \<le> length (plans k2)" "length (plans k2) \<le> length (plans k1)"
          by (rule uses_plansD [OF component_uses(3) st] uses_plansD [OF component_uses(2) m])+
        have again: "fst (ensure_loop n follow perm p cur cs b k3) \<noteq> Inl out_of_fuel"
          if ok: "r2 = Inr () \<or> r2 = Inl EEXIST" "r3 = Inr sb" for b sb
        proof (cases "plans k = []")
          case False
          then have "2 * length cs + length (plans k3) < n" using pop1 pl fuel by simp
          then show ?thesis using Suc.IH [OF wf3] by blast
        next
          case none: True
          have k1: "k1 = k" using quiet_same(1) [OF none, of follow cur c] o by simp
          have none2: "plans k2 = []" using pl(2) none k1 by simp
          have k3: "k3 = k2" using quiet_same(2) [OF none2, of "path_append cur c"] st by simp
          have "r2 \<noteq> Inl EEXIST"
            using exists_opens [of k cur c perm k2 follow sb k3] Suc.prems(1) none m st o Inl True k1 ok by auto
          then have "make_component cur c perm k = (Inr (), k2)" using ok m k1 by simp
          from make_component_found [OF Suc.prems(1) this none2, of follow]
          have "fst (open_component follow cur (hd cs) k3) = Inr ()" using k3 Cons by simp
          then show ?thesis using Suc.IH [OF wf3] fuel none2 k3 Cons none by simp
        qed
        show ?thesis
          using again o Inl True m st Cons
          by (auto simp: bind_s_def attempt_def throw_s_def or_syserr_def out_of_fuel_def split: sum.split)
      qed (use o Inl Cons in \<open>simp add: bind_s_def attempt_def throw_s_def out_of_fuel_def\<close>)
    qed
  qed (simp add: return_s_def)
qed simp


lemma ensure_loop_ends:
  "wf_kernel k \<Longrightarrow>
   fst (ensure_loop (Suc (2 * length cs + length (plans k))) follow perm p cur cs made k) \<noteq> Inl out_of_fuel"
  by (rule ensure_loop_fuel) simp_all


section \<open>What is returned\<close>

lemma ensure_loop_path:
  "ensure_loop n follow perm p cur cs made k = (Inr (d, b), k') \<Longrightarrow> d = foldl path_append cur cs"
proof (induction n arbitrary: k cur cs made)
  case (Suc n)
  then show ?case
    by (cases cs) (auto simp: bind_s_def attempt_def or_syserr_def return_s_def throw_s_def
        split: prod.splits sum.splits if_splits dest!: Suc.IH)
qed (simp add: throw_s_def)

text \<open>Bits that are kept are bits asked for.\<close>

definition within :: "nat \<Rightarrow> nat \<Rightarrow> bool" where
  "within m perm \<longleftrightarrow> perm_bits m AND perm = perm_bits m"

lemma within_masked: "within (m AND perm) perm"
proof -
  have "perm_bits (m AND perm) = take_bit 12 (m AND perm)" by (simp add: perm_bits_def take_bit_eq_mod)
  then show ?thesis unfolding within_def by (simp only: bit_eq_iff) (auto simp: bit_simps)
qed

lemma within_kept: "m AND perm = perm_bits m \<Longrightarrow> within m perm"
  unfolding within_def by (metis and.assoc and.idem)

definition settled_dir :: "bool \<Rightarrow> nat \<Rightarrow> path \<Rightarrow> 'z machine_scheme \<Rightarrow> bool" where
  "settled_dir other_owner perm d k \<longleftrightarrow>
     (\<exists>l i nd. lookup_path k d True = Inr l \<and> entry k l = Some i \<and> inodes k i = Some nd \<and>
        (other_owner \<or> i_uid nd = euid (proc k)) \<and> within (i_mode nd) perm)"

lemma settle_dir_done:
  assumes "settle_dir p perm other_owner d k = (Inr (), k')"
  shows "settled_dir other_owner perm d k'"
proof -
  obtain sb k1 where s: "sys_stat d k = (Inr sb, k1)"
    using assms by (auto simp: settle_dir_def bind_s_def or_syserr_def split: prod.splits sum.splits)
  then obtain l i q where l: "lookup_path k d True = Inr l" "entry k l = Some i" "inodes k i = Some sb"
      and k1: "k1 = k\<lparr>plans := q\<rparr>"
    unfolding sys_stat_def by (cases rule: at_node_cases) auto
  have owner: "other_owner \<or> i_uid sb = euid (proc k1)"
    using assms s by (auto simp: settle_dir_def bind_s_def or_syserr_def throw_s_def get_s_def split: if_splits)
  show ?thesis
  proof (cases "i_mode sb AND perm = perm_bits (i_mode sb)")
    case True
    then have "k' = k1"
      using assms s owner
      by (auto simp: settle_dir_def bind_s_def or_syserr_def return_s_def throw_s_def Let_def split: if_splits)
    then show ?thesis using l owner within_kept [OF True] by (auto simp: settled_dir_def k1)
  next
    case False
    let ?nd = "sb\<lparr>i_mode := i_mode sb AND perm\<rparr>"
    have "sys_chmod d (i_mode sb AND perm) k1 = (Inr (), k')"
      using assms s owner False
      by (auto simp: settle_dir_def bind_s_def or_syserr_def Let_def split: prod.splits sum.splits)
    then obtain q' where k': "k' = set_inode i ?nd (k\<lparr>plans := q'\<rparr>)"
      unfolding sys_chmod_def change_node_def by (cases rule: at_node_cases) (use l in \<open>auto simp: k1\<close>)
    have kinds: "kind_at k' = kind_at k"
      using l(3) by (auto simp: fun_eq_iff k' kind_at_def node_def set_inode_def entry_def split: bind_splits)
    have "lookup_path k' d True = Inr l" using l(1) by (simp add: lookup_path_def kinds)
    then show ?thesis
      using l(2) owner within_masked
      by (auto simp: settled_dir_def k1 k' set_inode_def entry_def)
  qed
qed


lemma settled_dir_report: "settled_dir o' perm d (k\<lparr>warned := ws\<rparr>) = settled_dir o' perm d k"
proof -
  have "kind_at (k\<lparr>warned := ws\<rparr>) = kind_at k" by (simp add: kind_at_def node_def fun_eq_iff)
  then show ?thesis by (simp add: settled_dir_def lookup_path_def)
qed

lemma settle_dir_fuel: "fst (settle_dir p perm o' d k) \<noteq> Inl out_of_fuel"
  by (auto simp: settle_dir_def bind_s_def or_syserr_def throw_s_def return_s_def get_s_def Let_def
      wrong_owner_def out_of_fuel_def split: prod.split sum.split)

text \<open>C21: \<open>ensure_dir\<close> never gives up for want of turns, whatever the environment makes its calls answer;
  and if it returns a directory, that is the one its path names, which exists, belongs to the
  effective user unless another owner is allowed, and has no permission but those asked for.
\<close>

theorem ensure_dir_settles:
  assumes "wf_kernel k" and "ensure_dir follow other_owner (create_warn q) dir p perm k = (r, k')"
  shows "r \<noteq> Inl out_of_fuel \<and>
    (\<forall>d. r = Inr d \<longrightarrow>
       d = foldl path_append (if is_absolute p then ''/'' else dir) (path_iter p) \<and>
       settled_dir other_owner perm d k')"
proof -
  let ?cur = "if is_absolute p then ''/'' else dir"
  let ?n = "Suc (2 * length (path_iter p) + length (plans k))"
  obtain a k1 where loop: "ensure_loop ?n follow perm p ?cur (path_iter p) False k = (a, k1)"
    by (cases "ensure_loop ?n follow perm p ?cur (path_iter p) False k")
  show ?thesis
  proof (cases a)
    case (Inl e)
    then show ?thesis
      using ensure_loop_ends [OF assms(1), of "path_iter p" follow perm p ?cur False] assms(2) loop
      by (auto simp: ensure_dir_def bind_s_def)
  next
    case (Inr v)
    obtain d made where v: "v = (d, made)" by (cases v)
    obtain b k2 where st: "settle_dir p perm other_owner d k1 = (b, k2)" by (cases "settle_dir p perm other_owner d k1")
    show ?thesis
    proof (cases b)
      case inl: (Inl e)
      then show ?thesis
        using settle_dir_fuel [of p perm other_owner d k1] assms(2) loop Inr v st
        by (auto simp: ensure_dir_def bind_s_def)
    next
      case inr: (Inr u)
      have "settled_dir other_owner perm d k2" using settle_dir_done st inr by (cases u) simp
      then show ?thesis
        using assms(2) loop Inr v st inr ensure_loop_path [of ?n follow perm p ?cur "path_iter p" False k d made k1]
        by (auto simp: ensure_dir_def bind_s_def create_warn_def report_def update_s_def return_s_def
            settled_dir_report split: if_splits)
    qed
  qed
qed

definition loose_dir :: machine where
  "loose_dir = (sample_machine 501 True)\<lparr>plans := [Pass, Fail ENOENT]\<rparr>"

theorem ensure_dir_settles_witness:
  "fst (ensure_dir False False (create_warn ''/w'') ''/'' ''/w'' 448 loose_dir) = Inr ''/w'' \<and>
   settled_dir False 448 ''/w'' (snd (ensure_dir False False (create_warn ''/w'') ''/'' ''/w'' 448 loose_dir))"
proof -
  let ?r = "ensure_dir False False (create_warn ''/w'') ''/'' ''/w'' 448 loose_dir"
  have "wf_check loose_dir" by code_simp
  then have "wf_kernel loose_dir" by (rule wf_checkI) (simp add: loose_dir_def sample_machine_def)
  moreover have r: "fst ?r = Inr ''/w''" by code_simp
  moreover from r have "?r = (Inr ''/w'', snd ?r)" by (simp add: prod_eq_iff)
  ultimately show ?thesis
    using ensure_dir_settles [of loose_dir False False "''/w''" "''/''" "''/w''" 448 "Inr ''/w''" "snd ?r"] by simp
qed

end
