(* ===== verification/Program_Theorems.thy ===== *)
theory Program_Theorems
  imports Program Defaults_Theorems Ensure_Dirs Supervision_Facts Accounts_Theorems
begin

text \<open>
  What holds of the program as a whole: it works with the rights of its user until it starts a
  command, and the mode that the user asks for is the one that is used.
\<close>

section \<open>Who the program is\<close>

abbreviation ids_are :: "ids \<Rightarrow> 'z machine_scheme \<Rightarrow> bool" where
  "ids_are p \<equiv> (\<lambda>k. proc k = p)"

lemma ids_at_path:
  "(\<And>l k. proc (snd (f l k)) = proc k) \<Longrightarrow> keeps (ids_are p) (at_path x follow f)"
  unfolding at_path_def by (rule keeps_sys) (auto split: sum.split)

lemma ids_at_node:
  "(\<And>l i nd k. proc (snd (f l i nd k)) = proc k) \<Longrightarrow> keeps (ids_are p) (at_node x follow f)"
  unfolding at_node_def by (rule ids_at_path) (auto split: option.split)

lemma ids_at_fd:
  "(\<And>i wr nd k. proc (snd (f i wr nd k)) = proc k) \<Longrightarrow> keeps (ids_are p) (at_fd fd f)"
  unfolding at_fd_def by (rule keeps_sys) (auto split: option.split)

lemma ids_fun: "(\<And>k. proc (snd (m k)) = proc k) \<Longrightarrow> keeps (ids_are p) m"
  by (simp add: keeps_def)

lemma ids_state [simp]:
  "proc (set_inode i nd k) = proc k" "proc (add_node l nd k) = proc k" "proc (remove_entry l k) = proc k"
  "proc (move_entries a b k) = proc k"
  by (simp_all add: set_inode_def add_node_def remove_entry_def move_entries_def)

lemma ids_calls:
  "keeps (ids_are p) (sys_stat x)" "keeps (ids_are p) (sys_realpath x)" "keeps (ids_are p) (sys_unlink x)"
  "keeps (ids_are p) (sys_remove_all x)" "keeps (ids_are p) (sys_lstat x)"
  "keeps (ids_are p) (sys_chmod x m)" "keeps (ids_are p) (sys_chown x u g)" "keeps (ids_are p) (Kernel.make x nd)"
  "keeps (ids_are p) (sys_fstat fd)" "keeps (ids_are p) (sys_fsync fd)" "keeps (ids_are p) (sys_close fd)"
  "keeps (ids_are p) library_call"
  unfolding sys_stat_def sys_realpath_def sys_unlink_def sys_remove_all_def sys_lstat_def sys_chmod_def
    sys_chown_def change_node_def Kernel.make_def sys_fstat_def sys_fsync_def library_call_def sys_close_def
  by (rule ids_at_path ids_at_node ids_at_fd keeps_sys; auto split: sum.split)+

lemma ids_open: "keeps (ids_are p) (sys_open x f m)"
  unfolding sys_open_def
  by (rule ids_at_path) (auto simp: new_fd_def split: option.split fkind.split)

lemma opened_ids [simp]: "proc (snd (sys_open x f m k)) = proc k"
  using keepsD [OF ids_open, of k "proc k"] by simp

lemma ids_open_read: "keeps (ids_are p) (sys_open_read x)"
  by (rule ids_fun) (auto simp: sys_open_read_def syscall_def split: sum.split option.split list.split plan.split)

lemma ids_create: "keeps (ids_are p) (sys_create x m)"
proof (rule ids_fun)
  fix k :: "'a machine_scheme"
  show "proc (snd (sys_create x m k)) = proc k"
    using opened_ids [of x "O_WRONLY OR O_CREAT OR O_EXCL" m k]
    by (cases "sys_open x (O_WRONLY OR O_CREAT OR O_EXCL) m k")
      (auto simp: sys_create_def split: sum.split option.split)
qed

lemma fd_ids: "(\<And>i wr nd k. proc (snd (f i wr nd k)) = proc k) \<Longrightarrow> proc (snd (at_fd fd f k)) = proc k"
  using keepsD [OF ids_at_fd, of f k "proc k"] by simp

lemma node_ids: "(\<And>l i nd k. proc (snd (f l i nd k)) = proc k) \<Longrightarrow> proc (snd (at_node x fl f k)) = proc k"
  using keepsD [OF ids_at_node, of f k "proc k"] by simp

lemma ids_pwrite: "keeps (ids_are p) (sys_pwrite fd d off)"
  by (rule ids_fun) (auto simp: sys_pwrite_def Let_def intro!: fd_ids split: fkind.split)

lemma ids_rename: "keeps (ids_are p) (sys_rename x y)"
  unfolding sys_rename_def
  by (rule keeps_sys) (auto simp: rename_at_def split: sum.split option.split)

lemma ids_readdir: "keeps (ids_are p) (sys_readdir x)"
  by (rule ids_fun) (auto simp: sys_readdir_def Let_def intro!: node_ids)

lemmas ids_system = ids_calls ids_open ids_open_read ids_create ids_pwrite ids_rename ids_readdir

lemma ids_conf [simp]: "proc (k\<lparr>conf := c\<rparr>) = proc k" for k :: "'z launcher_scheme"
  by simp

lemma ids_on_conf: "keeps (ids_are p) (on_conf m)"
  by (rule keeps_on_conf) simp

lemma ids_report: "keeps (ids_are p) (report e)"
  by (rule keeps_warn) simp

lemma ids_say: "keeps (ids_are p) (say m)"
  by (auto simp: say_def intro: keeps_update)

lemmas ids_steps = ids_system ids_on_conf ids_report ids_say keeps_return keeps_throw keeps_lift keeps_get
  keeps_bind keeps_attempt keeps_or_syserr keeps_on_error keeps_ignore_s keeps_for_each keeps_if

lemma ids_write: "keeps (ids_are p) (write_bytes n msg fd off c)"
  by (induction n arbitrary: off c) (auto intro!: ids_steps)

lemma ids_write_contents: "keeps (ids_are p) (write_contents msg fd c)"
  using ids_write unfolding write_contents_def keeps_def by blast

lemma ids_ensure_file: "keeps (ids_are p) (ensure_file me (create_warn q) d f c mode)"
  unfolding ensure_file_def open_existing_def new_file_def fill_file_def drop_tmp_def create_warn_def Let_def
  by (auto intro!: ids_steps ids_write_contents split: sum.split fkind.split)

lemma ids_open_component: "keeps (ids_are p) (open_component fl cur c)"
proof (cases "c = []")
  case False
  then show ?thesis
    unfolding open_component_def by (simp, intro ids_at_node) (simp split: fkind.split)
qed (simp add: open_component_def keeps_sys)

lemma ids_make_component: "keeps (ids_are p) (make_component cur c mode)"
proof (cases "c = []")
  case False
  have "keeps (ids_are p) (\<lambda>k. Kernel.make x (own k nd) k)" for x nd and p
    by (rule keeps_pointwise) (rule ids_calls)
  with False show ?thesis unfolding make_component_def by simp
qed (simp add: make_component_def keeps_sys)

lemma ids_ensure_loop: "keeps (ids_are p) (ensure_loop n fl perm q cur cs made)"
  by (induction n arbitrary: cur cs made)
    (auto intro!: ids_steps ids_open_component ids_make_component split: list.split sum.split)

lemma ids_settle: "keeps (ids_are p) (settle_dir q perm ow d)"
  unfolding settle_dir_def Let_def by (auto intro!: ids_steps simp del: bind_get)

lemma ids_ensure_dir:
  "(\<And>d. keeps (ids_are p) (cb d)) \<Longrightarrow> keeps (ids_are p) (ensure_dir fl ow cb dir q perm)"
  unfolding ensure_dir_def
  by (rule keeps_pointwise) (auto intro!: ids_steps ids_ensure_loop ids_settle)

lemma ids_ensure_udir: "keeps (ids_are p) (ensure_udir d q)"
  unfolding ensure_udir_def by (auto intro!: ids_steps ids_ensure_dir)

lemma ids_make_home: "keeps (ids_are p) (make_home_jaim w)"
proof -
  have "keeps (ids_are p) (bind_s (on_conf (home w)) (\<lambda>_. bind_s (ensure_udir h d) (\<lambda>_.
      update_s (\<lambda>k. k\<lparr>conf := (conf k)\<lparr>home_jaim_fd := True\<rparr>\<rparr>))))" for h d and p
    by (auto intro!: ids_steps ids_ensure_udir keeps_update)
  then show ?thesis by (auto simp: keeps_def make_home_jaim_def return_s_def)
qed

lemma ids_storage: "keeps (ids_are p) (storage w)"
  unfolding storage_def by (auto intro!: ids_steps ids_ensure_udir keeps_update simp del: bind_get)

section \<open>Completion and clean-up\<close>

lemma ids_resolve_type: "keeps (ids_are p) (resolve_type d n ty)"
  unfolding resolve_type_def by (auto intro!: ids_steps split: sum.split)

lemma ids_executable: "keeps (ids_are p) (executable d n ty sb)"
  unfolding executable_def by (auto intro!: ids_steps split: option.split)

lemma ids_wanted: "keeps (ids_are p) (wanted pt d n ty sb)"
  unfolding wanted_def by (auto intro!: ids_steps ids_executable split: path_type.split)

lemma ids_offer_entries: "keeps (ids_are p) (offer_entries pt pre d arg es out)"
  by (induction es arbitrary: out) (auto intro!: ids_steps ids_resolve_type ids_wanted split: prod.split)

lemma ids_complete_path: "keeps (ids_are p) (complete_path pt bd pre arg out)"
  unfolding complete_path_def Let_def by (auto intro!: ids_steps ids_offer_entries split: sum.split)

lemma ids_complete_config: "keeps (ids_are p) (complete_config d pre arg ext out)"
  unfolding complete_config_def by (auto intro!: ids_steps split: sum.split)

lemma ids_complete_argument: "keeps (ids_are p) (complete_argument w opt arg pre)"
  unfolding complete_argument_def Let_def
  by (intro keeps_if keeps_return keeps_bind keeps_get ids_on_conf ids_complete_path ids_complete_config ids_storage)

lemma ids_complete: "keeps (ids_are p) (complete w c)"
  unfolding complete_def by (auto intro!: ids_steps ids_complete_argument split: completions.split)

lemma ids_remove_tree: "keeps (ids_are p) (remove_tree full)"
  unfolding remove_tree_def by (auto intro!: ids_steps split: sum.split)

lemma ids_unmount: "keeps (ids_are p) (sys_unmount m)"
  unfolding sys_unmount_def by (rule keeps_sys) (auto simp: end_helper_def)

lemma ids_device: "keeps (ids_are p) (stat_device m)"
  unfolding stat_device_def by (auto intro!: keeps_sys split: sum.split option.split)

lemma ids_drop_mount: "keeps (ids_are p) (drop_mount full)"
  unfolding drop_mount_def
  by (auto intro!: ids_steps ids_unmount ids_device split: sum.split prod.split simp del: bind_get)

lemma ids_remove_one: "keeps (ids_are p) (remove_one root n suf)"
  unfolding remove_one_def Let_def by (auto intro!: ids_steps ids_drop_mount ids_remove_tree)

lemma ids_sweep_root: "keeps (ids_are p) (sweep_root root sufs)"
  unfolding sweep_root_def Let_def
  by (intro keeps_bind keeps_get keeps_if keeps_for_each ids_remove_one keeps_attempt ids_readdir)

lemma ids_open_dir: "keeps (ids_are p) (sys_open_dir d)"
  unfolding sys_open_dir_def by (rule ids_at_node) simp

lemma ids_sweep: "keeps (ids_are p) (sweep_if_present root sufs)"
  unfolding sweep_if_present_def
  by (auto intro!: ids_steps ids_sweep_root ids_open_dir split: sum.split)

lemma ids_victims: "keeps (ids_are p) (tmp_victims tmp es)"
  by (induction es) (auto simp: Let_def simp del: bind_get intro!: ids_steps split: prod.split sum.split)

lemma ids_teardown: "keeps (ids_are p) (teardown env w)"
  unfolding teardown_def sweep_overlays_def sweep_strays_def sweep_tmp_def
  by (auto intro!: ids_steps ids_sweep ids_victims ids_remove_tree split: sum.split simp del: bind_get)

section \<open>The rest of the program\<close>

lemma ids_setup_setuid: "keeps (ids_are p) (setup_setuid exe prog)"
  unfolding setup_setuid_def running_executable_path_def
  by (auto intro!: ids_steps split: option.split simp del: bind_get)

lemma ids_on_accounts: "keeps (ids_are p) (on_accounts m)"
  by (auto simp: keeps_def on_accounts_def split: prod.split)

lemma ids_on_files: "keeps (ids_are p) (\<lambda>k. on_conf (m k) k)"
  using ids_on_conf unfolding keeps_def by blast

lemma ids_exit: "keeps (ids_are p) (exit_with n)"
  unfolding exit_with_def by (auto intro!: ids_steps keeps_update)

lemma ids_given: "(\<And>x. keeps (ids_are p) (f x)) \<Longrightarrow> keeps (ids_are p) (given_arg a f)"
  by (simp add: given_arg_def split: option.split)

lemma ids_no_arg: "keeps (ids_are p) m \<Longrightarrow> keeps (ids_are p) (no_arg a m)"
  by (simp add: no_arg_def split: option.split)

lemma ids_usage: "keeps (ids_are p) (usage w st)"
  unfolding usage_def by (auto intro!: ids_steps ids_exit)

lemma ids_version: "keeps (ids_are p) version"
  unfolding version_def by (intro keeps_bind ids_say ids_exit)

lemma ids_print_defaults: "keeps (ids_are p) print_defaults"
  unfolding print_defaults_def by (intro keeps_bind ids_say ids_exit)

lemma ids_flag: "(\<And>k. proc (f k) = proc k) \<Longrightarrow> keeps (ids_are p) (update_s f)"
  by (rule keeps_update) simp

lemma ids_main_action: "keeps (ids_are p) (main_action w name a)"
  unfolding main_action_def
  by (intro keeps_if ids_no_arg ids_given ids_usage ids_version ids_print_defaults ids_on_files ids_flag) simp_all

interpretation ids: option_actions "main_action w" "ids_are p"
  by unfold_locales (rule ids_main_action)

lemma ids_parse: "keeps (ids_are p) (parse_command_line w argv)"
  unfolding parse_command_line_def by (rule ids.argv_keeps)

lemma ids_first_parse: "keeps (ids_are p) (first_parse w argv)"
  unfolding first_parse_def
  by (auto intro!: ids_steps ids_parse ids_usage split: sum.split error.split)

lemma ids_begin: "keeps (ids_are p) (begin_run w)"
proof -
  have "keeps (ids_are p) (bind_s (on_conf (init_credentials w')) (\<lambda>_. update_s (\<lambda>k. k\<lparr>old_umask := file_mask k\<rparr>)))"
    for w' and p by (intro keeps_bind ids_on_conf ids_flag) simp
  then have "proc k = p \<Longrightarrow> proc (snd (begin_run w k)) = p" for k
    unfolding begin_run_def by (rule keepsD)
  then show ?thesis unfolding keeps_def by blast
qed

lemma ids_set_environ: "keeps (ids_are p) (set_environ n v)"
  unfolding set_environ_def by (rule ids_flag) simp

lemma ids_set_pwd: "keeps (ids_are p) (set_pwd w)"
  unfolding set_pwd_def by (intro keeps_bind ids_on_conf ids_set_environ)

lemma ids_state_if:
  "keeps (ids_are p) a \<Longrightarrow> keeps (ids_are p) b \<Longrightarrow> keeps (ids_are p) (\<lambda>k. if c k then a k else b k)"
  by (simp add: keeps_def)

lemma ids_early: "keeps (ids_are p) (early_actions P env w)"
  unfolding early_actions_def
  by (intro ids_state_if keeps_bind keeps_return keeps_throw ids_teardown ids_on_accounts ids_setup_setuid
      keeps_for_each ids_say)

lemma ids_install: "keeps (ids_are p) (install me d f c)"
  unfolding install_def ensured_in_def
  by (intro keeps_bind ids_ensure_file keeps_ignore_s ids_calls)

lemma ids_install_defaults: "keeps (ids_are p) (install_defaults me w)"
  unfolding install_defaults_def by (intro keeps_bind keeps_get ids_make_home ids_install)

lemma ids_init_files: "keeps (ids_are p) (init_files me w)"
  unfolding init_files_def by (intro keeps_bind keeps_get ids_storage ids_install ids_say)

lemma ids_read_conf: "keeps (ids_are p) (read_conf w f)"
  unfolding read_conf_def by (rule ids_on_files)

lemma ids_find_conf: "keeps (ids_are p) (find_conf w cmd)"
proof -
  have "keeps (ids_are p) (bind_s (read_conf w c) (\<lambda>found. if \<not> found
      then throw_s (RuntimeError (c @ '': no such configuration file'')) else return_s ()))"
    for c and p by (intro keeps_bind ids_read_conf keeps_if keeps_throw keeps_return)
  note given = keepsD [OF this]
  have "keeps (ids_are p)
      (bind_s (if cmd = [] \<or> \<not> name_ok (hd cmd) then return_s False else read_conf w (hd cmd @ ''.conf''))
        (\<lambda>found. if found then return_s ()
          else bind_s (read_conf w ''default.conf'') (\<lambda>found. if found then return_s ()
            else bind_s (read_conf w ''default.conf'') (\<lambda>_. return_s ()))))" for p
    by (intro keeps_bind ids_read_conf keeps_if keeps_return)
  note found = keepsD [OF this]
  show ?thesis
  proof (rule keepsI)
    fix k :: "'a invocation" assume p: "ids_are p k"
    show "ids_are p (snd (find_conf w cmd k))"
    proof (cases "opt_C k = []")
      case True
      then show ?thesis unfolding find_conf_def using found [OF p] by simp
    next
      case False
      then show ?thesis unfolding find_conf_def using given [OF p] by simp
    qed
  qed
qed

lemma ids_read_jail: "keeps (ids_are p) (read_jail me w)"
proof -
  have "keeps (ids_are p) (\<lambda>k. case open_file k f of Inl e \<Rightarrow> (Inl (SysError e d), k)
      | Inr cf \<Rightarrow> on_conf (parse_config_fd (parse_conf_text (levels k) (see k w) True) cf) k)" for f d and p
    using ids_on_conf unfolding keeps_def by (auto split: sum.split)
  then show ?thesis
    unfolding read_jail_def ensured_in_def
    by (intro keeps_bind keeps_get ids_storage ids_ensure_file keeps_ignore_s ids_calls)
qed

lemma ids_default_name: "keeps (ids_are p) default_name"
  by (simp add: default_name_def when_s_def keeps_def update_s_def)

lemma ids_configure: "keeps (ids_are p) (configure me w argv cmd)"
  unfolding configure_def
  by (intro keeps_bind keeps_get keeps_return ids_find_conf ids_parse ids_default_name ids_read_jail ids_set_environ)

definition work_before_exec ::
    "'d process \<Rightarrow> surroundings \<Rightarrow> world \<Rightarrow> string list \<Rightarrow> ('d, nat + string list) pstep" where
  "work_before_exec P env w argv =
     bind_s (begin_run w) (\<lambda>_.
       if length argv > 2 \<and> argv ! 1 = ''--complete'' then
         bind_s (complete w (complete_args (opt_actions main_options) 2 argv)) (\<lambda>n. return_s (Inl n))
       else
         bind_s (first_parse w argv) (\<lambda>cmd.
         bind_s (set_pwd w) (\<lambda>_.
         bind_s (early_actions P env w) (\<lambda>over.
           if over then return_s (Inl 0)
           else
             bind_s (install_defaults (p_pid P) w) (\<lambda>_.
             bind_s (get_s opt_init) (\<lambda>init.
               if init then bind_s (init_files (p_pid P) w) (\<lambda>_. return_s (Inl 0))
               else bind_s (configure (p_pid P) w argv cmd) (\<lambda>c. return_s (Inr c))))))))"

lemma before_exec_work:
  "before_exec P env w argv = bind_s drop_effective (\<lambda>_. work_before_exec P env w argv)"
  by (simp only: before_exec_def work_before_exec_def)

lemma ids_work: "keeps (ids_are p) (work_before_exec P env w argv)"
  unfolding work_before_exec_def
  by (intro keeps_bind keeps_if keeps_return keeps_get ids_begin ids_complete ids_first_parse ids_set_pwd ids_early
      ids_install_defaults ids_init_files ids_configure)

text \<open>The ids after the first statement of \<open>do_main\<close>.\<close>

definition user_ids :: "ids \<Rightarrow> ids" where
  "user_ids p = (if euid p = 0 \<and> ruid p \<noteq> 0 then p\<lparr>euid := ruid p\<rparr> else p)"

text \<open>C7: However the work of \<open>do_main\<close> before \<open>exec\<close> ends, with a command to run, an early end or an
  error, and whatever the options and the configuration files say and whatever calls fail: the process
  then has the rights of the user who started it.  Started from a setuid-root installation, its
  effective id is its real one; in all other cases no id has changed.  The only exception is that the
  rights cannot be given up, and then nothing else has been done.\<close>

theorem unprivileged_until_exec:
  "proc (snd (before_exec P env w argv k)) = user_ids (proc k) \<or>
   (\<exists>e m. before_exec P env w argv k = (Inl (SysError e m), k\<lparr>plans := tl (plans k)\<rparr>))"
proof -
  obtain a k1 where drop: "drop_effective k = (a, k1)" by fastforce
  show ?thesis
  proof (cases a)
    case (Inl e)
    then show ?thesis
      using drop
      by (auto simp: before_exec_work bind_s_def drop_effective_def or_syserr_def sys_seteuid_def id_call_def
          seteuid_ids_def syscall_def return_s_def split: if_splits list.splits plan.splits prod.splits sum.splits)
  next
    case (Inr u)
    have "proc k1 = user_ids (proc k)"
      using drop Inr
      by (auto simp: drop_effective_def or_syserr_def sys_seteuid_def id_call_def seteuid_ids_def syscall_def
          user_ids_def return_s_def
          split: if_splits list.splits plan.splits prod.splits sum.splits)
    then have "proc (snd (work_before_exec P env w argv k1)) = user_ids (proc k)"
      using keepsD [OF ids_work] by blast
    then show ?thesis using drop Inr by (simp add: before_exec_work bind_s_def)
  qed
qed

section \<open>The mode of the jail\<close>

definition mode_options :: "string set" where
  "mode_options = {''-m'', ''--mode''}"

lemma conf_of_on_conf: "conf (snd (on_conf m k)) = snd (m (conf k))"
  by (simp add: on_conf_def split: prod.split)

abbreviation mode_stays :: "mode \<Rightarrow> 'd invocation \<Rightarrow> bool" where
  "mode_stays v \<equiv> (\<lambda>k. jail_mode (conf k) = v)"

lemma other_action_keeps_mode:
  assumes "name \<notin> {''-m'', ''--mode'', ''--conf'', ''--conf?''}"
  shows "keeps (\<lambda>s. jail_mode s = v) (conf_action n w dotjail name a)"
proof -
  have "run_option w dotjail f name a = run_option w dotjail (\<lambda>_. return_s False) name a" for f
    using assms by (simp add: run_option_def)
  note same = this [of "include_conf n w dotjail"]
  show ?thesis
    unfolding conf_action_def same
    by (rule mode_choice.other_option_keeps) (use assms in simp_all)
qed

lemma mode_conf_action:
  assumes "name \<notin> {''-m'', ''--mode'', ''--conf'', ''--conf?''}"
  shows "keeps (mode_stays v) (\<lambda>k. on_conf (conf_action (n k) (f k) d name a) k)"
  using keepsD [OF other_action_keeps_mode [OF assms]] unfolding keeps_def by (simp add: conf_of_on_conf)

lemma mode_flag: "(\<And>k. conf (f k) = conf k) \<Longrightarrow> keeps (mode_stays v) (update_s f)"
  by (rule keeps_update) simp

lemma mode_report: "keeps (mode_stays v) (report e)"
  unfolding report_def by (rule mode_flag) simp

lemma mode_say: "keeps (mode_stays v) (say m)"
  unfolding say_def by (rule mode_flag) simp

lemma mode_exit: "keeps (mode_stays v) (exit_with n)"
  unfolding exit_with_def by (intro keeps_bind mode_flag keeps_throw) simp

lemma mode_given: "(\<And>x. keeps (mode_stays v) (f x)) \<Longrightarrow> keeps (mode_stays v) (given_arg a f)"
  by (simp add: given_arg_def split: option.split)

lemma mode_no_arg: "keeps (mode_stays v) m \<Longrightarrow> keeps (mode_stays v) (no_arg a m)"
  by (simp add: no_arg_def split: option.split)

lemma mode_usage: "keeps (mode_stays v) (usage w st)"
  unfolding usage_def by (intro keeps_bind keeps_if mode_report mode_say mode_exit)

lemma mode_version: "keeps (mode_stays v) version"
  unfolding version_def by (intro keeps_bind mode_say mode_exit)

lemma mode_print_defaults: "keeps (mode_stays v) print_defaults"
  unfolding print_defaults_def by (intro keeps_bind mode_say mode_exit)

lemma keeps_cond: "(c \<Longrightarrow> keeps I a) \<Longrightarrow> (\<not> c \<Longrightarrow> keeps I b) \<Longrightarrow> keeps I (if c then a else b)"
  by simp

lemma mode_main_action:
  assumes "name \<notin> mode_options"
  shows "keeps (mode_stays v) (main_action w name a)"
  unfolding main_action_def
  by (intro keeps_cond mode_no_arg mode_given mode_usage mode_version mode_print_defaults mode_flag mode_conf_action)
    (use assms in \<open>simp_all add: mode_options_def\<close>)

text \<open>An item of the mode that was executed had the name of a mode.\<close>

lemma mode_item:
  assumes "si_opt it \<in> mode_options" and "exec_item (main_action w) it k = (Inr u, k')"
  shows "map_of modemap (si_arg it) = Some (jail_mode (conf k'))"
proof -
  have act: "main_action w (si_opt it) a k =
      on_conf (case a of Some x \<Rightarrow> opt_mode x | None \<Rightarrow> throw_s (LogicError ''option requires argument'')) k" for a
    using assms(1) by (auto simp: mode_options_def main_action_def conf_action_def run_option_def with_arg_def)
  show ?thesis
    using assms(2)
    by (auto simp: exec_item_def act on_conf_def opt_mode_def throw_s_def update_s_def
        split: scan_kind.splits option.splits)
qed

lemma mode_items_after:
  "\<forall>y \<in> set ys. si_opt y \<notin> mode_options \<Longrightarrow> keeps (mode_stays v) (exec_items (main_action w) ys)"
proof (induction ys)
  case (Cons y ys)
  have "keeps (mode_stays v) (exec_item (main_action w) y)"
    using Cons.prems by (auto simp: exec_item_def intro!: mode_main_action split: scan_kind.split)
  with Cons show ?case by (auto intro!: keeps_bind)
qed simp

lemma exec_items_append:
  "exec_items run (xs @ ys) = bind_s (exec_items run xs) (\<lambda>_. exec_items run ys)"
  by (induction xs) (simp_all add: bind_s_assoc)

lemma mode_of_items:
  assumes "exec_items (main_action w) (xs @ it # ys) k = (Inr u, k')"
    and "si_opt it \<in> mode_options" and "\<forall>y \<in> set ys. si_opt y \<notin> mode_options"
  shows "map_of modemap (si_arg it) = Some (jail_mode (conf k'))"
proof -
  from assms(1) obtain k1 u1 k2 u2 where
      "exec_item (main_action w) it k1 = (Inr u2, k2)" "exec_items (main_action w) ys k2 = (Inr u, k')"
    by (auto simp: exec_items_append bind_s_def split: prod.splits sum.splits)
  moreover from this(2) keepsD [OF mode_items_after [OF assms(3), of "jail_mode (conf k2)" w], of k2]
  have "jail_mode (conf k') = jail_mode (conf k2)" by simp
  ultimately show ?thesis using mode_item [OF assms(2)] by simp
qed

lemma mode_set_environ: "keeps (mode_stays v) (set_environ n x)"
  unfolding set_environ_def by (rule keeps_update) simp

lemma mode_of_line:
  assumes "parse_command_line w argv k = (Inr c, k')"
    and "fst (scan_args (opt_actions main_options) (tl argv)) = xs @ it # ys"
    and "si_opt it \<in> mode_options" and "\<forall>y \<in> set ys. si_opt y \<notin> mode_options"
  shows "map_of modemap (si_arg it) = Some (jail_mode (conf k'))"
proof -
  from assms(1,2) obtain u where "exec_items (main_action w) (xs @ it # ys) k = (Inr u, k')"
    by (auto simp: parse_command_line_def parse_argv_def parse_argspan_def bind_s_def return_s_def
        split: prod.splits sum.splits)
  from mode_of_items [OF this assms(3,4)] show ?thesis .
qed

lemma configure_mode:
  fixes k :: "'d invocation"
  assumes "configure me w argv cmd k = (Inr c, k')"
  obtains c' and k1 k2 :: "'d invocation" where "parse_command_line w argv k1 = (Inr c', k2)" "jail_mode (conf k') = jail_mode (conf k2)"
proof -
  let ?last = "\<lambda>k. bind_s (set_environ ''JAIM_JAIL'' (sandbox_name (conf k))) (\<lambda>_.
      bind_s (set_environ ''JAIM_MODE'' (show_mode (jail_mode (conf k)))) (\<lambda>_.
        return_s (if cmd = [] then shell_command (conf k) else cmd))) k"
  from assms obtain c' k1 k2 where parse: "parse_command_line w argv k1 = (Inr c', k2)" and "?last k2 = (Inr c, k')"
    unfolding configure_def by (auto simp: bind_s_def split: prod.splits sum.splits)
  moreover have "jail_mode (conf (snd (?last k2))) = jail_mode (conf k2)"
    by (rule keepsD [where I = "mode_stays (jail_mode (conf k2))"])
      (intro keeps_bind mode_set_environ keeps_return, simp)
  ultimately show ?thesis by (intro that [OF parse]) simp
qed

text \<open>If \<open>do_main\<close> gets as far as running a command, the mode of the jail is that of the last
  \<open>-m\<close> or \<open>--mode\<close> on the command line, whatever the configuration files and the file of the jail
  say.\<close>

theorem last_mode_option_wins:
  fixes k :: "'d invocation"
  assumes "before_exec P env w argv k = (Inr (Inr c), k')"
    and "fst (scan_args (opt_actions main_options) (tl argv)) = xs @ it # ys"
    and "si_opt it \<in> mode_options" and "\<forall>y \<in> set ys. si_opt y \<notin> mode_options"
  shows "map_of modemap (si_arg it) = Some (jail_mode (conf k'))"
proof -
  from assms(1) obtain cmd k0 where "configure (p_pid P) w argv cmd k0 = (Inr c, k')"
    unfolding before_exec_def
    by (auto simp: bind_s_def return_s_def split: prod.splits sum.splits if_splits)
  then obtain c' and k1 k2 :: "'d invocation" where "parse_command_line w argv k1 = (Inr c', k2)" "jail_mode (conf k') = jail_mode (conf k2)"
    by (rule configure_mode)
  with mode_of_line [OF _ assms(2-4)] show ?thesis by simp
qed

section \<open>A configuration file that is not there\<close>

text \<open>\<open>--conf?\<close> does what \<open>--conf\<close> does: a file that is missing ends the run with an error, although
  the help text promises none.\<close>

lemma conf_question_is_conf: "main_action w ''--conf?'' = main_action w ''--conf''"
  by (rule ext) (simp add: main_action_def)

lemma missing_conf_refused:
  assumes "opt_C k \<noteq> []" and "read_conf w (opt_C k) k = (Inr False, k')"
  shows "find_conf w cmd k = (Inl (RuntimeError (opt_C k @ '': no such configuration file'')), k')"
  using assms by (simp add: find_conf_def bind_s_def throw_s_def)

end
