(* ===== verification/Spec2Isabelle.thy ===== *)
theory Spec2Isabelle
  imports Environment Profile_Guarantees Overlay_Flaws Acl_Theorems Credentials_Facts Supervision_Theorems Accounts_Theorems Teardown_Theorems Completion_Theorems Program_Theorems
begin

text \<open>
  A verification development for \<^bold>\<open>jaim\<close>, a sandbox for command-line programs on macOS.

  \<^bold>\<open>The program.\<close>  \<open>jaim\<close> (\<open>src/jaim.cc\<close>, \<open>src/jaim.h\<close>) reads options and configuration files
  into a \<open>Config\<close>, writes a Seatbelt profile and an environment from it, and runs a command under
  both.  In strict mode the command runs as the system user \<open>_jaim\<close>, which gets access to the granted
  files through access-control lists (\<open>src/acl.cc\<close>, \<open>src/cred.cc\<close>) and is created by
  \<open>src/setup_user.cc\<close>.  In casual mode a second program, \<open>jaim-overlay\<close> (\<open>src/overlay.cc\<close>), shows the
  user's home through a copy-on-write FUSE file system, whose changes go to a directory of their own.
  The option parser is \<open>src/options.h\<close> and \<open>src/options.cc\<close>, the path and file helpers are
  \<open>src/fs.h\<close> and \<open>src/fs.cc\<close>, the files installed on the first run are in \<open>src/default_conf.cc\<close>, and
  \<open>src/complete.cc\<close> completes command lines in a shell.

  \<^bold>\<open>Basis.\<close>

  \<^item> \<open>Prelude\<close>: the exceptions of the program as values, steps (state passing with an error), the
    invariants (\<open>keeps\<close>) and triples of steps, strings.
  \<^item> \<open>Ordered_Maps\<close>, \<open>Paths\<close>, \<open>Globbing\<close>, \<open>Expansion\<close>: \<open>std::map\<close> and \<open>std::set\<close> under a weak
    order (the locales \<open>weak_order\<close> and \<open>total_keys\<close>, interpreted on characters, strings and
    paths), \<open>std::filesystem::path\<close>, \<open>fnmatch\<close>-like patterns and \<open>${VAR}\<close> expansion.
  \<^item> \<open>Kernel\<close>, \<open>Kernel_Facts\<close>: a POSIX file system with directories, inodes, symbolic links and
    descriptors; every system call consults a plan by which the environment makes it fail with any
    error number or moves fewer bytes.
  \<^item> \<open>Machine\<close>, \<open>Machine_Facts\<close>: the same store with the ids of the process, the access-control
    lists of the files and the warnings printed.
  \<^item> \<open>Files\<close>: permissions, and reading and writing whole files.

  \<^bold>\<open>From options to a configuration.\<close>

  \<^item> \<open>Options\<close>, \<open>Options_Facts\<close>: registration, scanning and execution of options, the lexer of
    configuration files, located errors and completion.  The locales \<open>option_actions\<close> and
    \<open>checked_actions\<close> state what a client's handlers promise; they are interpreted on the handlers
    of \<open>jaim\<close> in \<open>Config_Facts\<close>, \<open>Config_Errors\<close> and \<open>Program_Theorems\<close>.
  \<^item> \<open>Config\<close>, \<open>Config_Parser\<close>, \<open>Config_Facts\<close>, \<open>Config_Inclusion\<close>, \<open>Config_Errors\<close>,
    \<open>Config_Theorems\<close>: the record \<open>Config\<close>, each option of \<open>opt_parser\<close>, inclusion of files with
    loop detection, and what every sequence of options keeps.  The system calls of this part are
    the fields of a record \<open>world\<close>.
  \<^item> \<open>Defaults\<close>, \<open>Defaults_Theorems\<close>: the installed files, byte for byte, and what parsing them does.
  \<^item> \<open>Program\<close>, \<open>Program_Theorems\<close>: \<open>do_main\<close> and \<open>main\<close>, which put the parts together; the rights
    of the process before \<open>exec\<close>, and which mode is used.

  \<^bold>\<open>What the command gets.\<close>

  \<^item> \<open>Environment\<close>: \<open>make_env\<close>.
  \<^item> \<open>Sandbox_Profile\<close>: the text of the Seatbelt profile, as \<open>generate_sandbox_profile\<close> writes it.
    \<open>Profile_Rules\<close> reads the text back as expressions and shows that it denotes the rules of the
    configuration.  \<open>Profile_Verdict\<close> defines what a profile text permits, knowing nothing of the
    program: paths match by components, patterns as POSIX expressions (of the kind that occurs,
    anchored at both ends), and of the rules that apply to an operation on a path the last one decides.
    \<open>Profile_Policy\<close> traces the verdict on the generated text back to the configuration, and
    \<open>Profile_Guarantees\<close> draws the conclusions for masked, granted and private paths.
  \<^item> \<open>Acl\<close>, \<open>Acl_Facts\<close>, \<open>Acl_Theorems\<close>: \<open>src/acl.cc\<close>.  The locales \<open>visitor\<close> and
    \<open>thorough_visitor\<close> state what \<open>walk_tree\<close> is given; adding and removing entries interpret them.
  \<^item> \<open>Credentials\<close>, \<open>Credentials_Facts\<close>: account lookups and the switching of ids.

  \<^bold>\<open>Running it.\<close>

  \<^item> \<open>Launch\<close>: \<open>Config::exec\<close> up to the fork, with \<open>make_script\<close>, the overlay helper and the grants.
    \<open>Supervision\<close>: the child up to \<open>execve\<close>, and the parent's wait.  \<open>Supervision_Facts\<close>, \<open>Cleanup\<close>
    and \<open>Supervision_Theorems\<close> show what the command starts with and what is left of a run.
  \<^item> \<open>Teardown\<close>, \<open>Teardown_Theorems\<close>: \<open>jaim -u\<close>.
  \<^item> \<open>Ensure\<close>, \<open>Ensure_Theorems\<close>, \<open>Ensure_Dirs\<close>, \<open>Storage\<close>: files and directories made on demand.
  \<^item> \<open>Accounts\<close>, \<open>Accounts_Theorems\<close>: \<open>--setup-user\<close>, \<open>--remove-user\<close> and \<open>--setup-setuid\<close>, over a
    directory service that is a parameter; what \<open>dscl\<close> is assumed to do is \<open>documented\<close>, for the
    forms of it that are run.
  \<^item> \<open>Completion\<close>, \<open>Completion_Theorems\<close>: \<open>jaim --complete\<close>.

  \<^bold>\<open>The overlay.\<close>

  \<^item> \<open>Overlay\<close>, \<open>Overlay_Ops\<close>, \<open>Overlay_Start\<close>: \<open>jaim-overlay\<close>, from path resolution over the two
    layers, whiteouts and copy-up to each FUSE operation, the table of operations and the checks
    of \<open>main\<close>.
  \<^item> \<open>Upper_Guard\<close>, \<open>Fuse_Paths\<close>, \<open>Confinement\<close>, \<open>Confinement_Ops\<close>, \<open>Overlay_Safety\<close>: an
    invariant that nothing outside the upper directory changes, which system calls keep it on which
    paths, that every operation keeps it, and the theorem for whole runs.  \<open>Overlay_Samples\<close> has small
    file systems, \<open>Overlay_Flaws\<close> the requests that reach outside all the same.

  \<^bold>\<open>Bounds and fuel.\<close>  \<open>include_conf\<close> takes the number of levels of inclusion left; \<open>inclusion_ends\<close>
  shows that the number of configuration files is enough and that more changes nothing, and \<open>levels\<close>
  of \<open>Program\<close> is one more than the entries of the store.  Name resolution in \<open>Kernel\<close> follows at most
  32 symbolic links, as the kernel does.  The walk of a tree may go as deep as the store has
  entries; no path is longer.  \<open>read_loop\<close> takes one turn more than there are bytes.  The loops of
  \<open>copy_regular\<close> and \<open>write_bytes\<close> end because every interruption uses up a failure of the plan: the
  former are functions with a measure, the latter and \<open>ensure_loop\<close> have a number of turns that
  \<open>Ensure_Dirs\<close> proves enough.  \<open>db_get\<close> is a partial function: \<open>account_lookup_ends\<close> says when it
  returns.  The four tries of \<open>getgroups\<close>, the 100 polls for the mount and the 20 for the end of the
  helper are those of the code.

  \<^bold>\<open>Simplifications.\<close>  The descriptor of a directory is its path.  A mount is found by its canonical
  path, and the overlay helper is absent, serving or ended and not yet waited for.  \<open>std::filesystem::remove_all\<close> removes
  a whole tree in one step or fails without a change.  The permission to access a file is checked where
  the code depends on it (reading scripts and configurations, changing lists); other refusals are
  failures of the plan.  A command is a function on the state, and the answers of \<open>waitpid\<close> a
  list.  \<open>exit\<close> inside an option is an error with the status kept in the state.

  \<^bold>\<open>Not modelled.\<close>  The C++ templates by which \<open>options.h\<close> converts handlers and arguments
  (\<open>src/argtype.h\<close>, \<open>src/move_only_function.h\<close>, \<open>src/defer.h\<close>), the descriptor helpers of \<open>src/fs.cc\<close>
  that nothing above uses, the trace output of the overlay and \<open>fuse_main\<close>, and the tests.
\<close>

end
